theory Spec2Isabelle
  imports Complex_Main
begin

section \<open>Python values used by the selectors\<close>

text \<open>
  The selectors of \<^verbatim>\<open>my_model_selectors.py\<close> compare and combine Python floats:
  log-likelihoods returned by \<^verbatim>\<open>hmm_model.score\<close>, the sentinels
  \<^verbatim>\<open>float('inf')\<close> and \<^verbatim>\<open>float('-inf')\<close>, and whatever \<^verbatim>\<open>np.log\<close> and
  \<^verbatim>\<open>np.mean\<close> produce. A float is modelled as a finite value, one of the two
  infinities, or NaN. Finite values are idealised as real numbers: rounding and
  overflow of finite arithmetic are not modelled; the special values follow IEEE 754.
\<close>

datatype pyfloat = NaN | NegInf | Fin real | PosInf

text \<open>\<^verbatim>\<open>a > b\<close>: false as soon as one side is NaN.\<close>

fun fgt :: "pyfloat \<Rightarrow> pyfloat \<Rightarrow> bool" where
  "fgt NaN b = False"
| "fgt a NaN = False"
| "fgt NegInf b = False"
| "fgt (Fin x) NegInf = True"
| "fgt (Fin x) (Fin y) = (y < x)"
| "fgt (Fin x) PosInf = False"
| "fgt PosInf PosInf = False"
| "fgt PosInf b = True"

text \<open>\<^verbatim>\<open>a < b\<close>.\<close>

definition flt :: "pyfloat \<Rightarrow> pyfloat \<Rightarrow> bool" where
  "flt a b = fgt b a"

text \<open>\<^verbatim>\<open>a + b\<close>.\<close>

fun fadd :: "pyfloat \<Rightarrow> pyfloat \<Rightarrow> pyfloat" where
  "fadd NaN b = NaN"
| "fadd a NaN = NaN"
| "fadd (Fin x) (Fin y) = Fin (x + y)"
| "fadd (Fin x) b = b"
| "fadd a (Fin y) = a"
| "fadd PosInf PosInf = PosInf"
| "fadd NegInf NegInf = NegInf"
| "fadd PosInf NegInf = NaN"
| "fadd NegInf PosInf = NaN"

text \<open>\<^verbatim>\<open>-a\<close> and \<^verbatim>\<open>a - b\<close>.\<close>

fun fneg :: "pyfloat \<Rightarrow> pyfloat" where
  "fneg NaN = NaN"
| "fneg NegInf = PosInf"
| "fneg (Fin x) = Fin (- x)"
| "fneg PosInf = NegInf"

definition fsub :: "pyfloat \<Rightarrow> pyfloat \<Rightarrow> pyfloat" where
  "fsub a b = fadd a (fneg b)"

text \<open>The sign of a float that is not NaN, and the infinity of a given sign.\<close>

fun fsign :: "pyfloat \<Rightarrow> int" where
  "fsign NaN = 0"
| "fsign NegInf = - 1"
| "fsign (Fin x) = (if x < 0 then - 1 else if x = 0 then 0 else 1)"
| "fsign PosInf = 1"

definition finf :: "int \<Rightarrow> pyfloat" where
  "finf s = (if s = 0 then NaN else if s < 0 then NegInf else PosInf)"

text \<open>\<^verbatim>\<open>a * b\<close>: an infinity times zero is NaN.\<close>

fun fmul :: "pyfloat \<Rightarrow> pyfloat \<Rightarrow> pyfloat" where
  "fmul NaN b = NaN"
| "fmul a NaN = NaN"
| "fmul (Fin x) (Fin y) = Fin (x * y)"
| "fmul a b = finf (fsign a * fsign b)"

text \<open>An int operand of a float operation is converted to a float first.\<close>

definition float_of_int :: "int \<Rightarrow> pyfloat" where
  "float_of_int i = Fin (real_of_int i)"

text \<open>
  \<^verbatim>\<open>np.log(k)\<close> for a length \<open>k\<close>: \<^verbatim>\<open>np.log(0)\<close> warns and returns
  \<^verbatim>\<open>-inf\<close>, it does not raise.
\<close>

definition np_log :: "nat \<Rightarrow> pyfloat" where
  "np_log k = (if k = 0 then NegInf else Fin (ln (real k)))"

text \<open>The builtin \<^verbatim>\<open>sum\<close> starts from the int 0 and adds from the left.\<close>

definition py_sum :: "pyfloat list \<Rightarrow> pyfloat" where
  "py_sum xs = foldl fadd (float_of_int 0) xs"

text \<open>
  \<^verbatim>\<open>np.mean(scores)\<close>: the sum divided by the count; the mean of an empty list
  is NaN (with a warning, no exception).
\<close>

definition np_mean :: "pyfloat list \<Rightarrow> pyfloat" where
  "np_mean xs =
     (if xs = [] then NaN
      else (case foldl fadd (Fin 0) xs of
              Fin s \<Rightarrow> Fin (s / real (length xs))
            | v \<Rightarrow> v))"

text \<open>\<^verbatim>\<open>range(a, b)\<close> over Python ints: empty when \<open>b \<le> a\<close>.\<close>

definition py_range :: "int \<Rightarrow> int \<Rightarrow> int list" where
  "py_range a b = [a..b - 1]"

text \<open>
  \<^verbatim>\<open>max(a, b, key=lambda x: x[1])\<close>: the builtin keeps its first argument and
  replaces it only by an item whose key is strictly greater.
\<close>

definition py_max_key :: "'a \<times> pyfloat \<Rightarrow> 'a \<times> pyfloat \<Rightarrow> 'a \<times> pyfloat" where
  "py_max_key a b = (if fgt (snd b) (snd a) then b else a)"

text \<open>
  A dict is an association list in insertion order; a lookup takes the first binding
  of the key and the keys are listed without repetition.
\<close>

definition dict_keys :: "('k \<times> 'v) list \<Rightarrow> 'k list" where
  "dict_keys d = remdups (map fst d)"

text \<open>The exceptions the selectors can meet. All of them are caught by a bare \<^verbatim>\<open>except\<close>.\<close>

datatype py_error =
    AttributeError      \<comment> \<open>\<^verbatim>\<open>None.score\<close>: the candidate failed to fit\<close>
  | KeyError            \<comment> \<open>a dict lookup of a missing word\<close>
  | ZeroDivisionError   \<comment> \<open>\<^verbatim>\<open>1 / (M - 1)\<close> with \<open>M = 1\<close>\<close>
  | UnboundLocalError   \<comment> \<open>\<^verbatim>\<open>hmm_model\<close> read before any assignment\<close>
  | LibraryError        \<comment> \<open>raised inside hmmlearn, sklearn or \<^verbatim>\<open>asl_utils\<close>\<close>

section \<open>The external collaborators\<close>

text \<open>
  hmmlearn's \<^verbatim>\<open>GaussianHMM\<close>, sklearn's \<^verbatim>\<open>KFold\<close> and
  \<^verbatim>\<open>asl_utils.combine_sequences\<close> are not part of the file; they are parameters of
  the model. Each returns \<open>None\<close> where the call raises.
  \<^item> \<open>hmm_fit n seed X lengths\<close>: what \<^verbatim>\<open>GaussianHMM(n_components=n, covariance_type="diag",
    n_iter=1000, random_state=seed).fit(X, lengths)\<close> learns;
  \<^item> \<open>hmm_score m X lengths\<close>: \<^verbatim>\<open>m.score(X, lengths)\<close>;
  \<^item> \<open>hmm_n_features p\<close>: the attribute \<^verbatim>\<open>n_features\<close> of a fitted model;
  \<^item> \<open>kf_split seqs\<close>: the list of \<open>(i_train, i_test)\<close> that \<^verbatim>\<open>KFold().split(seqs)\<close> yields;
  \<^item> \<open>combine_sequences idx seqs\<close>: the pair \<open>(X, lengths)\<close> of the chosen sequences.
\<close>

record 'p hmm =
  n_components :: int
  fitted :: 'p

record ('x, 's, 'p) externals =
  hmm_fit :: "int \<Rightarrow> int \<Rightarrow> 'x \<Rightarrow> int list \<Rightarrow> 'p option"
  hmm_score :: "'p hmm \<Rightarrow> 'x \<Rightarrow> int list \<Rightarrow> pyfloat option"
  hmm_n_features :: "'p \<Rightarrow> int"
  kf_split :: "'s list \<Rightarrow> (nat list \<times> nat list) list option"
  combine_sequences :: "nat list \<Rightarrow> 's list \<Rightarrow> ('x \<times> int list) option"

section \<open>ModelSelector\<close>

record ('x, 's) selector =
  words :: "(string \<times> 's list) list"
  hwords :: "(string \<times> ('x \<times> int list)) list"
  sequences :: "'s list"
  X :: 'x
  lengths :: "int list"
  this_word :: string
  n_constant :: int
  min_n_components :: int
  max_n_components :: int
  random_state :: int
  verbose :: bool

text \<open>\<^verbatim>\<open>ModelSelector.__init__\<close>: both lookups of \<^verbatim>\<open>this_word\<close> can raise KeyError.\<close>

definition ModelSelector_init ::
  "(string \<times> 's list) list \<Rightarrow> (string \<times> ('x \<times> int list)) list \<Rightarrow> string \<Rightarrow>
   int \<Rightarrow> int \<Rightarrow> int \<Rightarrow> int \<Rightarrow> bool \<Rightarrow> py_error + ('x, 's) selector" where
  "ModelSelector_init all_word_sequences all_word_Xlengths word nc min_n max_n seed verb =
     (case map_of all_word_sequences word of
        None \<Rightarrow> Inl KeyError
      | Some sq \<Rightarrow>
          (case map_of all_word_Xlengths word of
             None \<Rightarrow> Inl KeyError
           | Some (x, l) \<Rightarrow>
               Inr \<lparr>words = all_word_sequences, hwords = all_word_Xlengths, sequences = sq,
                    X = x, lengths = l, this_word = word, n_constant = nc,
                    min_n_components = min_n, max_n_components = max_n,
                    random_state = seed, verbose = verb\<rparr>))"

text \<open>
  \<^verbatim>\<open>base_model\<close>: the fit runs on the instance's current \<^verbatim>\<open>X\<close> and \<^verbatim>\<open>lengths\<close>;
  any exception becomes \<^verbatim>\<open>None\<close>. The model built has the requested number of
  states. The diagnostic printing under \<^verbatim>\<open>verbose\<close> is not modelled.
\<close>

definition base_model ::
  "('x, 's, 'p) externals \<Rightarrow> ('x, 's) selector \<Rightarrow> int \<Rightarrow> 'p hmm option" where
  "base_model ext self num_states =
     (case hmm_fit ext num_states (random_state self) (X self) (lengths self) of
        None \<Rightarrow> None
      | Some p \<Rightarrow> Some \<lparr>n_components = num_states, fitted = p\<rparr>)"

text \<open>\<^verbatim>\<open>hmm_model.score(X, lengths)\<close> where \<^verbatim>\<open>hmm_model\<close> may be \<^verbatim>\<open>None\<close>.\<close>

definition call_score ::
  "('x, 's, 'p) externals \<Rightarrow> 'p hmm option \<Rightarrow> 'x \<Rightarrow> int list \<Rightarrow> py_error + pyfloat" where
  "call_score ext hmm_model x l =
     (case hmm_model of
        None \<Rightarrow> Inl AttributeError
      | Some m \<Rightarrow> (case hmm_score ext m x l of None \<Rightarrow> Inl LibraryError | Some v \<Rightarrow> Inr v))"

section \<open>SelectorConstant\<close>

definition SelectorConstant_select ::
  "('x, 's, 'p) externals \<Rightarrow> ('x, 's) selector \<Rightarrow> 'p hmm option" where
  "SelectorConstant_select ext self =
     (let best_num_components = n_constant self in base_model ext self best_num_components)"

section \<open>SelectorBIC\<close>

text \<open>
  The body of the \<^verbatim>\<open>try\<close> for one state count \<open>n\<close>, up to the score: the fitted
  model with its BIC, or the exception that ends this candidate.
\<close>

definition SelectorBIC_body ::
  "('x, 's, 'p) externals \<Rightarrow> ('x, 's) selector \<Rightarrow> int \<Rightarrow> py_error + ('p hmm \<times> pyfloat)" where
  "SelectorBIC_body ext self n =
     (let hmm_model = base_model ext self n in
      case hmm_model of
        None \<Rightarrow> Inl AttributeError
      | Some m \<Rightarrow>
          (case hmm_score ext m (X self) (lengths self) of
             None \<Rightarrow> Inl LibraryError
           | Some logL \<Rightarrow>
               (let logN = np_log (length (lengths self));
                    p = n ^ 2 + 2 * n * hmm_n_features ext (fitted m) - 1;
                    score = fadd (fmul (float_of_int (- 2)) logL) (fmul (float_of_int p) logN)
                in Inr (m, score))))"

text \<open>One iteration of the loop: \<^verbatim>\<open>except: pass\<close> keeps the running best.\<close>

definition SelectorBIC_step ::
  "('x, 's, 'p) externals \<Rightarrow> ('x, 's) selector \<Rightarrow> 'p hmm option \<times> pyfloat \<Rightarrow> int \<Rightarrow>
   'p hmm option \<times> pyfloat" where
  "SelectorBIC_step ext self best_model n =
     (case SelectorBIC_body ext self n of
        Inl e \<Rightarrow> best_model
      | Inr (hmm_model, score) \<Rightarrow>
          if fgt (snd best_model) score then (Some hmm_model, score) else best_model)"

definition SelectorBIC_select ::
  "('x, 's, 'p) externals \<Rightarrow> ('x, 's) selector \<Rightarrow> 'p hmm option" where
  "SelectorBIC_select ext self =
     fst (foldl (SelectorBIC_step ext self) (None, PosInf)
            (py_range (min_n_components self) (max_n_components self)))"

section \<open>SelectorDIC\<close>

text \<open>
  The list comprehension \<^verbatim>\<open>[hmm_model.score(*self.hwords[w]) for w in self.words.keys()]\<close>:
  the first failing lookup or score ends it.
\<close>

fun score_words ::
  "('x, 's, 'p) externals \<Rightarrow> (string \<times> ('x \<times> int list)) list \<Rightarrow> 'p hmm \<Rightarrow> string list \<Rightarrow>
   py_error + pyfloat list" where
  "score_words ext hw m [] = Inr []"
| "score_words ext hw m (w # ws) =
     (case map_of hw w of
        None \<Rightarrow> Inl KeyError
      | Some (x, l) \<Rightarrow>
          (case hmm_score ext m x l of
             None \<Rightarrow> Inl LibraryError
           | Some v \<Rightarrow>
               (case score_words ext hw m ws of
                  Inl e \<Rightarrow> Inl e
                | Inr vs \<Rightarrow> Inr (v # vs))))"

text \<open>
  The body of the \<^verbatim>\<open>try\<close> for one state count. In
  \<^verbatim>\<open>logL - (1 / (M - 1)) * (log_sum - logL)\<close> the quotient of the two ints is
  evaluated before the product, and raises when \<open>M = 1\<close>.
\<close>

definition SelectorDIC_body ::
  "('x, 's, 'p) externals \<Rightarrow> ('x, 's) selector \<Rightarrow> int \<Rightarrow> py_error + ('p hmm \<times> pyfloat)" where
  "SelectorDIC_body ext self n =
     (let hmm_model = base_model ext self n;
          M = int (length (dict_keys (words self)))
      in case hmm_model of
        None \<Rightarrow> Inl AttributeError
      | Some m \<Rightarrow>
          (case hmm_score ext m (X self) (lengths self) of
             None \<Rightarrow> Inl LibraryError
           | Some logL \<Rightarrow>
               (case score_words ext (hwords self) m (dict_keys (words self)) of
                  Inl e \<Rightarrow> Inl e
                | Inr vs \<Rightarrow>
                    (let log_sum = py_sum vs in
                     if M - 1 = 0 then Inl ZeroDivisionError
                     else
                       (let score =
                              fsub logL (fmul (Fin (1 / real_of_int (M - 1))) (fsub log_sum logL))
                        in Inr (m, score))))))"

definition SelectorDIC_step ::
  "('x, 's, 'p) externals \<Rightarrow> ('x, 's) selector \<Rightarrow> 'p hmm option \<times> pyfloat \<Rightarrow> int \<Rightarrow>
   'p hmm option \<times> pyfloat" where
  "SelectorDIC_step ext self best_model n =
     (case SelectorDIC_body ext self n of
        Inl e \<Rightarrow> best_model
      | Inr (hmm_model, score) \<Rightarrow>
          if flt (snd best_model) score then (Some hmm_model, score) else best_model)"

definition SelectorDIC_select ::
  "('x, 's, 'p) externals \<Rightarrow> ('x, 's) selector \<Rightarrow> 'p hmm option" where
  "SelectorDIC_select ext self =
     fst (foldl (SelectorDIC_step ext self) (None, NegInf)
            (py_range (min_n_components self) (max_n_components self)))"

section \<open>SelectorCV\<close>

text \<open>
  \<^verbatim>\<open>SelectorCV.select\<close> rebinds \<^verbatim>\<open>self.X\<close> and \<^verbatim>\<open>self.lengths\<close> in every
  fold, and its local variable \<^verbatim>\<open>hmm_model\<close> lives across the iterations of both
  loops. The state threaded through the model is the instance together with that
  variable: \<open>None\<close> while it is unbound, \<open>Some None\<close> once a failed fit was assigned,
  \<open>Some (Some m)\<close> for a fitted model.
\<close>

type_synonym ('x, 's, 'p) cv_state = "('x, 's) selector \<times> 'p hmm option option"

text \<open>
  One pass through the body of the fold loop: the log-likelihood appended to
  \<^verbatim>\<open>scores\<close>, or the exception that leaves the loop, and the state reached. The
  rebinding of \<^verbatim>\<open>self.X\<close> and \<^verbatim>\<open>self.lengths\<close> comes first and stays when a
  later line raises.
\<close>

definition SelectorCV_fold ::
  "('x, 's, 'p) externals \<Rightarrow> int \<Rightarrow> nat list \<times> nat list \<Rightarrow> ('x, 's, 'p) cv_state \<Rightarrow>
   (py_error + pyfloat) \<times> ('x, 's, 'p) cv_state" where
  "SelectorCV_fold ext n fold_pair st =
     (let i_train = fst fold_pair; i_test = snd fold_pair; self = fst st in
      case combine_sequences ext i_train (sequences self) of
        None \<Rightarrow> (Inl LibraryError, st)
      | Some (x_train, l_train) \<Rightarrow>
          (let self1 = self\<lparr>X := x_train, lengths := l_train\<rparr> in
           case combine_sequences ext i_test (sequences self1) of
             None \<Rightarrow> (Inl LibraryError, (self1, snd st))
           | Some (X_test, len_test) \<Rightarrow>
               (let hmm_model = base_model ext self1 n in
                case hmm_model of
                  None \<Rightarrow> (Inl AttributeError, (self1, Some None))
                | Some m \<Rightarrow>
                    (case hmm_score ext m X_test len_test of
                       None \<Rightarrow> (Inl LibraryError, (self1, Some hmm_model))
                     | Some log_likelihood \<Rightarrow> (Inr log_likelihood, (self1, Some hmm_model))))))"

text \<open>
  The fold loop for one state count. The result carries the exception that left the
  loop, if any, the state reached, and the scores appended so far.
\<close>

fun SelectorCV_folds ::
  "('x, 's, 'p) externals \<Rightarrow> int \<Rightarrow> (nat list \<times> nat list) list \<Rightarrow>
   ('x, 's, 'p) cv_state \<Rightarrow> pyfloat list \<Rightarrow>
   py_error option \<times> ('x, 's, 'p) cv_state \<times> pyfloat list" where
  "SelectorCV_folds ext n [] st scores = (None, st, scores)"
| "SelectorCV_folds ext n (fold_pair # rest) st scores =
     (case SelectorCV_fold ext n fold_pair st of
        (Inl e, st1) \<Rightarrow> (Some e, st1, scores)
      | (Inr log_likelihood, st1) \<Rightarrow>
          SelectorCV_folds ext n rest st1 (scores @ [log_likelihood]))"

text \<open>
  The body of the \<^verbatim>\<open>try\<close> for one state count, up to \<^verbatim>\<open>curr\<close>: the candidate
  pair or the exception, and the state left behind in either case.
\<close>

definition SelectorCV_body ::
  "('x, 's, 'p) externals \<Rightarrow> int \<Rightarrow> ('x, 's, 'p) cv_state \<Rightarrow>
   (py_error + ('p hmm option \<times> pyfloat)) \<times> ('x, 's, 'p) cv_state" where
  "SelectorCV_body ext n st =
     (let self = fst st in
      if length (sequences self) > 2 then
        (case kf_split ext (sequences self) of
           None \<Rightarrow> (Inl LibraryError, st)
         | Some folds \<Rightarrow>
             (case SelectorCV_folds ext n folds st [] of
                (Some e, st1, scores) \<Rightarrow> (Inl e, st1)
              | (None, st1, scores) \<Rightarrow>
                  (case snd st1 of
                     None \<Rightarrow> (Inl UnboundLocalError, st1)
                   | Some hmm_model \<Rightarrow> (Inr (hmm_model, np_mean scores), st1))))
      else
        (let hmm_model = base_model ext self n in
         case hmm_model of
           None \<Rightarrow> (Inl AttributeError, (self, Some None))
         | Some m \<Rightarrow>
             (case hmm_score ext m (X self) (lengths self) of
                None \<Rightarrow> (Inl LibraryError, (self, Some hmm_model))
              | Some score \<Rightarrow> (Inr (hmm_model, score), (self, Some hmm_model)))))"

definition SelectorCV_step ::
  "('x, 's, 'p) externals \<Rightarrow> ('p hmm option \<times> pyfloat) \<times> ('x, 's, 'p) cv_state \<Rightarrow> int \<Rightarrow>
   ('p hmm option \<times> pyfloat) \<times> ('x, 's, 'p) cv_state" where
  "SelectorCV_step ext acc n =
     (case SelectorCV_body ext n (snd acc) of
        (Inl e, st1) \<Rightarrow> (fst acc, st1)
      | (Inr curr_pair, st1) \<Rightarrow> (py_max_key (fst acc) curr_pair, st1))"

text \<open>\<^verbatim>\<open>select\<close> returns \<^verbatim>\<open>best_model[0]\<close>; the instance it leaves behind is the second component.\<close>

definition SelectorCV_select ::
  "('x, 's, 'p) externals \<Rightarrow> ('x, 's) selector \<Rightarrow> 'p hmm option \<times> ('x, 's) selector" where
  "SelectorCV_select ext self =
     (case foldl (SelectorCV_step ext) ((None, NegInf), (self, None))
             (py_range (min_n_components self) (max_n_components self + 1)) of
        (best_model, (self1, hv)) \<Rightarrow> (fst best_model, self1))"

section \<open>The search loop in the abstract\<close>

text \<open>
  The three selectors that search share one loop shape: a running best pair, replaced
  by a candidate only when the candidate's score is strictly better, and left alone
  when the candidate raised. The definitions of this section are used in the proofs
  only; each selector above is shown to be an instance.
\<close>

definition keep_best ::
  "(pyfloat \<Rightarrow> pyfloat \<Rightarrow> bool) \<Rightarrow> 'a \<times> pyfloat \<Rightarrow> py_error + ('a \<times> pyfloat) \<Rightarrow> 'a \<times> pyfloat" where
  "keep_best better best r =
     (case r of Inl e \<Rightarrow> best | Inr c \<Rightarrow> if better (snd c) (snd best) then c else best)"

definition search ::
  "(pyfloat \<Rightarrow> pyfloat \<Rightarrow> bool) \<Rightarrow> (int \<Rightarrow> py_error + ('a \<times> pyfloat)) \<Rightarrow> 'a \<times> pyfloat \<Rightarrow>
   int list \<Rightarrow> 'a \<times> pyfloat" where
  "search better f b0 ns = foldl (\<lambda>b n. keep_best better b (f n)) b0 ns"

text \<open>A strict preference: irreflexive and transitive.\<close>

definition strict_pref :: "(pyfloat \<Rightarrow> pyfloat \<Rightarrow> bool) \<Rightarrow> bool" where
  "strict_pref better =
     ((\<forall>s. \<not> better s s) \<and> (\<forall>s s' b. better s b \<longrightarrow> \<not> better s' b \<longrightarrow> \<not> better s' s))"

text \<open>The pair a successful BIC or DIC candidate puts into \<^verbatim>\<open>best_model\<close>.\<close>

definition found :: "py_error + ('m \<times> pyfloat) \<Rightarrow> py_error + ('m option \<times> pyfloat)" where
  "found r = (case r of Inl e \<Rightarrow> Inl e | Inr c \<Rightarrow> Inr (Some (fst c), snd c))"

text \<open>
  The outcome of the cross-validated candidate for \<open>n\<close> states, evaluated on the
  instance as constructed, with \<^verbatim>\<open>hmm_model\<close> still unbound.
\<close>

definition cv_cand ::
  "('x, 's, 'p) externals \<Rightarrow> ('x, 's) selector \<Rightarrow> int \<Rightarrow> py_error + ('p hmm option \<times> pyfloat)" where
  "cv_cand ext self n = fst (SelectorCV_body ext n (self, None))"

text \<open>Two instances that differ at most in \<^verbatim>\<open>X\<close> and \<^verbatim>\<open>lengths\<close>.\<close>

definition same_rest :: "('x, 's) selector \<Rightarrow> ('x, 's) selector \<Rightarrow> bool" where
  "same_rest s1 s0 = (s1\<lparr>X := X s0, lengths := lengths s0\<rparr> = s0)"

text \<open>
  What holds of every state the cross-validated loop reaches from the instance
  \<open>self\<close>: only \<^verbatim>\<open>X\<close> and \<^verbatim>\<open>lengths\<close> may have changed, not even they on the
  path without folds, and \<^verbatim>\<open>hmm_model\<close> is still unbound when the splitter yields
  no fold at all.
\<close>

definition cv_reach ::
  "('x, 's, 'p) externals \<Rightarrow> ('x, 's) selector \<Rightarrow> ('x, 's, 'p) cv_state \<Rightarrow> bool" where
  "cv_reach ext self st =
     (same_rest (fst st) self \<and>
      (if length (sequences self) > 2
       then (kf_split ext (sequences self) \<noteq> Some [] \<or> snd st = None)
       else fst st = self))"

section \<open>A small corpus and table-driven collaborators\<close>

text \<open>
  Concrete inputs for the closed theorems below. Observations are natural numbers, a
  sequence is a list of them. The fitter succeeds exactly at the state counts the
  table \<open>tab\<close> gives a score for, and a fitted model scores \<open>tab n\<close> on any data;
  the splitter leaves one of three sequences out in turn; the concatenation is the one
  of \<^verbatim>\<open>asl_utils\<close>.
\<close>

definition demo_externals :: "(int \<Rightarrow> pyfloat option) \<Rightarrow> (nat list, nat list, unit) externals" where
  "demo_externals tab =
     \<lparr>hmm_fit = (\<lambda>n seed x l. if tab n = None then None else Some ()),
      hmm_score = (\<lambda>m x l. tab (n_components m)),
      hmm_n_features = (\<lambda>p. 2),
      kf_split = (\<lambda>seqs. if length seqs = 3
                          then Some [([1, 2], [0]), ([0, 2], [1]), ([0, 1], [2])] else None),
      combine_sequences = (\<lambda>idx seqs.
         if list_all (\<lambda>i. i < length seqs) idx
         then Some (concat (map (\<lambda>i. seqs ! i) idx), map (\<lambda>i. int (length (seqs ! i))) idx)
         else None)\<rparr>"

definition demo_sequences :: "(string \<times> nat list list) list" where
  "demo_sequences = [(''BOOK'', [[1, 2], [3], [4, 5, 6]]), (''CHAIR'', [[7], [8, 9]])]"

definition demo_Xlengths :: "(string \<times> (nat list \<times> int list)) list" where
  "demo_Xlengths = [(''BOOK'', ([1, 2, 3, 4, 5, 6], [2, 1, 3])), (''CHAIR'', ([7, 8, 9], [1, 2]))]"

text \<open>The instance for BOOK (three sequences) and for CHAIR (two), as \<^verbatim>\<open>__init__\<close> builds them.\<close>

definition book_selector :: "int \<Rightarrow> int \<Rightarrow> int \<Rightarrow> (nat list, nat list) selector" where
  "book_selector nc lo hi =
     \<lparr>words = demo_sequences, hwords = demo_Xlengths, sequences = [[1, 2], [3], [4, 5, 6]],
      X = [1, 2, 3, 4, 5, 6], lengths = [2, 1, 3], this_word = ''BOOK'', n_constant = nc,
      min_n_components = lo, max_n_components = hi, random_state = 14, verbose = False\<rparr>"

definition chair_selector :: "int \<Rightarrow> int \<Rightarrow> int \<Rightarrow> (nat list, nat list) selector" where
  "chair_selector nc lo hi =
     \<lparr>words = demo_sequences, hwords = demo_Xlengths, sequences = [[7], [8, 9]],
      X = [7, 8, 9], lengths = [1, 2], this_word = ''CHAIR'', n_constant = nc,
      min_n_components = lo, max_n_components = hi, random_state = 14, verbose = False\<rparr>"

text \<open>A corpus with BOOK as its only word.\<close>

definition lone_selector :: "int \<Rightarrow> int \<Rightarrow> int \<Rightarrow> (nat list, nat list) selector" where
  "lone_selector nc lo hi =
     \<lparr>words = [(''BOOK'', [[1, 2], [3], [4, 5, 6]])],
      hwords = [(''BOOK'', ([1, 2, 3, 4, 5, 6], [2, 1, 3]))],
      sequences = [[1, 2], [3], [4, 5, 6]],
      X = [1, 2, 3, 4, 5, 6], lengths = [2, 1, 3], this_word = ''BOOK'', n_constant = nc,
      min_n_components = lo, max_n_components = hi, random_state = 14, verbose = False\<rparr>"

text \<open>Score tables: every state count from 1 on scores \<open>-10\<close>; only \<open>k\<close> trains; nothing trains.\<close>

definition flat_scores :: "int \<Rightarrow> pyfloat option" where
  "flat_scores n = (if 1 \<le> n then Some (Fin (- 10)) else None)"

definition only_at :: "int \<Rightarrow> int \<Rightarrow> pyfloat option" where
  "only_at k n = (if n = k then Some (Fin (- 10)) else None)"

definition no_scores :: "int \<Rightarrow> pyfloat option" where
  "no_scores n = None"

text \<open>Exactly the state counts of the list \<open>ks\<close> train.\<close>

definition scores_at :: "int list \<Rightarrow> int \<Rightarrow> pyfloat option" where
  "scores_at ks n = (if n \<in> set ks then Some (Fin (- 10)) else None)"

text \<open>
  Two and three states train; on three segments (so that \<open>logN = ln 3\<close>) and two
  features their BIC scores agree: \<open>20 + 11 * ln 3\<close>.
\<close>

definition bic_tie_scores :: "int \<Rightarrow> pyfloat option" where
  "bic_tie_scores n =
     (if n = 2 then Some (Fin (- 10))
      else if n = 3 then Some (Fin (9 / 2 * ln 3 - 10))
      else None)"

text \<open>Two states score \<open>-10\<close>, three states \<open>-8\<close>, nothing else trains.\<close>

definition rising_scores :: "int \<Rightarrow> pyfloat option" where
  "rising_scores n =
     (if n = 2 then Some (Fin (- 10)) else if n = 3 then Some (Fin (- 8)) else None)"

text \<open>
  Collaborators whose score grows with the data: the table's value times the number
  of observations scored.
\<close>

definition sized_externals :: "(int \<Rightarrow> pyfloat option) \<Rightarrow> (nat list, nat list, unit) externals" where
  "sized_externals tab =
     (demo_externals tab)
       \<lparr>hmm_score := (\<lambda>m x l. case tab (n_components m) of
                                  None \<Rightarrow> None
                                | Some v \<Rightarrow> Some (fmul v (Fin (real (length x)))))\<rparr>"

text \<open>
  Collaborators that keep the data: what the fitter learns is the very \<open>X\<close> and
  \<open>lengths\<close> it was given, and the score is the table's value times the number
  of observations scored.
\<close>

definition recording_externals ::
  "(int \<Rightarrow> pyfloat option) \<Rightarrow> (nat list, nat list, nat list \<times> int list) externals" where
  "recording_externals tab =
     \<lparr>hmm_fit = (\<lambda>n seed x l. if tab n = None then None else Some (x, l)),
      hmm_score = (\<lambda>m x l. case tab (n_components m) of
                                None \<Rightarrow> None
                              | Some v \<Rightarrow> Some (fmul v (Fin (real (length x))))),
      hmm_n_features = (\<lambda>p. 2),
      kf_split = (\<lambda>seqs. if length seqs = 3
                          then Some [([1, 2], [0]), ([0, 2], [1]), ([0, 1], [2])] else None),
      combine_sequences = (\<lambda>idx seqs.
         if list_all (\<lambda>i. i < length seqs) idx
         then Some (concat (map (\<lambda>i. seqs ! i) idx), map (\<lambda>i. int (length (seqs ! i))) idx)
         else None)\<rparr>"

text \<open>The model with \<open>n\<close> states that the table-driven fitter returns.\<close>

definition demo_model :: "int \<Rightarrow> unit hmm" where
  "demo_model n = \<lparr>n_components = n, fitted = ()\<rparr>"

section \<open>Properties of the search loop\<close>

subsection \<open>The running best\<close>

lemma search_Nil [simp]: "search better f b0 [] = b0"
  by (simp add: search_def)

lemma search_Cons [simp]: "search better f b0 (n # ns) = search better f (keep_best better b0 (f n)) ns"
  by (simp add: search_def)

lemma search_append: "search better f b0 (xs @ ys) = search better f (search better f b0 xs) ys"
  by (simp add: search_def)

lemma search_member:
  "search better f b0 ns = b0 \<or> (\<exists>n\<in>set ns. f n = Inr (search better f b0 ns))"
proof (induction ns arbitrary: b0)
  case Nil
  show ?case by simp
next
  case (Cons n ns)
  from Cons.IH [of "keep_best better b0 (f n)"] show ?case
    by (auto simp: keep_best_def split: sum.splits if_splits)
qed

lemma search_all_fail:
  "\<forall>n\<in>set ns. isl (f n) \<Longrightarrow> search better f b0 ns = b0"
  by (induction ns arbitrary: b0) (auto simp: keep_best_def isl_def)

lemma search_filter:
  "search better f b0 ns = search better f b0 (filter (\<lambda>n. \<not> isl (f n)) ns)"
  by (induction ns arbitrary: b0) (auto simp: keep_best_def isl_def)

lemma search_keeps:
  "\<forall>y\<in>set ys. \<forall>c'. f y = Inr c' \<longrightarrow> \<not> better (snd c') (snd b) \<Longrightarrow> search better f b ys = b"
  by (induction ys) (auto simp: keep_best_def split: sum.splits)

lemma search_beaten:
  "better s (snd b0) \<Longrightarrow> \<forall>x\<in>set xs. \<forall>c'. f x = Inr c' \<longrightarrow> better s (snd c') \<Longrightarrow>
   better s (snd (search better f b0 xs))"
proof -
  assume a: "better s (snd b0)" and b: "\<forall>x\<in>set xs. \<forall>c'. f x = Inr c' \<longrightarrow> better s (snd c')"
  from search_member [of better f b0 xs] show ?thesis
  proof
    assume "search better f b0 xs = b0" with a show ?thesis by simp
  next
    assume "\<exists>n\<in>set xs. f n = Inr (search better f b0 xs)"
    then obtain n where "n \<in> set xs" "f n = Inr (search better f b0 xs)" by blast
    with b show ?thesis by blast
  qed
qed

lemma search_selected:
  assumes "f n = Inr c" and "better (snd c) (snd b0)"
    and "\<forall>x\<in>set xs. \<forall>c'. f x = Inr c' \<longrightarrow> better (snd c) (snd c')"
    and "\<forall>y\<in>set ys. \<forall>c'. f y = Inr c' \<longrightarrow> \<not> better (snd c') (snd c)"
  shows "search better f b0 (xs @ n # ys) = c"
proof -
  have "better (snd c) (snd (search better f b0 xs))"
    using assms(2,3) by (rule search_beaten)
  then have "search better f b0 (xs @ [n]) = c"
    using assms(1) by (simp add: search_append keep_best_def)
  then have "search better f b0 (xs @ n # ys) = search better f c ys"
    using search_append [of better f b0 "xs @ [n]" ys] by simp
  moreover have "search better f c ys = c"
    using assms(4) by (rule search_keeps)
  ultimately show ?thesis by simp
qed

lemma strict_pref_lower: "strict_pref (\<lambda>s b. fgt b s)"
  unfolding strict_pref_def
proof (intro conjI allI impI)
  fix s show "\<not> fgt s s" by (cases s) auto
next
  fix s s' b assume "fgt b s" "\<not> fgt b s'" then show "\<not> fgt s s'"
    by (cases b; cases s; cases s') auto
qed

lemma strict_pref_higher: "strict_pref (\<lambda>s b. fgt s b)"
  unfolding strict_pref_def
proof (intro conjI allI impI)
  fix s show "\<not> fgt s s" by (cases s) auto
next
  fix s s' b assume "fgt s b" "\<not> fgt s' b" then show "\<not> fgt s' s"
    by (cases b; cases s; cases s') auto
qed

lemma strict_prefD1: "strict_pref better \<Longrightarrow> \<not> better s s"
  by (simp add: strict_pref_def)

lemma strict_prefD2: "strict_pref better \<Longrightarrow> better s b \<Longrightarrow> \<not> better s' b \<Longrightarrow> \<not> better s' s"
  unfolding strict_pref_def by blast

lemma keep_best_mono:
  assumes "strict_pref better" "\<not> better s (snd b)"
  shows "\<not> better s (snd (keep_best better b r))"
proof (cases r)
  case (Inl e)
  then show ?thesis using assms(2) by (simp add: keep_best_def)
next
  case (Inr c)
  show ?thesis
  proof (cases "better (snd c) (snd b)")
    case True
    have "\<not> better s (snd c)" using strict_prefD2 [OF assms(1) True assms(2)] .
    then show ?thesis using Inr True by (simp add: keep_best_def)
  next
    case False
    then show ?thesis using Inr assms(2) by (simp add: keep_best_def)
  qed
qed

lemma keep_best_self:
  assumes "strict_pref better"
  shows "\<not> better (snd c) (snd (keep_best better b (Inr c)))"
  using strict_prefD1 [OF assms] by (simp add: keep_best_def)

lemma search_mono:
  assumes "strict_pref better"
  shows "\<not> better s (snd b0) \<Longrightarrow> \<not> better s (snd (search better f b0 ns))"
proof (induction ns arbitrary: b0)
  case Nil
  then show ?case by simp
next
  case (Cons n ns)
  have "\<not> better s (snd (keep_best better b0 (f n)))"
    using assms Cons.prems by (rule keep_best_mono)
  then show ?case using Cons.IH by simp
qed

lemma search_optimal:
  assumes "strict_pref better"
  shows "n \<in> set ns \<Longrightarrow> f n = Inr c \<Longrightarrow> \<not> better (snd c) (snd (search better f b0 ns))"
proof (induction ns arbitrary: b0)
  case Nil
  then show ?case by simp
next
  case (Cons a ns)
  show ?case
  proof (cases "n = a")
    case True
    have "\<not> better (snd c) (snd (keep_best better b0 (f a)))"
      using keep_best_self [OF assms] Cons.prems(2) True by simp
    then have "\<not> better (snd c) (snd (search better f (keep_best better b0 (f a)) ns))"
      by (rule search_mono [OF assms])
    then show ?thesis by simp
  next
    case False
    then have "n \<in> set ns" using Cons.prems(1) by simp
    then show ?thesis using Cons.IH Cons.prems(2) by simp
  qed
qed

subsection \<open>The cross-validated loop as a search\<close>

lemma same_rest_refl: "same_rest s s"
  by (simp add: same_rest_def)

lemma cv_reach_init: "cv_reach ext self (self, None)"
  by (simp add: cv_reach_def same_rest_refl)

lemma rebind_same:
  assumes "same_rest s1 s0"
  shows "s1\<lparr>X := x, lengths := l\<rparr> = s0\<lparr>X := x, lengths := l\<rparr>"
proof -
  have e: "s1\<lparr>X := X s0, lengths := lengths s0\<rparr> = s0"
    using assms by (simp only: same_rest_def)
  have "s1\<lparr>X := x, lengths := l\<rparr> = (s1\<lparr>X := X s0, lengths := lengths s0\<rparr>)\<lparr>X := x, lengths := l\<rparr>"
    by simp
  also have "\<dots> = s0\<lparr>X := x, lengths := l\<rparr>"
    by (simp only: e)
  finally show ?thesis .
qed

lemma same_rest_sequences:
  assumes "same_rest s1 s0"
  shows "sequences s1 = sequences s0"
proof -
  have e: "s1\<lparr>X := X s0, lengths := lengths s0\<rparr> = s0"
    using assms by (simp only: same_rest_def)
  have "sequences s1 = sequences (s1\<lparr>X := X s0, lengths := lengths s0\<rparr>)" by simp
  also have "\<dots> = sequences s0"
    by (simp only: e)
  finally show ?thesis .
qed

lemma same_rest_rebind: "same_rest s1 s0 \<Longrightarrow> same_rest (s1\<lparr>X := x, lengths := l\<rparr>) s0"
  by (simp add: same_rest_def)

lemma SelectorCV_fold_frame:
  assumes "same_rest (fst st) self"
  shows "same_rest (fst (snd (SelectorCV_fold ext n f st))) self"
  using assms same_rest_rebind [OF assms]
  by (simp add: SelectorCV_fold_def Let_def split: option.splits prod.splits)

lemma SelectorCV_fold_indep:
  assumes "same_rest (fst st) self"
  shows "fst (SelectorCV_fold ext n f st) = fst (SelectorCV_fold ext n f (self, hv0))"
    and "\<not> isl (fst (SelectorCV_fold ext n f st)) \<Longrightarrow>
         snd (SelectorCV_fold ext n f st) = snd (SelectorCV_fold ext n f (self, hv0))"
  using rebind_same [OF assms] same_rest_sequences [OF assms]
  by (simp_all add: SelectorCV_fold_def Let_def split: option.splits prod.splits)

lemma SelectorCV_folds_frame:
  "same_rest (fst st) self \<Longrightarrow> same_rest (fst (fst (snd (SelectorCV_folds ext n fs st sc)))) self"
proof (induction fs arbitrary: st sc)
  case Nil
  then show ?case by simp
next
  case (Cons f fs)
  obtain r st1 where r: "SelectorCV_fold ext n f st = (r, st1)" by (cases "SelectorCV_fold ext n f st")
  have st1: "same_rest (fst st1) self"
    using SelectorCV_fold_frame [OF Cons.prems, of ext n f] r by simp
  show ?case
  proof (cases r)
    case (Inl e)
    then show ?thesis using r st1 by simp
  next
    case (Inr v)
    then show ?thesis using r Cons.IH [OF st1] by simp
  qed
qed

lemma SelectorCV_folds_indep:
  assumes "same_rest (fst st) self" and "fs \<noteq> []"
  shows "fst (SelectorCV_folds ext n fs st sc) = fst (SelectorCV_folds ext n fs (self, hv0) sc)"
    and "snd (snd (SelectorCV_folds ext n fs st sc)) = snd (snd (SelectorCV_folds ext n fs (self, hv0) sc))"
    and "fst (SelectorCV_folds ext n fs st sc) = None \<Longrightarrow>
         fst (snd (SelectorCV_folds ext n fs st sc)) = fst (snd (SelectorCV_folds ext n fs (self, hv0) sc))"
proof -
  obtain f rest where fs: "fs = f # rest" using assms(2) by (cases fs) auto
  obtain r st1 where r: "SelectorCV_fold ext n f st = (r, st1)" by (cases "SelectorCV_fold ext n f st")
  obtain r0 st0 where r0: "SelectorCV_fold ext n f (self, hv0) = (r0, st0)"
    by (cases "SelectorCV_fold ext n f (self, hv0)")
  have eq: "r = r0" using SelectorCV_fold_indep(1) [OF assms(1), of ext n f hv0] r r0 by simp
  have st: "\<not> isl r \<Longrightarrow> st1 = st0"
    using SelectorCV_fold_indep(2) [OF assms(1), of ext n f hv0] r r0 by simp
  have both: "SelectorCV_folds ext n fs st sc = SelectorCV_folds ext n fs (self, hv0) sc \<or>
    (\<exists>e. SelectorCV_folds ext n fs st sc = (Some e, st1, sc) \<and>
         SelectorCV_folds ext n fs (self, hv0) sc = (Some e, st0, sc))"
  proof (cases r)
    case (Inl e)
    then show ?thesis using fs r r0 eq by simp
  next
    case (Inr v)
    then have "st1 = st0" using st by simp
    then show ?thesis using fs r r0 eq Inr by simp
  qed
  show "fst (SelectorCV_folds ext n fs st sc) = fst (SelectorCV_folds ext n fs (self, hv0) sc)"
    using both by auto
  show "snd (snd (SelectorCV_folds ext n fs st sc)) = snd (snd (SelectorCV_folds ext n fs (self, hv0) sc))"
    using both by auto
  show "fst (SelectorCV_folds ext n fs st sc) = None \<Longrightarrow>
         fst (snd (SelectorCV_folds ext n fs st sc)) = fst (snd (SelectorCV_folds ext n fs (self, hv0) sc))"
    using both by auto
qed


lemma SelectorCV_body_reach:
  assumes r: "cv_reach ext self st"
  shows "fst (SelectorCV_body ext n st) = cv_cand ext self n"
    and "cv_reach ext self (snd (SelectorCV_body ext n st))"
proof -
  have sr: "same_rest (fst st) self" using r by (simp add: cv_reach_def)
  have sq: "sequences (fst st) = sequences self" using sr by (rule same_rest_sequences)
  have both: "fst (SelectorCV_body ext n st) = cv_cand ext self n \<and>
              cv_reach ext self (snd (SelectorCV_body ext n st))"
  proof (cases "length (sequences self) > 2")
    case False
    then have st: "fst st = self" using r by (simp add: cv_reach_def)
    have "fst (SelectorCV_body ext n st) = cv_cand ext self n"
      using False st by (simp add: SelectorCV_body_def cv_cand_def Let_def split: option.splits)
    moreover have "cv_reach ext self (snd (SelectorCV_body ext n st))"
      using False st
      by (simp add: SelectorCV_body_def cv_reach_def same_rest_refl Let_def split: option.splits)
    ultimately show ?thesis by simp
  next
    case True
    show ?thesis
    proof (cases "kf_split ext (sequences self)")
      case None
      then show ?thesis using True sq r
        by (simp add: SelectorCV_body_def cv_cand_def cv_reach_def Let_def)
    next
      case (Some fs)
      show ?thesis
      proof (cases "fs = []")
        case True
        then have "snd st = None" using r \<open>2 < length (sequences self)\<close> Some
          by (simp add: cv_reach_def)
        then show ?thesis using True Some \<open>2 < length (sequences self)\<close> sq r
          by (simp add: SelectorCV_body_def cv_cand_def Let_def)
      next
        case False
        obtain e st1 sc1 where run: "SelectorCV_folds ext n fs st [] = (e, st1, sc1)"
          by (cases "SelectorCV_folds ext n fs st []") auto
        obtain e0 st0 sc0 where run0: "SelectorCV_folds ext n fs (self, None) [] = (e0, st0, sc0)"
          by (cases "SelectorCV_folds ext n fs (self, None) []") auto
        have e: "e = e0" and sc: "sc1 = sc0" and stq: "e = None \<Longrightarrow> st1 = st0"
          using SelectorCV_folds_indep [OF sr False, of ext n "[]" None] run run0 by simp_all
        have fr: "same_rest (fst st1) self"
          using SelectorCV_folds_frame [OF sr, of ext n fs "[]"] run by simp
        have res: "fst (SelectorCV_body ext n st) = cv_cand ext self n"
        proof (cases e)
          case None
          then show ?thesis using run run0 e sc stq True Some sq
            by (simp add: SelectorCV_body_def cv_cand_def Let_def split: option.splits)
        next
          case (Some err)
          then show ?thesis using run run0 e sc True \<open>kf_split ext (sequences self) = Some fs\<close> sq
            by (simp add: SelectorCV_body_def cv_cand_def Let_def)
        qed
        have "fst (snd (SelectorCV_body ext n st)) = fst st1"
          using run True Some sq
          by (simp add: SelectorCV_body_def Let_def split: option.splits)
        then have "cv_reach ext self (snd (SelectorCV_body ext n st))"
          using fr True Some False by (simp add: cv_reach_def)
        then show ?thesis using res by simp
      qed
    qed
  qed
  show "fst (SelectorCV_body ext n st) = cv_cand ext self n" using both by simp
  show "cv_reach ext self (snd (SelectorCV_body ext n st))" using both by simp
qed

lemma SelectorCV_loop_search:
  assumes "cv_reach ext self st"
  shows "fst (foldl (SelectorCV_step ext) (b, st) ns) = search fgt (cv_cand ext self) b ns
         \<and> cv_reach ext self (snd (foldl (SelectorCV_step ext) (b, st) ns))"
  using assms
proof (induction ns arbitrary: b st)
  case Nil
  then show ?case by simp
next
  case (Cons n ns)
  obtain r st1 where body: "SelectorCV_body ext n st = (r, st1)"
    by (cases "SelectorCV_body ext n st")
  have r: "r = cv_cand ext self n" and st1: "cv_reach ext self st1"
    using SelectorCV_body_reach [OF Cons.prems, of n] body by simp_all
  have step: "SelectorCV_step ext (b, st) n = (keep_best fgt b (cv_cand ext self n), st1)"
    using body r by (simp add: SelectorCV_step_def keep_best_def py_max_key_def split: sum.splits)
  show ?case using Cons.IH [OF st1] step by simp
qed

lemma SelectorCV_select_proj:
  "SelectorCV_select ext self =
     (let r = foldl (SelectorCV_step ext) ((None, NegInf), (self, None))
                (py_range (min_n_components self) (max_n_components self + 1))
      in (fst (fst r), fst (snd r)))"
  by (simp add: SelectorCV_select_def Let_def split: prod.splits)

lemma SelectorCV_select_search:
  "fst (SelectorCV_select ext self) =
     fst (search fgt (cv_cand ext self) (None, NegInf)
            (py_range (min_n_components self) (max_n_components self + 1)))"
proof -
  have "cv_reach ext self (self, None)" by (rule cv_reach_init)
  from SelectorCV_loop_search [OF this]
  have "fst (foldl (SelectorCV_step ext) ((None, NegInf), (self, None))
              (py_range (min_n_components self) (max_n_components self + 1))) =
        search fgt (cv_cand ext self) (None, NegInf)
              (py_range (min_n_components self) (max_n_components self + 1))"
    by blast
  then show ?thesis
    by (simp add: SelectorCV_select_proj Let_def)
qed

lemma SelectorBIC_select_search:
  "SelectorBIC_select ext self =
     fst (search (\<lambda>s b. fgt b s) (\<lambda>n. found (SelectorBIC_body ext self n)) (None, PosInf)
            (py_range (min_n_components self) (max_n_components self)))"
proof -
  have "SelectorBIC_step ext self = (\<lambda>b n. keep_best (\<lambda>s b. fgt b s) b (found (SelectorBIC_body ext self n)))"
    by (intro ext) (simp add: SelectorBIC_step_def keep_best_def found_def split: sum.splits prod.splits)
  then show ?thesis by (simp add: SelectorBIC_select_def search_def)
qed

lemma SelectorDIC_select_search:
  "SelectorDIC_select ext self =
     fst (search fgt (\<lambda>n. found (SelectorDIC_body ext self n)) (None, NegInf)
            (py_range (min_n_components self) (max_n_components self)))"
proof -
  have "SelectorDIC_step ext self = (\<lambda>b n. keep_best fgt b (found (SelectorDIC_body ext self n)))"
    by (intro ext) (simp add: SelectorDIC_step_def keep_best_def found_def flt_def split: sum.splits prod.splits)
  then show ?thesis by (simp add: SelectorDIC_select_def search_def)
qed

subsection \<open>Ranges, fitted models and candidates\<close>

lemma set_py_range: "set (py_range a b) = {a..<b}"
  by (auto simp: py_range_def)

lemma py_range_split:
  assumes "n \<in> set (py_range a b)"
  shows "py_range a b = py_range a n @ n # py_range (n + 1) b"
proof -
  have "a \<le> n" "n \<le> b - 1" using assms by (auto simp: py_range_def)
  then have "[a..b - 1] = [a..n - 1] @ n # [n + 1..b - 1]" by (rule upto_split3)
  then show ?thesis by (simp add: py_range_def)
qed

lemma py_range_before: "x \<in> set (py_range a n) \<Longrightarrow> x < n"
  by (auto simp: py_range_def)

lemma py_range_after: "x \<in> set (py_range (n + 1) b) \<Longrightarrow> n < x"
  by (auto simp: py_range_def)

lemma py_range_sub1: "x \<in> set (py_range a n) \<Longrightarrow> n \<in> set (py_range a b) \<Longrightarrow> x \<in> set (py_range a b)"
  by (auto simp: py_range_def)

lemma py_range_sub2: "x \<in> set (py_range (n + 1) b) \<Longrightarrow> n \<in> set (py_range a b) \<Longrightarrow> x \<in> set (py_range a b)"
  by (auto simp: py_range_def)

lemma base_model_Some:
  "base_model ext self n = Some m \<Longrightarrow>
   n_components m = n \<and> hmm_fit ext n (random_state self) (X self) (lengths self) = Some (fitted m)"
  by (auto simp: base_model_def split: option.splits)

lemma SelectorBIC_body_Inr:
  "SelectorBIC_body ext self n = Inr (m, s) \<Longrightarrow> base_model ext self n = Some m"
  by (auto simp: SelectorBIC_body_def Let_def split: option.splits)

lemma SelectorDIC_body_Inr:
  "SelectorDIC_body ext self n = Inr (m, s) \<Longrightarrow> base_model ext self n = Some m"
  by (auto simp: SelectorDIC_body_def Let_def split: option.splits sum.splits if_splits)

lemma found_Inr: "found r = Inr (mo, s) \<Longrightarrow> \<exists>m. mo = Some m \<and> r = Inr (m, s)"
  by (auto simp: found_def split: sum.splits)

lemma found_simps: "found (Inl e) = Inl e" "found (Inr (m, s)) = Inr (Some m, s)"
  by (simp_all add: found_def)

lemma isl_found: "isl (found r) = isl r"
  by (cases r) (simp_all add: found_def)



lemma SelectorBIC_body_unfit:
  "base_model ext self n = None \<Longrightarrow> SelectorBIC_body ext self n = Inl AttributeError"
  by (simp add: SelectorBIC_body_def)

lemma SelectorDIC_body_unfit:
  "base_model ext self n = None \<Longrightarrow> SelectorDIC_body ext self n = Inl AttributeError"
  by (simp add: SelectorDIC_body_def)

lemma SelectorCV_fold_unfit:
  assumes "\<forall>x l. hmm_fit ext n (random_state (fst st)) x l = None"
  shows "isl (fst (SelectorCV_fold ext n f st))"
  using assms by (simp add: SelectorCV_fold_def base_model_def Let_def split: option.splits prod.splits)

lemma cv_cand_unfit:
  assumes "\<forall>x l. hmm_fit ext n (random_state self) x l = None"
  shows "isl (cv_cand ext self n)"
proof (cases "length (sequences self) > 2")
  case False
  then show ?thesis using assms
    by (simp add: cv_cand_def SelectorCV_body_def base_model_def Let_def)
next
  case True
  show ?thesis
  proof (cases "kf_split ext (sequences self)")
    case None
    then show ?thesis using True by (simp add: cv_cand_def SelectorCV_body_def Let_def)
  next
    case (Some fs)
    show ?thesis
    proof (cases fs)
      case Nil
      then show ?thesis using True Some by (simp add: cv_cand_def SelectorCV_body_def Let_def)
    next
      case (Cons f rest)
      obtain r st1 where r: "SelectorCV_fold ext n f (self, None) = (r, st1)"
        by (cases "SelectorCV_fold ext n f (self, None)")
      have "isl r" using SelectorCV_fold_unfit [of ext n "(self, None)" f] assms r by simp
      then obtain e where "r = Inl e" by (cases r) auto
      then show ?thesis using True Some Cons r
        by (simp add: cv_cand_def SelectorCV_body_def Let_def)
    qed
  qed
qed




lemma SelectorBIC_select_member:
  assumes "SelectorBIC_select ext self = Some m"
  shows "\<exists>n\<in>set (py_range (min_n_components self) (max_n_components self)).
           \<exists>s. SelectorBIC_body ext self n = Inr (m, s) \<and>
               search (\<lambda>s b. fgt b s) (\<lambda>n. found (SelectorBIC_body ext self n)) (None, PosInf)
                 (py_range (min_n_components self) (max_n_components self)) = (Some m, s)"
proof -
  let ?f = "\<lambda>n. found (SelectorBIC_body ext self n)"
  let ?ns = "py_range (min_n_components self) (max_n_components self)"
  let ?r = "search (\<lambda>s b. fgt b s) ?f (None, PosInf) ?ns"
  have r: "fst ?r = Some m" using assms by (simp add: SelectorBIC_select_search)
  then have "?r \<noteq> (None, PosInf)" by auto
  then obtain n where n: "n \<in> set ?ns" "?f n = Inr ?r"
    using search_member [of "\<lambda>s b. fgt b s" ?f "(None, PosInf)" ?ns] by auto
  obtain mo s where ms: "?r = (mo, s)" by (cases ?r)
  then have "mo = Some m" using r by simp
  then have "SelectorBIC_body ext self n = Inr (m, s)"
    using n(2) ms found_Inr [of "SelectorBIC_body ext self n" mo s] by auto
  then show ?thesis using n(1) ms \<open>mo = Some m\<close> by auto
qed

lemma SelectorDIC_select_member:
  assumes "SelectorDIC_select ext self = Some m"
  shows "\<exists>n\<in>set (py_range (min_n_components self) (max_n_components self)).
           \<exists>s. SelectorDIC_body ext self n = Inr (m, s) \<and>
               search fgt (\<lambda>n. found (SelectorDIC_body ext self n)) (None, NegInf)
                 (py_range (min_n_components self) (max_n_components self)) = (Some m, s)"
proof -
  let ?f = "\<lambda>n. found (SelectorDIC_body ext self n)"
  let ?ns = "py_range (min_n_components self) (max_n_components self)"
  let ?r = "search fgt ?f (None, NegInf) ?ns"
  have r: "fst ?r = Some m" using assms by (simp add: SelectorDIC_select_search)
  then have "?r \<noteq> (None, NegInf)" by auto
  then obtain n where n: "n \<in> set ?ns" "?f n = Inr ?r"
    using search_member [of fgt ?f "(None, NegInf)" ?ns] by auto
  obtain mo s where ms: "?r = (mo, s)" by (cases ?r)
  then have "mo = Some m" using r by simp
  then have "SelectorDIC_body ext self n = Inr (m, s)"
    using n(2) ms found_Inr [of "SelectorDIC_body ext self n" mo s] by auto
  then show ?thesis using n(1) ms \<open>mo = Some m\<close> by auto
qed

lemma SelectorCV_select_member:
  assumes "fst (SelectorCV_select ext self) = Some m"
  shows "\<exists>n\<in>set (py_range (min_n_components self) (max_n_components self + 1)).
           \<exists>s. cv_cand ext self n = Inr (Some m, s) \<and>
               search fgt (cv_cand ext self) (None, NegInf)
                 (py_range (min_n_components self) (max_n_components self + 1)) = (Some m, s)"
proof -
  let ?f = "cv_cand ext self"
  let ?ns = "py_range (min_n_components self) (max_n_components self + 1)"
  let ?r = "search fgt ?f (None, NegInf) ?ns"
  have r: "fst ?r = Some m" using assms by (simp add: SelectorCV_select_search)
  then have "?r \<noteq> (None, NegInf)" by auto
  then obtain n where n: "n \<in> set ?ns" "?f n = Inr ?r"
    using search_member [of fgt ?f "(None, NegInf)" ?ns] by auto
  obtain mo s where ms: "?r = (mo, s)" by (cases ?r)
  then have "mo = Some m" using r by simp
  then show ?thesis using n ms by auto
qed

lemma SelectorCV_fold_model:
  assumes "same_rest (fst st) self"
    and "SelectorCV_fold ext n f st = (Inr v, st1)"
  shows "\<exists>m. snd st1 = Some (Some m) \<and> n_components m = n \<and>
             (\<exists>x l. hmm_fit ext n (random_state self) x l = Some (fitted m))"
proof -
  have rs: "random_state (fst st) = random_state self"
  proof -
    have e: "(fst st)\<lparr>X := X self, lengths := lengths self\<rparr> = self"
      using assms(1) by (simp only: same_rest_def)
    have "random_state (fst st) = random_state ((fst st)\<lparr>X := X self, lengths := lengths self\<rparr>)"
      by simp
    also have "\<dots> = random_state self" by (simp only: e)
    finally show ?thesis .
  qed
  show ?thesis using assms(2) rs
    by (auto simp: SelectorCV_fold_def base_model_def Let_def split: option.splits prod.splits) blast
qed

lemma SelectorCV_folds_model:
  assumes "same_rest (fst st) self"
    and "SelectorCV_folds ext n fs st sc = (None, st1, sc1)"
    and "fs \<noteq> []"
  shows "\<exists>m. snd st1 = Some (Some m) \<and> n_components m = n \<and>
             (\<exists>x l. hmm_fit ext n (random_state self) x l = Some (fitted m))"
  using assms
proof (induction fs arbitrary: st sc)
  case Nil
  then show ?case by simp
next
  case (Cons f fs)
  obtain r st2 where r: "SelectorCV_fold ext n f st = (r, st2)" by (cases "SelectorCV_fold ext n f st")
  have fr: "same_rest (fst st2) self"
    using SelectorCV_fold_frame [OF Cons.prems(1), of ext n f] r by simp
  show ?case
  proof (cases r)
    case (Inl e)
    then show ?thesis using Cons.prems(2) r by simp
  next
    case (Inr v)
    have run: "SelectorCV_folds ext n fs st2 (sc @ [v]) = (None, st1, sc1)"
      using Cons.prems(2) r Inr by simp
    show ?thesis
    proof (cases "fs = []")
      case True
      then have "st1 = st2" using run by simp
      then show ?thesis using SelectorCV_fold_model [OF Cons.prems(1), of ext n f v st2] r Inr by simp
    next
      case False
      then show ?thesis using Cons.IH [OF fr run] by simp
    qed
  qed
qed

lemma cv_cand_model:
  assumes "cv_cand ext self n = Inr (Some m, s)"
  shows "n_components m = n \<and> (\<exists>x l. hmm_fit ext n (random_state self) x l = Some (fitted m))"
proof (cases "length (sequences self) > 2")
  case False
  then show ?thesis using assms
    by (auto simp: cv_cand_def SelectorCV_body_def base_model_def Let_def split: option.splits) blast
next
  case True
  show ?thesis
  proof (cases "kf_split ext (sequences self)")
    case None
    then show ?thesis using True assms by (simp add: cv_cand_def SelectorCV_body_def Let_def)
  next
    case (Some fs)
    obtain e st1 sc1 where run: "SelectorCV_folds ext n fs (self, None) [] = (e, st1, sc1)"
      by (cases "SelectorCV_folds ext n fs (self, None) []") auto
    show ?thesis
    proof (cases "fs = []")
      case True
      then show ?thesis using \<open>2 < length (sequences self)\<close> Some assms
        by (simp add: cv_cand_def SelectorCV_body_def Let_def)
    next
      case False
      have e: "e = None" and hv: "snd st1 = Some (Some m)"
        using \<open>2 < length (sequences self)\<close> Some assms run
        by (auto simp: cv_cand_def SelectorCV_body_def Let_def split: option.splits)
      have run': "SelectorCV_folds ext n fs (self, None) [] = (None, st1, sc1)"
        using run e by simp
      from SelectorCV_folds_model [where self = self, rotated, OF run' False] hv
      show ?thesis by (simp add: same_rest_refl)
    qed
  qed
qed

lemma SelectorBIC_select_filter:
  "SelectorBIC_select ext self =
     fst (foldl (SelectorBIC_step ext self) (None, PosInf)
           (filter (\<lambda>n. \<not> isl (SelectorBIC_body ext self n))
              (py_range (min_n_components self) (max_n_components self))))"
proof -
  have step: "SelectorBIC_step ext self = (\<lambda>b n. keep_best (\<lambda>s b. fgt b s) b (found (SelectorBIC_body ext self n)))"
    by (intro ext) (simp add: SelectorBIC_step_def keep_best_def found_def split: sum.splits prod.splits)
  have "search (\<lambda>s b. fgt b s) (\<lambda>n. found (SelectorBIC_body ext self n)) (None, PosInf)
          (py_range (min_n_components self) (max_n_components self)) =
        search (\<lambda>s b. fgt b s) (\<lambda>n. found (SelectorBIC_body ext self n)) (None, PosInf)
          (filter (\<lambda>n. \<not> isl (found (SelectorBIC_body ext self n)))
             (py_range (min_n_components self) (max_n_components self)))"
    by (rule search_filter)
  then show ?thesis
    by (simp add: SelectorBIC_select_search step search_def isl_found)
qed

lemma SelectorDIC_select_filter:
  "SelectorDIC_select ext self =
     fst (foldl (SelectorDIC_step ext self) (None, NegInf)
           (filter (\<lambda>n. \<not> isl (SelectorDIC_body ext self n))
              (py_range (min_n_components self) (max_n_components self))))"
proof -
  have step: "SelectorDIC_step ext self = (\<lambda>b n. keep_best fgt b (found (SelectorDIC_body ext self n)))"
    by (intro ext) (simp add: SelectorDIC_step_def keep_best_def found_def flt_def split: sum.splits prod.splits)
  have "search fgt (\<lambda>n. found (SelectorDIC_body ext self n)) (None, NegInf)
          (py_range (min_n_components self) (max_n_components self)) =
        search fgt (\<lambda>n. found (SelectorDIC_body ext self n)) (None, NegInf)
          (filter (\<lambda>n. \<not> isl (found (SelectorDIC_body ext self n)))
             (py_range (min_n_components self) (max_n_components self)))"
    by (rule search_filter)
  then show ?thesis
    by (simp add: SelectorDIC_select_search step search_def isl_found)
qed

lemma SelectorCV_select_filter:
  "fst (SelectorCV_select ext self) =
     fst (fst (foldl (SelectorCV_step ext) ((None, NegInf), (self, None))
           (filter (\<lambda>n. \<not> isl (fst (SelectorCV_body ext n (self, None))))
              (py_range (min_n_components self) (max_n_components self + 1)))))"
proof -
  let ?ns = "py_range (min_n_components self) (max_n_components self + 1)"
  let ?ms = "filter (\<lambda>n. \<not> isl (cv_cand ext self n)) ?ns"
  have "cv_reach ext self (self, None)" by (rule cv_reach_init)
  from SelectorCV_loop_search [OF this]
  have "fst (foldl (SelectorCV_step ext) ((None, NegInf), (self, None)) ?ms) =
        search fgt (cv_cand ext self) (None, NegInf) ?ms"
    by blast
  moreover have "search fgt (cv_cand ext self) (None, NegInf) ?ns =
        search fgt (cv_cand ext self) (None, NegInf) ?ms"
    by (rule search_filter)
  ultimately show ?thesis
    by (simp add: SelectorCV_select_search cv_cand_def)
qed

subsection \<open>Ties\<close>

lemma strict_pref_asym: "strict_pref better \<Longrightarrow> better a b \<Longrightarrow> \<not> better b a"
  using strict_prefD2 [of better a b b] strict_prefD1 [of better b] by blast

lemma search_tie_first:
  assumes sp: "strict_pref better" and c1: "f n1 = Inr c1" and b0: "better (snd c1) (snd b0)"
    and before: "\<forall>x\<in>set xs. \<forall>c. f x = Inr c \<longrightarrow> better (snd c1) (snd c)"
    and after: "\<forall>y\<in>set ys. \<forall>c. f y = Inr c \<longrightarrow> better (snd c1) (snd c) \<or> snd c = snd c1"
  shows "search better f b0 (xs @ n1 # ys) = c1"
proof -
  have "\<forall>y\<in>set ys. \<forall>c. f y = Inr c \<longrightarrow> \<not> better (snd c) (snd c1)"
  proof (intro ballI allI impI)
    fix y c assume "y \<in> set ys" "f y = Inr c"
    then have "better (snd c1) (snd c) \<or> snd c = snd c1" using after by blast
    then show "\<not> better (snd c) (snd c1)"
      using strict_pref_asym [OF sp] strict_prefD1 [OF sp] by auto
  qed
  with c1 b0 before show ?thesis by (rule search_selected)
qed

lemma search_later:
  assumes sp: "strict_pref better"
    and x: "x \<in> set xs" "f x = Inr cx"
    and n: "f n = Inr c" "snd c = snd cx"
  shows "search better f b0 (xs @ n # ys) = search better f b0 (xs @ ys)"
proof -
  have "\<not> better (snd cx) (snd (search better f b0 xs))"
    using sp x by (rule search_optimal)
  then have "\<not> better (snd c) (snd (search better f b0 xs))"
    using n(2) by simp
  then have "keep_best better (search better f b0 xs) (f n) = search better f b0 xs"
    using n(1) by (simp add: keep_best_def)
  then have "search better f b0 (xs @ [n]) = search better f b0 xs"
    by (simp add: search_append)
  then have "search better f (search better f b0 (xs @ [n])) ys = search better f (search better f b0 xs) ys"
    by simp
  then show ?thesis
    using search_append [of better f b0 "xs @ [n]" ys] search_append [of better f b0 xs ys] by simp
qed

lemma search_tie_excluded:
  assumes sp: "strict_pref better"
    and n2: "n2 \<notin> set xs" "n2 \<notin> set ys" and n1: "n1 \<in> set xs"
    and c1: "f n1 = Inr c1" and c2: "f n2 = Inr c2" and tie: "snd c2 = snd c1"
    and key: "\<forall>n c. f n = Inr c \<longrightarrow> fst c = fst c2 \<longrightarrow> n = n2"
    and b0: "fst c2 \<noteq> fst b0"
  shows "fst (search better f b0 (xs @ n2 # ys)) \<noteq> fst c2"
proof
  assume eq: "fst (search better f b0 (xs @ n2 # ys)) = fst c2"
  have same: "search better f b0 (xs @ n2 # ys) = search better f b0 (xs @ ys)"
    using sp n1 c1 c2 tie by (rule search_later)
  then have "search better f b0 (xs @ ys) \<noteq> b0" using eq b0 by auto
  then obtain n where n: "n \<in> set (xs @ ys)" "f n = Inr (search better f b0 (xs @ ys))"
    using search_member [of better f b0 "xs @ ys"] by blast
  have "fst (search better f b0 (xs @ ys)) = fst c2" using eq same by simp
  with key n(2) have "n = n2" by blast
  then show False using n(1) n2 by simp
qed

lemma py_range_notin_before: "n \<notin> set (py_range a n)"
  by (auto simp: py_range_def)

lemma py_range_notin_after: "n \<notin> set (py_range (n + 1) b)"
  by (auto simp: py_range_def)

lemma py_range_mem_before: "a \<le> n1 \<Longrightarrow> n1 < n2 \<Longrightarrow> n1 \<in> set (py_range a n2)"
  by (auto simp: py_range_def)

lemma SelectorBIC_first_best:
  assumes n1: "min_n_components self \<le> n1" "n1 < max_n_components self"
    and c1: "SelectorBIC_body ext self n1 = Inr (m1, s)" and fin: "fgt PosInf s"
    and before: "\<forall>n m' s'. min_n_components self \<le> n \<and> n < n1 \<longrightarrow>
                   SelectorBIC_body ext self n = Inr (m', s') \<longrightarrow> fgt s' s"
    and after: "\<forall>n m' s'. n1 < n \<and> n < max_n_components self \<longrightarrow>
                   SelectorBIC_body ext self n = Inr (m', s') \<longrightarrow> fgt s' s \<or> s' = s"
  shows "SelectorBIC_select ext self = Some m1"
proof -
  let ?f = "\<lambda>n. found (SelectorBIC_body ext self n)"
  let ?lo = "min_n_components self" and ?hi = "max_n_components self"
  have mem: "n1 \<in> set (py_range ?lo ?hi)" using n1 by (simp add: set_py_range)
  have split: "py_range ?lo ?hi = py_range ?lo n1 @ n1 # py_range (n1 + 1) ?hi"
    using mem by (rule py_range_split)
  have f1: "?f n1 = Inr (Some m1, s)" using c1 by (simp add: found_simps)
  have b0: "fgt (snd (None :: 'c hmm option, PosInf)) (snd (Some m1, s))" using fin by simp
  have bef: "\<forall>x\<in>set (py_range ?lo n1). \<forall>c. ?f x = Inr c \<longrightarrow> fgt (snd c) (snd (Some m1, s))"
  proof (intro ballI allI impI)
    fix x c assume x: "x \<in> set (py_range ?lo n1)" and fx: "?f x = Inr c"
    obtain mo s' where c: "c = (mo, s')" by (cases c)
    then obtain m' where "SelectorBIC_body ext self x = Inr (m', s')"
      using fx found_Inr [of "SelectorBIC_body ext self x" mo s'] by auto
    moreover have "?lo \<le> x \<and> x < n1" using x by (simp add: set_py_range)
    ultimately have "fgt s' s" using before by blast
    then show "fgt (snd c) (snd (Some m1, s))" using c by simp
  qed
  have aft: "\<forall>y\<in>set (py_range (n1 + 1) ?hi). \<forall>c. ?f y = Inr c \<longrightarrow>
               fgt (snd c) (snd (Some m1, s)) \<or> snd c = snd (Some m1, s)"
  proof (intro ballI allI impI)
    fix y c assume y: "y \<in> set (py_range (n1 + 1) ?hi)" and fy: "?f y = Inr c"
    obtain mo s' where c: "c = (mo, s')" by (cases c)
    then obtain m' where "SelectorBIC_body ext self y = Inr (m', s')"
      using fy found_Inr [of "SelectorBIC_body ext self y" mo s'] by auto
    moreover have "n1 < y \<and> y < ?hi" using y by (simp add: set_py_range)
    ultimately have "fgt s' s \<or> s' = s" using after by blast
    then show "fgt (snd c) (snd (Some m1, s)) \<or> snd c = snd (Some m1, s)" using c by simp
  qed
  have "search (\<lambda>s b. fgt b s) ?f (None, PosInf) (py_range ?lo n1 @ n1 # py_range (n1 + 1) ?hi)
          = (Some m1, s)"
    using strict_pref_lower f1 b0 bef aft by (rule search_tie_first)
  then show ?thesis using split by (simp add: SelectorBIC_select_search)
qed

lemma SelectorBIC_tie_excluded:
  assumes n: "min_n_components self \<le> n1" "n1 < n2" "n2 < max_n_components self"
    and c1: "SelectorBIC_body ext self n1 = Inr (m1, s)"
    and c2: "SelectorBIC_body ext self n2 = Inr (m2, s)"
  shows "SelectorBIC_select ext self \<noteq> Some m2"
proof -
  let ?f = "\<lambda>n. found (SelectorBIC_body ext self n)"
  let ?lo = "min_n_components self" and ?hi = "max_n_components self"
  have mem: "n2 \<in> set (py_range ?lo ?hi)" using n by (simp add: set_py_range)
  have split: "py_range ?lo ?hi = py_range ?lo n2 @ n2 # py_range (n2 + 1) ?hi"
    using mem by (rule py_range_split)
  have m2: "n_components m2 = n2"
    using SelectorBIC_body_Inr [OF c2] base_model_Some by blast
  have key: "\<forall>n c. ?f n = Inr c \<longrightarrow> fst c = fst (Some m2, s) \<longrightarrow> n = n2"
  proof (intro allI impI)
    fix k c assume fk: "?f k = Inr c" and eq: "fst c = fst (Some m2, s)"
    obtain mo s' where c: "c = (mo, s')" by (cases c)
    then have "SelectorBIC_body ext self k = Inr (m2, s')"
      using fk eq found_Inr [of "SelectorBIC_body ext self k" mo s'] by auto
    then have "n_components m2 = k"
      using SelectorBIC_body_Inr base_model_Some by blast
    then show "k = n2" using m2 by simp
  qed
  have "fst (search (\<lambda>s b. fgt b s) ?f (None, PosInf) (py_range ?lo n2 @ n2 # py_range (n2 + 1) ?hi))
          \<noteq> fst (Some m2, s)"
  proof (rule search_tie_excluded [OF strict_pref_lower])
    show "n2 \<notin> set (py_range ?lo n2)" by (rule py_range_notin_before)
    show "n2 \<notin> set (py_range (n2 + 1) ?hi)" by (rule py_range_notin_after)
    show "n1 \<in> set (py_range ?lo n2)" using n by (simp add: py_range_mem_before)
    show "?f n1 = Inr (Some m1, s)" using c1 by (simp add: found_simps)
    show "?f n2 = Inr (Some m2, s)" using c2 by (simp add: found_simps)
    show "snd (Some m2, s) = snd (Some m1, s)" by simp
    show "\<forall>n c. ?f n = Inr c \<longrightarrow> fst c = fst (Some m2, s) \<longrightarrow> n = n2" by (rule key)
    show "fst (Some m2, s) \<noteq> fst (None, PosInf)" by simp
  qed
  then show ?thesis using split by (simp add: SelectorBIC_select_search)
qed

lemma SelectorDIC_first_best:
  assumes n1: "min_n_components self \<le> n1" "n1 < max_n_components self"
    and c1: "SelectorDIC_body ext self n1 = Inr (m1, s)" and fin: "fgt s NegInf"
    and before: "\<forall>n m' s'. min_n_components self \<le> n \<and> n < n1 \<longrightarrow>
                   SelectorDIC_body ext self n = Inr (m', s') \<longrightarrow> fgt s s'"
    and after: "\<forall>n m' s'. n1 < n \<and> n < max_n_components self \<longrightarrow>
                   SelectorDIC_body ext self n = Inr (m', s') \<longrightarrow> fgt s s' \<or> s' = s"
  shows "SelectorDIC_select ext self = Some m1"
proof -
  let ?f = "\<lambda>n. found (SelectorDIC_body ext self n)"
  let ?lo = "min_n_components self" and ?hi = "max_n_components self"
  have mem: "n1 \<in> set (py_range ?lo ?hi)" using n1 by (simp add: set_py_range)
  have split: "py_range ?lo ?hi = py_range ?lo n1 @ n1 # py_range (n1 + 1) ?hi"
    using mem by (rule py_range_split)
  have f1: "?f n1 = Inr (Some m1, s)" using c1 by (simp add: found_simps)
  have b0: "fgt (snd (Some m1, s)) (snd (None :: 'c hmm option, NegInf))" using fin by simp
  have bef: "\<forall>x\<in>set (py_range ?lo n1). \<forall>c. ?f x = Inr c \<longrightarrow> fgt (snd (Some m1, s)) (snd c)"
  proof (intro ballI allI impI)
    fix x c assume x: "x \<in> set (py_range ?lo n1)" and fx: "?f x = Inr c"
    obtain mo s' where c: "c = (mo, s')" by (cases c)
    then obtain m' where "SelectorDIC_body ext self x = Inr (m', s')"
      using fx found_Inr [of "SelectorDIC_body ext self x" mo s'] by auto
    moreover have "?lo \<le> x \<and> x < n1" using x by (simp add: set_py_range)
    ultimately have "fgt s s'" using before by blast
    then show "fgt (snd (Some m1, s)) (snd c)" using c by simp
  qed
  have aft: "\<forall>y\<in>set (py_range (n1 + 1) ?hi). \<forall>c. ?f y = Inr c \<longrightarrow>
               fgt (snd (Some m1, s)) (snd c) \<or> snd c = snd (Some m1, s)"
  proof (intro ballI allI impI)
    fix y c assume y: "y \<in> set (py_range (n1 + 1) ?hi)" and fy: "?f y = Inr c"
    obtain mo s' where c: "c = (mo, s')" by (cases c)
    then obtain m' where "SelectorDIC_body ext self y = Inr (m', s')"
      using fy found_Inr [of "SelectorDIC_body ext self y" mo s'] by auto
    moreover have "n1 < y \<and> y < ?hi" using y by (simp add: set_py_range)
    ultimately have "fgt s s' \<or> s' = s" using after by blast
    then show "fgt (snd (Some m1, s)) (snd c) \<or> snd c = snd (Some m1, s)" using c by simp
  qed
  have "search fgt ?f (None, NegInf) (py_range ?lo n1 @ n1 # py_range (n1 + 1) ?hi)
          = (Some m1, s)"
    using strict_pref_higher f1 b0 bef aft by (rule search_tie_first)
  then show ?thesis using split by (simp add: SelectorDIC_select_search)
qed

lemma SelectorDIC_tie_excluded:
  assumes n: "min_n_components self \<le> n1" "n1 < n2" "n2 < max_n_components self"
    and c1: "SelectorDIC_body ext self n1 = Inr (m1, s)"
    and c2: "SelectorDIC_body ext self n2 = Inr (m2, s)"
  shows "SelectorDIC_select ext self \<noteq> Some m2"
proof -
  let ?f = "\<lambda>n. found (SelectorDIC_body ext self n)"
  let ?lo = "min_n_components self" and ?hi = "max_n_components self"
  have mem: "n2 \<in> set (py_range ?lo ?hi)" using n by (simp add: set_py_range)
  have split: "py_range ?lo ?hi = py_range ?lo n2 @ n2 # py_range (n2 + 1) ?hi"
    using mem by (rule py_range_split)
  have m2: "n_components m2 = n2"
    using SelectorDIC_body_Inr [OF c2] base_model_Some by blast
  have key: "\<forall>n c. ?f n = Inr c \<longrightarrow> fst c = fst (Some m2, s) \<longrightarrow> n = n2"
  proof (intro allI impI)
    fix k c assume fk: "?f k = Inr c" and eq: "fst c = fst (Some m2, s)"
    obtain mo s' where c: "c = (mo, s')" by (cases c)
    then have "SelectorDIC_body ext self k = Inr (m2, s')"
      using fk eq found_Inr [of "SelectorDIC_body ext self k" mo s'] by auto
    then have "n_components m2 = k"
      using SelectorDIC_body_Inr base_model_Some by blast
    then show "k = n2" using m2 by simp
  qed
  have "fst (search fgt ?f (None, NegInf) (py_range ?lo n2 @ n2 # py_range (n2 + 1) ?hi))
          \<noteq> fst (Some m2, s)"
  proof (rule search_tie_excluded [OF strict_pref_higher])
    show "n2 \<notin> set (py_range ?lo n2)" by (rule py_range_notin_before)
    show "n2 \<notin> set (py_range (n2 + 1) ?hi)" by (rule py_range_notin_after)
    show "n1 \<in> set (py_range ?lo n2)" using n by (simp add: py_range_mem_before)
    show "?f n1 = Inr (Some m1, s)" using c1 by (simp add: found_simps)
    show "?f n2 = Inr (Some m2, s)" using c2 by (simp add: found_simps)
    show "snd (Some m2, s) = snd (Some m1, s)" by simp
    show "\<forall>n c. ?f n = Inr c \<longrightarrow> fst c = fst (Some m2, s) \<longrightarrow> n = n2" by (rule key)
    show "fst (Some m2, s) \<noteq> fst (None, NegInf)" by simp
  qed
  then show ?thesis using split by (simp add: SelectorDIC_select_search)
qed

lemma SelectorCV_first_best:
  assumes n1: "min_n_components self \<le> n1" "n1 \<le> max_n_components self"
    and c1: "fst (SelectorCV_body ext n1 (self, None)) = Inr (mo1, s)" and fin: "fgt s NegInf"
    and before: "\<forall>n mo' s'. min_n_components self \<le> n \<and> n < n1 \<longrightarrow>
                   fst (SelectorCV_body ext n (self, None)) = Inr (mo', s') \<longrightarrow> fgt s s'"
    and after: "\<forall>n mo' s'. n1 < n \<and> n \<le> max_n_components self \<longrightarrow>
                   fst (SelectorCV_body ext n (self, None)) = Inr (mo', s') \<longrightarrow> fgt s s' \<or> s' = s"
  shows "fst (SelectorCV_select ext self) = mo1"
proof -
  let ?f = "cv_cand ext self"
  let ?lo = "min_n_components self" and ?hi = "max_n_components self + 1"
  have mem: "n1 \<in> set (py_range ?lo ?hi)" using n1 by (simp add: set_py_range)
  have split: "py_range ?lo ?hi = py_range ?lo n1 @ n1 # py_range (n1 + 1) ?hi"
    using mem by (rule py_range_split)
  have f1: "?f n1 = Inr (mo1, s)" using c1 by (simp add: cv_cand_def)
  have b0: "fgt (snd (mo1, s)) (snd (None :: 'c hmm option, NegInf))" using fin by simp
  have bef: "\<forall>x\<in>set (py_range ?lo n1). \<forall>c. ?f x = Inr c \<longrightarrow> fgt (snd (mo1, s)) (snd c)"
  proof (intro ballI allI impI)
    fix x c assume x: "x \<in> set (py_range ?lo n1)" and fx: "?f x = Inr c"
    obtain mo s' where c: "c = (mo, s')" by (cases c)
    then have "fst (SelectorCV_body ext x (self, None)) = Inr (mo, s')"
      using fx by (simp add: cv_cand_def)
    moreover have "?lo \<le> x \<and> x < n1" using x by (simp add: set_py_range)
    ultimately have "fgt s s'" using before by blast
    then show "fgt (snd (mo1, s)) (snd c)" using c by simp
  qed
  have aft: "\<forall>y\<in>set (py_range (n1 + 1) ?hi). \<forall>c. ?f y = Inr c \<longrightarrow>
               fgt (snd (mo1, s)) (snd c) \<or> snd c = snd (mo1, s)"
  proof (intro ballI allI impI)
    fix y c assume y: "y \<in> set (py_range (n1 + 1) ?hi)" and fy: "?f y = Inr c"
    obtain mo s' where c: "c = (mo, s')" by (cases c)
    then have "fst (SelectorCV_body ext y (self, None)) = Inr (mo, s')"
      using fy by (simp add: cv_cand_def)
    moreover have "n1 < y \<and> y \<le> max_n_components self" using y by (simp add: set_py_range)
    ultimately have "fgt s s' \<or> s' = s" using after by blast
    then show "fgt (snd (mo1, s)) (snd c) \<or> snd c = snd (mo1, s)" using c by simp
  qed
  have "search fgt ?f (None, NegInf) (py_range ?lo n1 @ n1 # py_range (n1 + 1) ?hi) = (mo1, s)"
    using strict_pref_higher f1 b0 bef aft by (rule search_tie_first)
  then show ?thesis using split by (simp add: SelectorCV_select_search)
qed

lemma SelectorCV_tie_excluded:
  assumes n: "min_n_components self \<le> n1" "n1 < n2" "n2 \<le> max_n_components self"
    and c1: "fst (SelectorCV_body ext n1 (self, None)) = Inr (mo1, s)"
    and c2: "fst (SelectorCV_body ext n2 (self, None)) = Inr (Some m2, s)"
  shows "fst (SelectorCV_select ext self) \<noteq> Some m2"
proof -
  let ?f = "cv_cand ext self"
  let ?lo = "min_n_components self" and ?hi = "max_n_components self + 1"
  have mem: "n2 \<in> set (py_range ?lo ?hi)" using n by (simp add: set_py_range)
  have split: "py_range ?lo ?hi = py_range ?lo n2 @ n2 # py_range (n2 + 1) ?hi"
    using mem by (rule py_range_split)
  have f2: "?f n2 = Inr (Some m2, s)" using c2 by (simp add: cv_cand_def)
  have m2: "n_components m2 = n2" using cv_cand_model [OF f2] by simp
  have key: "\<forall>n c. ?f n = Inr c \<longrightarrow> fst c = fst (Some m2, s) \<longrightarrow> n = n2"
  proof (intro allI impI)
    fix k c assume fk: "?f k = Inr c" and eq: "fst c = fst (Some m2, s)"
    obtain mo s' where c: "c = (mo, s')" by (cases c)
    then have "?f k = Inr (Some m2, s')" using fk eq by simp
    then have "n_components m2 = k" using cv_cand_model by blast
    then show "k = n2" using m2 by simp
  qed
  have "fst (search fgt ?f (None, NegInf) (py_range ?lo n2 @ n2 # py_range (n2 + 1) ?hi))
          \<noteq> fst (Some m2, s)"
  proof (rule search_tie_excluded [OF strict_pref_higher])
    show "n2 \<notin> set (py_range ?lo n2)" by (rule py_range_notin_before)
    show "n2 \<notin> set (py_range (n2 + 1) ?hi)" by (rule py_range_notin_after)
    show "n1 \<in> set (py_range ?lo n2)" using n by (simp add: py_range_mem_before)
    show "?f n1 = Inr (mo1, s)" using c1 by (simp add: cv_cand_def)
    show "?f n2 = Inr (Some m2, s)" by (rule f2)
    show "snd (Some m2, s) = snd (mo1, s)" by simp
    show "\<forall>n c. ?f n = Inr c \<longrightarrow> fst c = fst (Some m2, s) \<longrightarrow> n = n2" by (rule key)
    show "fst (Some m2, s) \<noteq> fst (None, NegInf)" by simp
  qed
  then show ?thesis using split by (simp add: SelectorCV_select_search)
qed

subsection \<open>The cross-validated loop without folds\<close>

lemma SelectorCV_body_small:
  assumes "length (sequences self) \<le> 2"
  shows "SelectorCV_body ext n (self, hv) =
     ((case call_score ext (base_model ext self n) (X self) (lengths self) of
         Inl e \<Rightarrow> Inl e
       | Inr sc \<Rightarrow> Inr (base_model ext self n, sc)),
      (self, Some (base_model ext self n)))"
  using assms
  by (simp add: SelectorCV_body_def call_score_def Let_def split: option.splits)

lemma SelectorCV_step_small:
  assumes "length (sequences self) \<le> 2"
  shows "SelectorCV_step ext (b, (self, hv)) n =
     ((case call_score ext (base_model ext self n) (X self) (lengths self) of
         Inl e \<Rightarrow> b
       | Inr sc \<Rightarrow> if fgt sc (snd b) then (base_model ext self n, sc) else b),
      (self, Some (base_model ext self n)))"
  using SelectorCV_body_small [OF assms, of ext n hv]
  by (simp add: SelectorCV_step_def py_max_key_def split: sum.splits)

lemma SelectorCV_loop_small:
  assumes "length (sequences self) \<le> 2"
  shows "\<exists>hv'. foldl (SelectorCV_step ext) (b, (self, hv)) ns =
     (foldl (\<lambda>best n.
        case call_score ext (base_model ext self n) (X self) (lengths self) of
          Inl e \<Rightarrow> best
        | Inr sc \<Rightarrow> if fgt sc (snd best) then (base_model ext self n, sc) else best) b ns,
      (self, hv'))"
proof (induction ns arbitrary: b hv)
  case Nil
  show ?case by simp
next
  case (Cons n ns)
  show ?case using SelectorCV_step_small [OF assms, of ext b hv n] Cons.IH by simp
qed

lemma SelectorCV_select_small:
  assumes "length (sequences self) \<le> 2"
  shows "SelectorCV_select ext self =
     (fst (foldl (\<lambda>best n.
        case call_score ext (base_model ext self n) (X self) (lengths self) of
          Inl e \<Rightarrow> best
        | Inr sc \<Rightarrow> if fgt sc (snd best) then (base_model ext self n, sc) else best)
        (None, NegInf) (py_range (min_n_components self) (max_n_components self + 1))),
      self)"
proof -
  obtain hv' where "foldl (SelectorCV_step ext) ((None, NegInf), (self, None))
        (py_range (min_n_components self) (max_n_components self + 1)) =
     (foldl (\<lambda>best n.
        case call_score ext (base_model ext self n) (X self) (lengths self) of
          Inl e \<Rightarrow> best
        | Inr sc \<Rightarrow> if fgt sc (snd best) then (base_model ext self n, sc) else best)
        (None, NegInf) (py_range (min_n_components self) (max_n_components self + 1)),
      (self, hv'))"
    using SelectorCV_loop_small [OF assms] by blast
  then show ?thesis by (simp add: SelectorCV_select_proj Let_def)
qed

lemma SelectorCV_body_small_fit:
  assumes "length (sequences self) \<le> 2"
  shows "SelectorCV_body ext n (self, hv) =
     (case hmm_fit ext n (random_state self) (X self) (lengths self) of
        None \<Rightarrow> (Inl AttributeError, (self, Some None))
      | Some p \<Rightarrow>
          (case hmm_score ext \<lparr>n_components = n, fitted = p\<rparr> (X self) (lengths self) of
             None \<Rightarrow> (Inl LibraryError, (self, Some (Some \<lparr>n_components = n, fitted = p\<rparr>)))
           | Some sc \<Rightarrow>
               (Inr (Some \<lparr>n_components = n, fitted = p\<rparr>, sc),
                (self, Some (Some \<lparr>n_components = n, fitted = p\<rparr>)))))"
  using assms
  by (simp add: SelectorCV_body_def base_model_def Let_def split: option.splits)

lemma small_step_fit:
  "(\<lambda>best n.
      case call_score ext (base_model ext self n) (X self) (lengths self) of
        Inl e \<Rightarrow> best
      | Inr sc \<Rightarrow> if fgt sc (snd best) then (base_model ext self n, sc) else best) =
   (\<lambda>best n.
      case hmm_fit ext n (random_state self) (X self) (lengths self) of
        None \<Rightarrow> best
      | Some p \<Rightarrow>
          (case hmm_score ext \<lparr>n_components = n, fitted = p\<rparr> (X self) (lengths self) of
             None \<Rightarrow> best
           | Some sc \<Rightarrow>
               if fgt sc (snd best) then (Some \<lparr>n_components = n, fitted = p\<rparr>, sc) else best))"
  by (intro ext) (simp add: call_score_def base_model_def split: option.splits)

lemma SelectorCV_select_small_fit:
  assumes "length (sequences self) \<le> 2"
  shows "SelectorCV_select ext self =
     (fst (foldl (\<lambda>best n.
        case hmm_fit ext n (random_state self) (X self) (lengths self) of
          None \<Rightarrow> best
        | Some p \<Rightarrow>
            (case hmm_score ext \<lparr>n_components = n, fitted = p\<rparr> (X self) (lengths self) of
               None \<Rightarrow> best
             | Some sc \<Rightarrow>
                 if fgt sc (snd best) then (Some \<lparr>n_components = n, fitted = p\<rparr>, sc) else best))
        (None, NegInf) (py_range (min_n_components self) (max_n_components self + 1))),
      self)"
  using SelectorCV_select_small [OF assms, of ext] by (simp only: small_step_fit)

subsection \<open>The instance after the fold loop\<close>

lemma SelectorCV_fold_trained:
  assumes "combine_sequences ext (fst f) (sequences (fst st)) = Some (xt, lt)"
  shows "X (fst (snd (SelectorCV_fold ext n f st))) = xt \<and>
         lengths (fst (snd (SelectorCV_fold ext n f st))) = lt"
  using assms
  by (simp add: SelectorCV_fold_def Let_def split: option.splits prod.splits)

lemma SelectorCV_folds_last:
  assumes "same_rest (fst st) self" and "fs \<noteq> []"
    and "\<forall>f\<in>set fs. combine_sequences ext (fst f) (sequences self) \<noteq> None"
  shows "\<exists>pre f post. fs = pre @ f # post \<and>
      combine_sequences ext (fst f) (sequences self) =
        Some (X (fst (fst (snd (SelectorCV_folds ext n fs st sc)))),
              lengths (fst (fst (snd (SelectorCV_folds ext n fs st sc))))) \<and>
      (\<forall>g\<in>set pre. \<not> isl (fst (SelectorCV_fold ext n g (self, None)))) \<and>
      (post = [] \<or> isl (fst (SelectorCV_fold ext n f (self, None))))"
  using assms
proof (induction fs arbitrary: st sc)
  case Nil
  then show ?case by simp
next
  case (Cons f rest)
  obtain r st1 where r: "SelectorCV_fold ext n f st = (r, st1)"
    by (cases "SelectorCV_fold ext n f st")
  have sq: "sequences (fst st) = sequences self"
    using Cons.prems(1) by (rule same_rest_sequences)
  obtain xt lt where tr: "combine_sequences ext (fst f) (sequences self) = Some (xt, lt)"
    using Cons.prems(3) by (cases "combine_sequences ext (fst f) (sequences self)") auto
  have xl: "X (fst st1) = xt \<and> lengths (fst st1) = lt"
    using SelectorCV_fold_trained [of ext f st xt lt n] tr sq r by simp
  have same: "fst (SelectorCV_fold ext n f (self, None)) = r"
    using SelectorCV_fold_indep(1) [OF Cons.prems(1), of ext n f None] r by simp
  have fr: "same_rest (fst st1) self"
    using SelectorCV_fold_frame [OF Cons.prems(1), of ext n f] r by simp
  show ?case
  proof (cases r)
    case (Inl e)
    then have "SelectorCV_folds ext n (f # rest) st sc = (Some e, st1, sc)" using r by simp
    then have "f # rest = [] @ f # rest \<and>
      combine_sequences ext (fst f) (sequences self) =
        Some (X (fst (fst (snd (SelectorCV_folds ext n (f # rest) st sc)))),
              lengths (fst (fst (snd (SelectorCV_folds ext n (f # rest) st sc))))) \<and>
      (\<forall>g\<in>set []. \<not> isl (fst (SelectorCV_fold ext n g (self, None)))) \<and>
      (rest = [] \<or> isl (fst (SelectorCV_fold ext n f (self, None))))"
      using tr xl same Inl by simp
    then show ?thesis by blast
  next
    case (Inr v)
    then have run: "SelectorCV_folds ext n (f # rest) st sc = SelectorCV_folds ext n rest st1 (sc @ [v])"
      using r by simp
    show ?thesis
    proof (cases "rest = []")
      case True
      then have "f # rest = [] @ f # [] \<and>
        combine_sequences ext (fst f) (sequences self) =
          Some (X (fst (fst (snd (SelectorCV_folds ext n (f # rest) st sc)))),
                lengths (fst (fst (snd (SelectorCV_folds ext n (f # rest) st sc))))) \<and>
        (\<forall>g\<in>set []. \<not> isl (fst (SelectorCV_fold ext n g (self, None)))) \<and>
        ([] = [] \<or> isl (fst (SelectorCV_fold ext n f (self, None))))"
        using tr xl run by simp
      then show ?thesis by blast
    next
      case False
      have "\<forall>f\<in>set rest. combine_sequences ext (fst f) (sequences self) \<noteq> None"
        using Cons.prems(3) by simp
      from Cons.IH [OF fr False this, of "sc @ [v]"]
      obtain pre f' post where p: "rest = pre @ f' # post"
        "combine_sequences ext (fst f') (sequences self) =
          Some (X (fst (fst (snd (SelectorCV_folds ext n rest st1 (sc @ [v]))))),
                lengths (fst (fst (snd (SelectorCV_folds ext n rest st1 (sc @ [v]))))))"
        "\<forall>g\<in>set pre. \<not> isl (fst (SelectorCV_fold ext n g (self, None)))"
        "post = [] \<or> isl (fst (SelectorCV_fold ext n f' (self, None)))"
        by blast
      have "f # rest = (f # pre) @ f' # post \<and>
        combine_sequences ext (fst f') (sequences self) =
          Some (X (fst (fst (snd (SelectorCV_folds ext n (f # rest) st sc)))),
                lengths (fst (fst (snd (SelectorCV_folds ext n (f # rest) st sc))))) \<and>
        (\<forall>g\<in>set (f # pre). \<not> isl (fst (SelectorCV_fold ext n g (self, None)))) \<and>
        (post = [] \<or> isl (fst (SelectorCV_fold ext n f' (self, None))))"
        using p run same Inr by simp
      then show ?thesis by blast
    qed
  qed
qed

lemma SelectorCV_body_state:
  assumes "length (sequences self) > 2" and "kf_split ext (sequences self) = Some fs"
    and "same_rest (fst st) self"
  shows "snd (SelectorCV_body ext n st) = fst (snd (SelectorCV_folds ext n fs st []))"
proof -
  have sq: "sequences (fst st) = sequences self" using assms(3) by (rule same_rest_sequences)
  obtain e st1 sc1 where run: "SelectorCV_folds ext n fs st [] = (e, st1, sc1)"
    by (cases "SelectorCV_folds ext n fs st []") auto
  show ?thesis using assms(1,2) sq run
    by (simp add: SelectorCV_body_def Let_def split: option.splits)
qed

lemma py_range_last: "a \<le> b \<Longrightarrow> py_range a (b + 1) = py_range a b @ [b]"
  by (simp add: py_range_def upto_rec2)


lemma SelectorCV_select_state:
  assumes big: "length (sequences self) > 2" and split: "kf_split ext (sequences self) = Some fs"
    and rng: "min_n_components self \<le> max_n_components self"
  shows "\<exists>st. same_rest (fst st) self \<and>
      snd (SelectorCV_select ext self) =
        fst (fst (snd (SelectorCV_folds ext (max_n_components self) fs st [])))"
proof -
  let ?lo = "min_n_components self" and ?hi = "max_n_components self"
  obtain b st where acc: "foldl (SelectorCV_step ext) ((None, NegInf), (self, None)) (py_range ?lo ?hi) = (b, st)"
    by (cases "foldl (SelectorCV_step ext) ((None, NegInf), (self, None)) (py_range ?lo ?hi)")
  have "cv_reach ext self (self, None)" by (rule cv_reach_init)
  from SelectorCV_loop_search [OF this, of "(None, NegInf)" "py_range ?lo ?hi"] acc
  have "cv_reach ext self st" by simp
  then have sr: "same_rest (fst st) self" by (simp add: cv_reach_def)
  have "foldl (SelectorCV_step ext) ((None, NegInf), (self, None)) (py_range ?lo (?hi + 1)) =
        SelectorCV_step ext (b, st) ?hi"
    using acc py_range_last [OF rng] by simp
  then have "fst (snd (foldl (SelectorCV_step ext) ((None, NegInf), (self, None)) (py_range ?lo (?hi + 1)))) =
        fst (snd (SelectorCV_body ext ?hi st))"
    by (simp add: SelectorCV_step_def split: prod.splits sum.splits)
  then have "snd (SelectorCV_select ext self) = fst (snd (SelectorCV_body ext ?hi st))"
    by (simp add: SelectorCV_select_proj Let_def)
  then have "same_rest (fst st) self \<and>
      snd (SelectorCV_select ext self) =
        fst (fst (snd (SelectorCV_folds ext (max_n_components self) fs st [])))"
    using SelectorCV_body_state [OF big split sr, of ?hi] sr by simp
  then show ?thesis by (rule exI)
qed

subsection \<open>Scores and optimality\<close>

lemma SelectorBIC_body_value:
  assumes "base_model ext self n = Some m" and "hmm_score ext m (X self) (lengths self) = Some logL"
  shows "SelectorBIC_body ext self n =
     Inr (m, fadd (fmul (Fin (- 2)) logL)
               (fmul (Fin (real_of_int (n ^ 2 + 2 * n * hmm_n_features ext (fitted m) - 1)))
                     (np_log (length (lengths self)))))"
  using assms by (simp add: SelectorBIC_body_def Let_def float_of_int_def)

lemma SelectorBIC_optimal:
  assumes sel: "SelectorBIC_select ext self = Some m"
  shows "\<exists>k s. min_n_components self \<le> k \<and> k < max_n_components self \<and>
           SelectorBIC_body ext self k = Inr (m, s) \<and>
           (\<forall>j mj sj. min_n_components self \<le> j \<and> j < max_n_components self \<longrightarrow>
               SelectorBIC_body ext self j = Inr (mj, sj) \<longrightarrow> \<not> fgt s sj)"
proof -
  let ?f = "\<lambda>n. found (SelectorBIC_body ext self n)"
  let ?ns = "py_range (min_n_components self) (max_n_components self)"
  obtain k s where k: "k \<in> set ?ns" and b: "SelectorBIC_body ext self k = Inr (m, s)"
    and r: "search (\<lambda>s b. fgt b s) ?f (None, PosInf) ?ns = (Some m, s)"
    using SelectorBIC_select_member [OF sel] by blast
  have "\<not> fgt s sj" if j: "min_n_components self \<le> j \<and> j < max_n_components self"
    and bj: "SelectorBIC_body ext self j = Inr (mj, sj)" for j mj sj
  proof -
    have "j \<in> set ?ns" using j by (simp add: set_py_range)
    moreover have "?f j = Inr (Some mj, sj)" using bj by (simp add: found_simps)
    ultimately have "\<not> fgt (snd (search (\<lambda>s b. fgt b s) ?f (None, PosInf) ?ns)) (snd (Some mj, sj))"
      using search_optimal [OF strict_pref_lower, of j ?ns ?f "(Some mj, sj)" "(None, PosInf)"] by simp
    then show ?thesis using r by simp
  qed
  then show ?thesis using k b by (auto simp: set_py_range)
qed

lemma SelectorBIC_some:
  assumes k: "min_n_components self \<le> k" "k < max_n_components self"
    and b: "SelectorBIC_body ext self k = Inr (m, s)" and fin: "fgt PosInf s"
  shows "SelectorBIC_select ext self \<noteq> None"
proof
  assume none: "SelectorBIC_select ext self = None"
  let ?f = "\<lambda>n. found (SelectorBIC_body ext self n)"
  let ?ns = "py_range (min_n_components self) (max_n_components self)"
  let ?r = "search (\<lambda>s b. fgt b s) ?f (None, PosInf) ?ns"
  have "fst ?r = None" using none by (simp add: SelectorBIC_select_search)
  moreover have "?r = (None, PosInf) \<or> (\<exists>n\<in>set ?ns. ?f n = Inr ?r)" by (rule search_member)
  ultimately have "?r = (None, PosInf)"
    using found_Inr by (metis option.distinct(1) prod.collapse)
  moreover have "\<not> fgt (snd ?r) (snd (Some m, s))"
    using search_optimal [OF strict_pref_lower, of k ?ns ?f "(Some m, s)" "(None, PosInf)"] k b
    by (simp add: set_py_range found_simps)
  ultimately show False using fin by simp
qed

lemma foldl_fadd_Fin:
  "foldl fadd (Fin a) (map (\<lambda>w. Fin (g w)) ws) = Fin (a + (\<Sum>w\<leftarrow>ws. g w))"
  by (induction ws arbitrary: a) (simp_all add: add.assoc)

lemma py_sum_Fin: "py_sum (map (\<lambda>w. Fin (g w)) ws) = Fin (\<Sum>w\<leftarrow>ws. g w)"
  by (simp add: py_sum_def float_of_int_def foldl_fadd_Fin)

lemma score_words_all:
  assumes "\<forall>w\<in>set ws. \<exists>x l. map_of hw w = Some (x, l) \<and> hmm_score ext m x l = Some (g w)"
  shows "score_words ext hw m ws = Inr (map g ws)"
  using assms by (induction ws) auto

lemma SelectorDIC_body_value:
  assumes "base_model ext self n = Some m" and "hmm_score ext m (X self) (lengths self) = Some logL"
    and "score_words ext (hwords self) m (dict_keys (words self)) = Inr vs"
    and "length (dict_keys (words self)) \<noteq> 1"
  shows "SelectorDIC_body ext self n =
     Inr (m, fsub logL (fmul (Fin (1 / (real (length (dict_keys (words self))) - 1)))
                             (fsub (py_sum vs) logL)))"
  using assms by (simp add: SelectorDIC_body_def Let_def)

lemma SelectorDIC_body_real:
  assumes bm: "base_model ext self n = Some m"
    and sc: "hmm_score ext m (X self) (lengths self) = Some (Fin l)"
    and all: "\<forall>w\<in>set (dict_keys (words self)).
                \<exists>x ls. map_of (hwords self) w = Some (x, ls) \<and> hmm_score ext m x ls = Some (Fin (ll w))"
    and M: "length (dict_keys (words self)) \<noteq> 1"
  shows "SelectorDIC_body ext self n =
     Inr (m, Fin (l - 1 / (real (length (dict_keys (words self))) - 1) *
                       ((\<Sum>w\<leftarrow>dict_keys (words self). ll w) - l)))"
proof -
  have ws: "score_words ext (hwords self) m (dict_keys (words self)) =
          Inr (map (\<lambda>w. Fin (ll w)) (dict_keys (words self)))"
    using all by (rule score_words_all)
  show ?thesis
    using SelectorDIC_body_value [OF bm sc ws M] by (simp add: py_sum_Fin fsub_def)
qed

lemma ModelSelector_init_target:
  assumes "ModelSelector_init aws axl word nc lo hi seed verb = Inr self"
  shows "this_word self \<in> set (dict_keys (words self)) \<and>
         map_of (hwords self) (this_word self) = Some (X self, lengths self) \<and>
         map_of (words self) (this_word self) = Some (sequences self)"
proof -
  obtain sq x l where a: "map_of aws word = Some sq" and b: "map_of axl word = Some (x, l)"
    and s: "self = \<lparr>words = aws, hwords = axl, sequences = sq, X = x, lengths = l,
                  this_word = word, n_constant = nc, min_n_components = lo,
                  max_n_components = hi, random_state = seed, verbose = verb\<rparr>"
    using assms by (auto simp: ModelSelector_init_def split: option.splits)
  have "(word, sq) \<in> set aws" using a by (rule map_of_SomeD)
  then have "word \<in> fst ` set aws" by force
  then show ?thesis using a b s by (simp add: dict_keys_def)
qed

lemma SelectorDIC_optimal:
  assumes sel: "SelectorDIC_select ext self = Some m"
  shows "\<exists>k s. min_n_components self \<le> k \<and> k < max_n_components self \<and>
           SelectorDIC_body ext self k = Inr (m, s) \<and>
           (\<forall>j mj sj. min_n_components self \<le> j \<and> j < max_n_components self \<longrightarrow>
               SelectorDIC_body ext self j = Inr (mj, sj) \<longrightarrow> \<not> fgt sj s)"
proof -
  let ?f = "\<lambda>n. found (SelectorDIC_body ext self n)"
  let ?ns = "py_range (min_n_components self) (max_n_components self)"
  obtain k s where k: "k \<in> set ?ns" and b: "SelectorDIC_body ext self k = Inr (m, s)"
    and r: "search fgt ?f (None, NegInf) ?ns = (Some m, s)"
    using SelectorDIC_select_member [OF sel] by blast
  have "\<not> fgt sj s" if j: "min_n_components self \<le> j \<and> j < max_n_components self"
    and bj: "SelectorDIC_body ext self j = Inr (mj, sj)" for j mj sj
  proof -
    have "j \<in> set ?ns" using j by (simp add: set_py_range)
    moreover have "?f j = Inr (Some mj, sj)" using bj by (simp add: found_simps)
    ultimately have "\<not> fgt (snd (Some mj, sj)) (snd (search fgt ?f (None, NegInf) ?ns))"
      using search_optimal [OF strict_pref_higher, of j ?ns ?f "(Some mj, sj)" "(None, NegInf)"] by simp
    then show ?thesis using r by simp
  qed
  then show ?thesis using k b by (auto simp: set_py_range)
qed

lemma SelectorDIC_some:
  assumes k: "min_n_components self \<le> k" "k < max_n_components self"
    and b: "SelectorDIC_body ext self k = Inr (m, s)" and fin: "fgt s NegInf"
  shows "SelectorDIC_select ext self \<noteq> None"
proof
  assume none: "SelectorDIC_select ext self = None"
  let ?f = "\<lambda>n. found (SelectorDIC_body ext self n)"
  let ?ns = "py_range (min_n_components self) (max_n_components self)"
  let ?r = "search fgt ?f (None, NegInf) ?ns"
  have "fst ?r = None" using none by (simp add: SelectorDIC_select_search)
  moreover have "?r = (None, NegInf) \<or> (\<exists>n\<in>set ?ns. ?f n = Inr ?r)" by (rule search_member)
  ultimately have "?r = (None, NegInf)"
    using found_Inr by (metis option.distinct(1) prod.collapse)
  moreover have "\<not> fgt (snd (Some m, s)) (snd ?r)"
    using search_optimal [OF strict_pref_higher, of k ?ns ?f "(Some m, s)" "(None, NegInf)"] k b
    by (simp add: set_py_range found_simps)
  ultimately show False using fin by simp
qed

subsection \<open>Candidates that run through\<close>

lemma base_model_fit:
  "base_model ext self n =
     (case hmm_fit ext n (random_state self) (X self) (lengths self) of
        None \<Rightarrow> None
      | Some p \<Rightarrow> Some \<lparr>n_components = n, fitted = p\<rparr>)"
  by (simp add: base_model_def)







subsection \<open>Candidates that cannot be scored, and searches where every candidate fails\<close>

text \<open>
  A score that raises ends the candidate's evaluation in a caught exception, as a fit
  that fails does. When every candidate's evaluation ends that way the search keeps
  its initial \<^verbatim>\<open>None\<close>, and in general it returns what the same loop returns on the
  candidates that ran through.
\<close>

lemma SelectorBIC_body_unscored:
  assumes "\<forall>p. hmm_score ext \<lparr>n_components = n, fitted = p\<rparr> (X self) (lengths self) = None"
  shows "\<exists>e. SelectorBIC_body ext self n = Inl e"
  using assms by (simp add: SelectorBIC_body_def base_model_def Let_def split: option.splits)

lemma SelectorDIC_body_unscored:
  assumes "\<forall>p. hmm_score ext \<lparr>n_components = n, fitted = p\<rparr> (X self) (lengths self) = None"
  shows "\<exists>e. SelectorDIC_body ext self n = Inl e"
  using assms by (simp add: SelectorDIC_body_def base_model_def Let_def split: option.splits)

lemma SelectorCV_fold_unscored:
  assumes "\<forall>p x l. hmm_score ext \<lparr>n_components = n, fitted = p\<rparr> x l = None"
  shows "isl (fst (SelectorCV_fold ext n f st))"
  using assms by (simp add: SelectorCV_fold_def base_model_def Let_def split: option.splits prod.splits)

lemma cv_cand_unscored:
  assumes "\<forall>p x l. hmm_score ext \<lparr>n_components = n, fitted = p\<rparr> x l = None"
  shows "isl (cv_cand ext self n)"
proof (cases "length (sequences self) > 2")
  case False
  then show ?thesis using assms
    by (simp add: cv_cand_def SelectorCV_body_def base_model_def Let_def split: option.splits)
next
  case True
  show ?thesis
  proof (cases "kf_split ext (sequences self)")
    case None
    then show ?thesis using True by (simp add: cv_cand_def SelectorCV_body_def Let_def)
  next
    case (Some fs)
    show ?thesis
    proof (cases fs)
      case Nil
      then show ?thesis using True Some by (simp add: cv_cand_def SelectorCV_body_def Let_def)
    next
      case (Cons f rest)
      obtain r st1 where r: "SelectorCV_fold ext n f (self, None) = (r, st1)"
        by (cases "SelectorCV_fold ext n f (self, None)")
      have "isl r" using SelectorCV_fold_unscored [OF assms, of f "(self, None)"] r by simp
      then obtain e where "r = Inl e" by (cases r) auto
      then show ?thesis using True Some Cons r
        by (simp add: cv_cand_def SelectorCV_body_def Let_def)
    qed
  qed
qed

lemma all_fail_bodies:
  "(base_model ext self (n_constant self) = None \<longrightarrow> SelectorConstant_select ext self = None) \<and>
   ((\<forall>n. min_n_components self \<le> n \<and> n < max_n_components self \<longrightarrow>
         (\<exists>e. SelectorBIC_body ext self n = Inl e)) \<longrightarrow>
      SelectorBIC_select ext self = None) \<and>
   ((\<forall>n. min_n_components self \<le> n \<and> n < max_n_components self \<longrightarrow>
         (\<exists>e. SelectorDIC_body ext self n = Inl e)) \<longrightarrow>
      SelectorDIC_select ext self = None) \<and>
   ((\<forall>n. min_n_components self \<le> n \<and> n \<le> max_n_components self \<longrightarrow>
         (\<exists>e. fst (SelectorCV_body ext n (self, None)) = Inl e)) \<longrightarrow>
      fst (SelectorCV_select ext self) = None) \<and>
   (base_model ext self k = None \<longrightarrow>
      SelectorBIC_body ext self k = Inl AttributeError \<and>
      SelectorDIC_body ext self k = Inl AttributeError) \<and>
   ((\<forall>x l. hmm_fit ext k (random_state self) x l = None) \<longrightarrow>
      (\<exists>e. fst (SelectorCV_body ext k (self, None)) = Inl e)) \<and>
   SelectorBIC_select ext self =
     fst (foldl (SelectorBIC_step ext self) (None, PosInf)
           (filter (\<lambda>n. \<not> isl (SelectorBIC_body ext self n))
              (py_range (min_n_components self) (max_n_components self)))) \<and>
   SelectorDIC_select ext self =
     fst (foldl (SelectorDIC_step ext self) (None, NegInf)
           (filter (\<lambda>n. \<not> isl (SelectorDIC_body ext self n))
              (py_range (min_n_components self) (max_n_components self)))) \<and>
   fst (SelectorCV_select ext self) =
     fst (fst (foldl (SelectorCV_step ext) ((None, NegInf), (self, None))
           (filter (\<lambda>n. \<not> isl (fst (SelectorCV_body ext n (self, None))))
              (py_range (min_n_components self) (max_n_components self + 1)))))"
proof (intro conjI impI)
  assume "base_model ext self (n_constant self) = None"
  then show "SelectorConstant_select ext self = None"
    by (simp add: SelectorConstant_select_def Let_def)
next
  assume h: "\<forall>n. min_n_components self \<le> n \<and> n < max_n_components self \<longrightarrow>
         (\<exists>e. SelectorBIC_body ext self n = Inl e)"
  have "\<forall>n\<in>set (py_range (min_n_components self) (max_n_components self)).
          isl (found (SelectorBIC_body ext self n))"
  proof
    fix n assume "n \<in> set (py_range (min_n_components self) (max_n_components self))"
    then obtain e where "SelectorBIC_body ext self n = Inl e" using h by (auto simp: set_py_range)
    then show "isl (found (SelectorBIC_body ext self n))" by (simp add: found_simps)
  qed
  then show "SelectorBIC_select ext self = None"
    by (simp add: SelectorBIC_select_search search_all_fail)
next
  assume h: "\<forall>n. min_n_components self \<le> n \<and> n < max_n_components self \<longrightarrow>
         (\<exists>e. SelectorDIC_body ext self n = Inl e)"
  have "\<forall>n\<in>set (py_range (min_n_components self) (max_n_components self)).
          isl (found (SelectorDIC_body ext self n))"
  proof
    fix n assume "n \<in> set (py_range (min_n_components self) (max_n_components self))"
    then obtain e where "SelectorDIC_body ext self n = Inl e" using h by (auto simp: set_py_range)
    then show "isl (found (SelectorDIC_body ext self n))" by (simp add: found_simps)
  qed
  then show "SelectorDIC_select ext self = None"
    by (simp add: SelectorDIC_select_search search_all_fail)
next
  assume h: "\<forall>n. min_n_components self \<le> n \<and> n \<le> max_n_components self \<longrightarrow>
         (\<exists>e. fst (SelectorCV_body ext n (self, None)) = Inl e)"
  have "\<forall>n\<in>set (py_range (min_n_components self) (max_n_components self + 1)).
          isl (cv_cand ext self n)"
  proof
    fix n assume "n \<in> set (py_range (min_n_components self) (max_n_components self + 1))"
    then obtain e where "fst (SelectorCV_body ext n (self, None)) = Inl e"
      using h by (auto simp: set_py_range)
    then show "isl (cv_cand ext self n)" by (simp add: cv_cand_def)
  qed
  then show "fst (SelectorCV_select ext self) = None"
    by (simp add: SelectorCV_select_search search_all_fail)
next
  assume "base_model ext self k = None"
  then show "SelectorBIC_body ext self k = Inl AttributeError"
    by (rule SelectorBIC_body_unfit)
next
  assume "base_model ext self k = None"
  then show "SelectorDIC_body ext self k = Inl AttributeError"
    by (rule SelectorDIC_body_unfit)
next
  assume "\<forall>x l. hmm_fit ext k (random_state self) x l = None"
  then have "isl (cv_cand ext self k)" by (rule cv_cand_unfit)
  then show "\<exists>e. fst (SelectorCV_body ext k (self, None)) = Inl e"
    by (simp add: cv_cand_def isl_def)
next
  show "SelectorBIC_select ext self =
     fst (foldl (SelectorBIC_step ext self) (None, PosInf)
           (filter (\<lambda>n. \<not> isl (SelectorBIC_body ext self n))
              (py_range (min_n_components self) (max_n_components self))))"
    by (rule SelectorBIC_select_filter)
  show "SelectorDIC_select ext self =
     fst (foldl (SelectorDIC_step ext self) (None, NegInf)
           (filter (\<lambda>n. \<not> isl (SelectorDIC_body ext self n))
              (py_range (min_n_components self) (max_n_components self))))"
    by (rule SelectorDIC_select_filter)
  show "fst (SelectorCV_select ext self) =
     fst (fst (foldl (SelectorCV_step ext) ((None, NegInf), (self, None))
           (filter (\<lambda>n. \<not> isl (fst (SelectorCV_body ext n (self, None))))
              (py_range (min_n_components self) (max_n_components self + 1)))))"
    by (rule SelectorCV_select_filter)
qed

section \<open>The claims\<close>

lemmas demo_defs = demo_externals_def book_selector_def chair_selector_def lone_selector_def
  demo_sequences_def demo_Xlengths_def flat_scores_def only_at_def no_scores_def scores_at_def bic_tie_scores_def rising_scores_def sized_externals_def recording_externals_def demo_model_def

subsection \<open>C2: the DIC selector on a corpus of one word\<close>

text \<open>
  C2 says that the DIC selector, on a corpus with exactly one vocabulary item, signals
  a defined configuration error and guards \<open>M \<ge> 2\<close> explicitly. The code has no such
  guard: the division \<^verbatim>\<open>1 / (M - 1)\<close> raises inside the \<^verbatim>\<open>try\<close>, the bare
  \<^verbatim>\<open>except\<close> swallows it, and \<^verbatim>\<open>select\<close> returns \<^verbatim>\<open>None\<close> like for any
  other untrainable word. On the one-word corpus below the candidate for two states
  fits and scores, ends in the division fault, and the selection is \<^verbatim>\<open>None\<close>.
\<close>

theorem SelectorDIC_one_word_counterexample:
  "SelectorDIC_body (demo_externals flat_scores) (lone_selector 3 2 4) 2 = Inl ZeroDivisionError \<and>
   SelectorDIC_select (demo_externals flat_scores) (lone_selector 3 2 4) = None"
  by (simp add: SelectorDIC_select_def SelectorDIC_step_def SelectorDIC_body_def base_model_def
      py_range_def dict_keys_def py_sum_def fsub_def flt_def float_of_int_def demo_defs)

text \<open>
  C2 as amended: with one vocabulary item, every candidate of the DIC selector ends in
  an exception that is caught (the division by zero where fit and scoring went
  through), and \<^verbatim>\<open>select\<close> returns \<^verbatim>\<open>None\<close>; no error reaches the caller.
\<close>

theorem SelectorDIC_one_word:
  assumes "length (dict_keys (words self)) = 1"
  shows "SelectorDIC_select ext self = None \<and>
         (\<forall>n. \<exists>e. SelectorDIC_body ext self n = Inl e) \<and>
         (\<forall>n m logL vs. base_model ext self n = Some m \<longrightarrow>
            hmm_score ext m (X self) (lengths self) = Some logL \<longrightarrow>
            score_words ext (hwords self) m (dict_keys (words self)) = Inr vs \<longrightarrow>
            SelectorDIC_body ext self n = Inl ZeroDivisionError)"
proof -
  have fail: "\<exists>e. SelectorDIC_body ext self n = Inl e" for n
    using assms by (simp add: SelectorDIC_body_def Let_def split: option.splits sum.splits)
  then have "\<forall>n\<in>set (py_range (min_n_components self) (max_n_components self)).
               isl (found (SelectorDIC_body ext self n))"
    by (metis found_simps(1) isl_def)
  then have "SelectorDIC_select ext self = None"
    by (simp add: SelectorDIC_select_search search_all_fail)
  moreover have "\<forall>n m logL vs. base_model ext self n = Some m \<longrightarrow>
            hmm_score ext m (X self) (lengths self) = Some logL \<longrightarrow>
            score_words ext (hwords self) m (dict_keys (words self)) = Inr vs \<longrightarrow>
            SelectorDIC_body ext self n = Inl ZeroDivisionError"
    using assms by (simp add: SelectorDIC_body_def Let_def)
  ultimately show ?thesis using fail by blast
qed

theorem SelectorDIC_one_word_witness:
  "length (dict_keys (words (lone_selector 3 2 4))) = 1 \<and>
   SelectorDIC_select (demo_externals flat_scores) (lone_selector 3 2 4) = None \<and>
   SelectorDIC_body (demo_externals flat_scores) (lone_selector 3 2 4) 3 = Inl ZeroDivisionError"
proof -
  have one: "length (dict_keys (words (lone_selector 3 2 4))) = 1"
    by (simp add: dict_keys_def lone_selector_def)
  have fit: "base_model (demo_externals flat_scores) (lone_selector 3 2 4) 3 = Some (demo_model 3)"
    by (simp add: base_model_def demo_defs)
  have sc: "hmm_score (demo_externals flat_scores) (demo_model 3) (X (lone_selector 3 2 4))
              (lengths (lone_selector 3 2 4)) = Some (Fin (- 10))"
    by (simp add: demo_defs)
  have ws: "score_words (demo_externals flat_scores) (hwords (lone_selector 3 2 4)) (demo_model 3)
              (dict_keys (words (lone_selector 3 2 4))) = Inr [Fin (- 10)]"
    by (simp add: dict_keys_def demo_defs)
  from SelectorDIC_one_word [OF one, of "demo_externals flat_scores"] fit sc ws one
  show ?thesis by blast
qed

subsection \<open>C1: ties in the cross-validated selector\<close>

text \<open>
  C1 says that the cross-validated selector, when two candidate state counts have the
  same mean fold score, returns the one evaluated later. The running best is replaced
  by \<^verbatim>\<open>max(best_model, curr, key=...)\<close>, and the builtin returns the first of
  several maximal items, so the earlier candidate stays. BOOK has three sequences and
  goes through the folds; with the range from 2 to 3 both candidates have the mean
  score \<open>-10\<close>, and the model with 2 states is returned.
\<close>

theorem SelectorCV_tie_counterexample:
  "fst (SelectorCV_body (demo_externals flat_scores) 2 (book_selector 3 2 3, None)) =
     Inr (Some (demo_model 2), Fin (- 10)) \<and>
   fst (SelectorCV_body (demo_externals flat_scores) 3 (book_selector 3 2 3, None)) =
     Inr (Some (demo_model 3), Fin (- 10)) \<and>
   fst (SelectorCV_select (demo_externals flat_scores) (book_selector 3 2 3)) = Some (demo_model 2)"
  by (simp add: SelectorCV_select_def SelectorCV_step_def SelectorCV_body_def SelectorCV_fold_def
      base_model_def py_range_def np_mean_def py_max_key_def Let_def demo_defs)

text \<open>
  C1 as amended: the running best of the cross-validated selector is replaced only by
  a candidate with a strictly greater score; of two candidates \<open>n1 < n2\<close> of the
  range with identical scores the later one is never returned, and the earlier one is
  returned when its score beats the sentinel and every other candidate is strictly
  worse (first-wins, as in BIC and DIC).
\<close>

theorem SelectorCV_first_wins:
  "(py_max_key best cand = best \<or> fgt (snd cand) (snd best) \<and> py_max_key best cand = cand) \<and>
   (min_n_components self \<le> n1 \<and> n1 < n2 \<and> n2 \<le> max_n_components self \<longrightarrow>
      fst (SelectorCV_body ext n1 (self, None)) = Inr (Some m1, s) \<longrightarrow>
      fst (SelectorCV_body ext n2 (self, None)) = Inr (Some m2, s) \<longrightarrow>
      fst (SelectorCV_select ext self) \<noteq> Some m2 \<and>
      (fgt s NegInf \<longrightarrow>
       (\<forall>k mo' s'. min_n_components self \<le> k \<and> k \<le> max_n_components self \<and> k \<noteq> n1 \<and> k \<noteq> n2 \<longrightarrow>
            fst (SelectorCV_body ext k (self, None)) = Inr (mo', s') \<longrightarrow> fgt s s') \<longrightarrow>
       fst (SelectorCV_select ext self) = Some m1))"
proof (intro conjI impI)
  show "py_max_key best cand = best \<or> fgt (snd cand) (snd best) \<and> py_max_key best cand = cand"
    by (simp add: py_max_key_def)
next
  assume n: "min_n_components self \<le> n1 \<and> n1 < n2 \<and> n2 \<le> max_n_components self"
    and c1: "fst (SelectorCV_body ext n1 (self, None)) = Inr (Some m1, s)"
    and c2: "fst (SelectorCV_body ext n2 (self, None)) = Inr (Some m2, s)"
  show "fst (SelectorCV_select ext self) \<noteq> Some m2"
    using n c1 c2 SelectorCV_tie_excluded [of self n1 n2 ext "Some m1" s m2] by blast
next
  assume n: "min_n_components self \<le> n1 \<and> n1 < n2 \<and> n2 \<le> max_n_components self"
    and c1: "fst (SelectorCV_body ext n1 (self, None)) = Inr (Some m1, s)"
    and c2: "fst (SelectorCV_body ext n2 (self, None)) = Inr (Some m2, s)"
    and fin: "fgt s NegInf"
    and others: "\<forall>k mo' s'. min_n_components self \<le> k \<and> k \<le> max_n_components self \<and> k \<noteq> n1 \<and> k \<noteq> n2 \<longrightarrow>
            fst (SelectorCV_body ext k (self, None)) = Inr (mo', s') \<longrightarrow> fgt s s'"
  show "fst (SelectorCV_select ext self) = Some m1"
  proof (rule SelectorCV_first_best [OF _ _ c1 fin])
    show "min_n_components self \<le> n1" using n by simp
    show "n1 \<le> max_n_components self" using n by simp
    show "\<forall>k mo' s'. min_n_components self \<le> k \<and> k < n1 \<longrightarrow>
            fst (SelectorCV_body ext k (self, None)) = Inr (mo', s') \<longrightarrow> fgt s s'"
    proof (intro allI impI)
      fix k mo' s' assume k: "min_n_components self \<le> k \<and> k < n1"
        and b: "fst (SelectorCV_body ext k (self, None)) = Inr (mo', s')"
      have "min_n_components self \<le> k \<and> k \<le> max_n_components self \<and> k \<noteq> n1 \<and> k \<noteq> n2"
        using k n by simp
      then show "fgt s s'" using others b by blast
    qed
    show "\<forall>k mo' s'. n1 < k \<and> k \<le> max_n_components self \<longrightarrow>
            fst (SelectorCV_body ext k (self, None)) = Inr (mo', s') \<longrightarrow> fgt s s' \<or> s' = s"
    proof (intro allI impI)
      fix k mo' s' assume k: "n1 < k \<and> k \<le> max_n_components self"
        and b: "fst (SelectorCV_body ext k (self, None)) = Inr (mo', s')"
      show "fgt s s' \<or> s' = s"
      proof (cases "k = n2")
        case True
        then show ?thesis using b c2 by simp
      next
        case False
        then have "min_n_components self \<le> k \<and> k \<le> max_n_components self \<and> k \<noteq> n1 \<and> k \<noteq> n2"
          using k n by simp
        then show ?thesis using others b by blast
      qed
    qed
  qed
qed

text \<open>CHAIR has two sequences and takes the path without folds; again the tie goes to 2 states.\<close>

lemma chair_CV_body:
  "1 \<le> n \<Longrightarrow> fst (SelectorCV_body (demo_externals flat_scores) n (chair_selector 3 2 3, None)) =
     Inr (Some (demo_model n), Fin (- 10))"
  by (simp add: SelectorCV_body_def base_model_def Let_def demo_defs)

theorem SelectorCV_first_wins_witness:
  "fst (SelectorCV_body (demo_externals flat_scores) 2 (chair_selector 3 2 3, None)) =
     Inr (Some (demo_model 2), Fin (- 10)) \<and>
   fst (SelectorCV_body (demo_externals flat_scores) 3 (chair_selector 3 2 3, None)) =
     Inr (Some (demo_model 3), Fin (- 10)) \<and>
   fst (SelectorCV_select (demo_externals flat_scores) (chair_selector 3 2 3)) = Some (demo_model 2)"
proof -
  have rng: "min_n_components (chair_selector 3 2 3) \<le> 2 \<and> (2::int) < 3 \<and>
             3 \<le> max_n_components (chair_selector 3 2 3)"
    by (simp add: chair_selector_def)
  have none: "\<forall>k mo' s'. min_n_components (chair_selector 3 2 3) \<le> k \<and>
                k \<le> max_n_components (chair_selector 3 2 3) \<and> k \<noteq> 2 \<and> k \<noteq> 3 \<longrightarrow>
                fst (SelectorCV_body (demo_externals flat_scores) k (chair_selector 3 2 3, None)) = Inr (mo', s') \<longrightarrow>
                fgt (Fin (- 10)) s'"
    by (auto simp: chair_selector_def)
  have "fst (SelectorCV_select (demo_externals flat_scores) (chair_selector 3 2 3)) = Some (demo_model 2)"
    using SelectorCV_first_wins [where ext = "demo_externals flat_scores" and self = "chair_selector 3 2 3"
        and ?n1.0 = 2 and ?n2.0 = 3 and ?m1.0 = "demo_model 2" and ?m2.0 = "demo_model 3"
        and s = "Fin (- 10)", THEN conjunct2]
      rng chair_CV_body [of 2] chair_CV_body [of 3] none
    by simp
  then show ?thesis using chair_CV_body [of 2] chair_CV_body [of 3] by simp
qed

subsection \<open>C3: the state count of the model returned\<close>

text \<open>
  C3 says that each of the four strategies, on an item with one trainable state count
  in the configured range, returns that candidate or \<^verbatim>\<open>None\<close>, and never a model
  whose state count lies outside the configured search range. The constant selector
  does not look at the range at all: it fits \<^verbatim>\<open>n_constant\<close> states. With the range
  from 5 to 6, where only 5 states can be trained in the range, and
  \<^verbatim>\<open>n_constant = 3\<close>, it returns the model with 3 states.
\<close>

theorem SelectorConstant_outside_range_counterexample:
  "SelectorConstant_select (demo_externals (scores_at [3, 5])) (book_selector 3 5 6) = Some (demo_model 3) \<and>
   n_components (demo_model 3) = 3 \<and>
   min_n_components (book_selector 3 5 6) = 5 \<and>
   max_n_components (book_selector 3 5 6) = 6 \<and>
   base_model (demo_externals (scores_at [3, 5])) (book_selector 3 5 6) 5 = Some (demo_model 5) \<and>
   base_model (demo_externals (scores_at [3, 5])) (book_selector 3 5 6) 6 = None"
  by (simp add: SelectorConstant_select_def base_model_def demo_defs)

text \<open>
  C3 as amended: the BIC and DIC selectors return \<^verbatim>\<open>None\<close> or the model that
  \<^verbatim>\<open>base_model\<close> fitted for a state count \<open>n\<close> with \<open>min \<le> n < max\<close>; the
  cross-validated selector returns \<^verbatim>\<open>None\<close> or a model fitted with \<open>n\<close> states for
  some \<open>min \<le> n \<le> max\<close>; so with one trainable state count \<open>k\<close> in the range each
  returns \<^verbatim>\<open>None\<close> or the candidate for \<open>k\<close>. The constant selector returns
  \<^verbatim>\<open>None\<close> or the model fitted for \<^verbatim>\<open>n_constant\<close> states, whatever the range.
\<close>

theorem select_state_count:
  "(SelectorConstant_select ext self = Some m \<longrightarrow>
      n_components m = n_constant self \<and> base_model ext self (n_constant self) = Some m) \<and>
   (SelectorBIC_select ext self = Some m \<longrightarrow>
      min_n_components self \<le> n_components m \<and> n_components m < max_n_components self \<and>
      base_model ext self (n_components m) = Some m) \<and>
   (SelectorDIC_select ext self = Some m \<longrightarrow>
      min_n_components self \<le> n_components m \<and> n_components m < max_n_components self \<and>
      base_model ext self (n_components m) = Some m) \<and>
   (fst (SelectorCV_select ext self) = Some m \<longrightarrow>
      min_n_components self \<le> n_components m \<and> n_components m \<le> max_n_components self \<and>
      (\<exists>x l. hmm_fit ext (n_components m) (random_state self) x l = Some (fitted m))) \<and>
   ((\<forall>n. min_n_components self \<le> n \<and> n < max_n_components self \<and> n \<noteq> k \<longrightarrow>
         base_model ext self n = None) \<longrightarrow>
      (SelectorBIC_select ext self = None \<or> SelectorBIC_select ext self = base_model ext self k) \<and>
      (SelectorDIC_select ext self = None \<or> SelectorDIC_select ext self = base_model ext self k)) \<and>
   ((\<forall>n x l. min_n_components self \<le> n \<and> n \<le> max_n_components self \<and> n \<noteq> k \<longrightarrow>
         hmm_fit ext n (random_state self) x l = None) \<longrightarrow>
      (fst (SelectorCV_select ext self) = None \<or>
       (\<exists>mc. fst (SelectorCV_select ext self) = Some mc \<and> n_components mc = k)))"
proof -
  have const: "n_components m' = n_constant self \<and> base_model ext self (n_constant self) = Some m'"
    if "SelectorConstant_select ext self = Some m'" for m'
    using that base_model_Some [of ext self "n_constant self" m']
    by (simp add: SelectorConstant_select_def Let_def)
  have bic: "min_n_components self \<le> n_components m' \<and> n_components m' < max_n_components self \<and>
      base_model ext self (n_components m') = Some m'"
    if sel: "SelectorBIC_select ext self = Some m'" for m'
  proof -
    obtain n s where n: "n \<in> set (py_range (min_n_components self) (max_n_components self))"
      and b: "SelectorBIC_body ext self n = Inr (m', s)"
      using SelectorBIC_select_member [OF sel] by blast
    have bm: "base_model ext self n = Some m'" using b by (rule SelectorBIC_body_Inr)
    then have "n_components m' = n" using base_model_Some by blast
    then show ?thesis using n bm by (simp add: set_py_range)
  qed
  have dic: "min_n_components self \<le> n_components m' \<and> n_components m' < max_n_components self \<and>
      base_model ext self (n_components m') = Some m'"
    if sel: "SelectorDIC_select ext self = Some m'" for m'
  proof -
    obtain n s where n: "n \<in> set (py_range (min_n_components self) (max_n_components self))"
      and b: "SelectorDIC_body ext self n = Inr (m', s)"
      using SelectorDIC_select_member [OF sel] by blast
    have bm: "base_model ext self n = Some m'" using b by (rule SelectorDIC_body_Inr)
    then have "n_components m' = n" using base_model_Some by blast
    then show ?thesis using n bm by (simp add: set_py_range)
  qed
  have cv: "min_n_components self \<le> n_components m' \<and> n_components m' \<le> max_n_components self \<and>
      (\<exists>x l. hmm_fit ext (n_components m') (random_state self) x l = Some (fitted m'))"
    if sel: "fst (SelectorCV_select ext self) = Some m'" for m'
  proof -
    obtain n s where n: "n \<in> set (py_range (min_n_components self) (max_n_components self + 1))"
      and b: "cv_cand ext self n = Inr (Some m', s)"
      using SelectorCV_select_member [OF sel] by blast
    have "n_components m' = n \<and> (\<exists>x l. hmm_fit ext n (random_state self) x l = Some (fitted m'))"
      using b by (rule cv_cand_model)
    then show ?thesis using n by (auto simp: set_py_range)
  qed
  have one_bic: "SelectorBIC_select ext self = None \<or> SelectorBIC_select ext self = base_model ext self k"
    if h: "\<forall>n. min_n_components self \<le> n \<and> n < max_n_components self \<and> n \<noteq> k \<longrightarrow>
         base_model ext self n = None"
  proof (cases "SelectorBIC_select ext self")
    case None
    then show ?thesis by simp
  next
    case (Some m')
    from bic [OF Some] h have "n_components m' = k" by force
    then show ?thesis using bic [OF Some] Some by simp
  qed
  have one_dic: "SelectorDIC_select ext self = None \<or> SelectorDIC_select ext self = base_model ext self k"
    if h: "\<forall>n. min_n_components self \<le> n \<and> n < max_n_components self \<and> n \<noteq> k \<longrightarrow>
         base_model ext self n = None"
  proof (cases "SelectorDIC_select ext self")
    case None
    then show ?thesis by simp
  next
    case (Some m')
    from dic [OF Some] h have "n_components m' = k" by force
    then show ?thesis using dic [OF Some] Some by simp
  qed
  have one_cv: "fst (SelectorCV_select ext self) = None \<or>
       (\<exists>mc. fst (SelectorCV_select ext self) = Some mc \<and> n_components mc = k)"
    if h: "\<forall>n x l. min_n_components self \<le> n \<and> n \<le> max_n_components self \<and> n \<noteq> k \<longrightarrow>
         hmm_fit ext n (random_state self) x l = None"
  proof (cases "fst (SelectorCV_select ext self)")
    case None
    then show ?thesis by simp
  next
    case (Some m')
    from cv [OF Some] h have "n_components m' = k" by force
    then show ?thesis using Some by simp
  qed
  show ?thesis
    using const [of m] bic [of m] dic [of m] cv [of m] one_bic one_dic one_cv by blast
qed


text \<open>On the corpus of the counterexample the three searching selectors return the model with 5 states.\<close>

lemma demo35_BIC: "SelectorBIC_select (demo_externals (scores_at [3, 5])) (book_selector 3 5 6) = Some (demo_model 5)"
  by (simp add: SelectorBIC_select_def SelectorBIC_step_def SelectorBIC_body_def base_model_def
      py_range_def np_log_def float_of_int_def demo_defs)

lemma demo35_DIC: "SelectorDIC_select (demo_externals (scores_at [3, 5])) (book_selector 3 5 6) = Some (demo_model 5)"
  by (simp add: SelectorDIC_select_def SelectorDIC_step_def SelectorDIC_body_def base_model_def
      py_range_def dict_keys_def py_sum_def fsub_def flt_def float_of_int_def demo_defs)

lemma demo35_CV: "fst (SelectorCV_select (demo_externals (scores_at [3, 5])) (book_selector 3 5 6)) = Some (demo_model 5)"
  by (simp add: SelectorCV_select_def SelectorCV_step_def SelectorCV_body_def SelectorCV_fold_def
      base_model_def py_range_def np_mean_def py_max_key_def Let_def demo_defs)

lemma demo35_Constant: "SelectorConstant_select (demo_externals (scores_at [3, 5])) (book_selector 3 5 6) = Some (demo_model 3)"
  by (simp add: SelectorConstant_select_def base_model_def demo_defs)

theorem select_state_count_witness:
  "SelectorBIC_select (demo_externals (scores_at [3, 5])) (book_selector 3 5 6) = Some (demo_model 5) \<and>
   SelectorDIC_select (demo_externals (scores_at [3, 5])) (book_selector 3 5 6) = Some (demo_model 5) \<and>
   fst (SelectorCV_select (demo_externals (scores_at [3, 5])) (book_selector 3 5 6)) = Some (demo_model 5) \<and>
   min_n_components (book_selector 3 5 6) \<le> n_components (demo_model 5) \<and>
   n_components (demo_model 5) < max_n_components (book_selector 3 5 6) \<and>
   base_model (demo_externals (scores_at [3, 5])) (book_selector 3 5 6) (n_components (demo_model 5)) =
     Some (demo_model 5) \<and>
   SelectorConstant_select (demo_externals (scores_at [3, 5])) (book_selector 3 5 6) = Some (demo_model 3) \<and>
   n_components (demo_model 3) = n_constant (book_selector 3 5 6)"
  using select_state_count [of "demo_externals (scores_at [3, 5])" "book_selector 3 5 6" "demo_model 5" 5]
    select_state_count [of "demo_externals (scores_at [3, 5])" "book_selector 3 5 6" "demo_model 3" 3]
    demo35_BIC demo35_DIC demo35_CV demo35_Constant
  by simp

subsection \<open>C4: the state counts each selector evaluates\<close>











subsection \<open>C5: the BIC score and its minimum\<close>

text \<open>
  C5: for a candidate with \<open>n\<close> states that was fitted and scored, the BIC selector
  takes \<open>p = n\<^sup>2 + 2 * n * numFeatures - 1\<close> and the score
  \<open>-2 * logL + p * log(numSequences)\<close>, with \<open>logL\<close> the model's log-likelihood on
  the item's own data and \<open>numSequences\<close> the number of segment lengths, and
  \<^verbatim>\<open>select\<close> returns the candidate with the least BIC among those evaluated. The
  theorem gives the score as the code computes it on floats, its value on a real
  log-likelihood and at least one segment, that the model returned is a candidate of
  the range which no evaluated candidate undercuts (on real scores: its BIC is at
  most theirs), and that a model is returned as soon as one candidate has a score
  below the sentinel \<open>+inf\<close>.
\<close>

theorem SelectorBIC_minimum:
  "(base_model ext self n = Some m \<longrightarrow> hmm_score ext m (X self) (lengths self) = Some logL \<longrightarrow>
      SelectorBIC_body ext self n =
        Inr (m, fadd (fmul (Fin (- 2)) logL)
                  (fmul (Fin (real_of_int (n ^ 2 + 2 * n * hmm_n_features ext (fitted m) - 1)))
                        (np_log (length (lengths self)))))) \<and>
   (base_model ext self n = Some m \<longrightarrow> hmm_score ext m (X self) (lengths self) = Some (Fin l) \<longrightarrow>
      lengths self \<noteq> [] \<longrightarrow>
      SelectorBIC_body ext self n =
        Inr (m, Fin (- 2 * l +
                  real_of_int (n ^ 2 + 2 * n * hmm_n_features ext (fitted m) - 1) *
                  ln (real (length (lengths self)))))) \<and>
   (SelectorBIC_select ext self = Some m' \<longrightarrow>
      (\<exists>k s. min_n_components self \<le> k \<and> k < max_n_components self \<and>
           SelectorBIC_body ext self k = Inr (m', s) \<and>
           (\<forall>j mj sj. min_n_components self \<le> j \<and> j < max_n_components self \<longrightarrow>
               SelectorBIC_body ext self j = Inr (mj, sj) \<longrightarrow>
               \<not> fgt s sj \<and> (\<forall>b bj. s = Fin b \<longrightarrow> sj = Fin bj \<longrightarrow> b \<le> bj)))) \<and>
   (min_n_components self \<le> k0 \<and> k0 < max_n_components self \<longrightarrow>
      SelectorBIC_body ext self k0 = Inr (m0, s0) \<longrightarrow> fgt PosInf s0 \<longrightarrow>
      SelectorBIC_select ext self \<noteq> None)"
proof (intro conjI impI)
  assume "base_model ext self n = Some m" "hmm_score ext m (X self) (lengths self) = Some logL"
  then show "SelectorBIC_body ext self n =
        Inr (m, fadd (fmul (Fin (- 2)) logL)
                  (fmul (Fin (real_of_int (n ^ 2 + 2 * n * hmm_n_features ext (fitted m) - 1)))
                        (np_log (length (lengths self)))))"
    by (rule SelectorBIC_body_value)
next
  assume "base_model ext self n = Some m" "hmm_score ext m (X self) (lengths self) = Some (Fin l)"
    "lengths self \<noteq> []"
  then show "SelectorBIC_body ext self n =
        Inr (m, Fin (- 2 * l +
                  real_of_int (n ^ 2 + 2 * n * hmm_n_features ext (fitted m) - 1) *
                  ln (real (length (lengths self)))))"
    using SelectorBIC_body_value [of ext self n m "Fin l"] by (simp add: np_log_def)
next
  assume "SelectorBIC_select ext self = Some m'"
  from SelectorBIC_optimal [OF this]
  obtain k s where k: "min_n_components self \<le> k \<and> k < max_n_components self"
    "SelectorBIC_body ext self k = Inr (m', s)"
    "\<forall>j mj sj. min_n_components self \<le> j \<and> j < max_n_components self \<longrightarrow>
               SelectorBIC_body ext self j = Inr (mj, sj) \<longrightarrow> \<not> fgt s sj"
    by blast
  have "\<forall>j mj sj. min_n_components self \<le> j \<and> j < max_n_components self \<longrightarrow>
               SelectorBIC_body ext self j = Inr (mj, sj) \<longrightarrow>
               \<not> fgt s sj \<and> (\<forall>b bj. s = Fin b \<longrightarrow> sj = Fin bj \<longrightarrow> b \<le> bj)"
  proof (intro allI impI conjI)
    fix j mj sj b bj
    assume j: "min_n_components self \<le> j \<and> j < max_n_components self"
      "SelectorBIC_body ext self j = Inr (mj, sj)"
    then show n: "\<not> fgt s sj" using k(3) by blast
    assume "s = Fin b" "sj = Fin bj"
    then show "b \<le> bj" using n by simp
  qed
  then show "\<exists>k s. min_n_components self \<le> k \<and> k < max_n_components self \<and>
           SelectorBIC_body ext self k = Inr (m', s) \<and>
           (\<forall>j mj sj. min_n_components self \<le> j \<and> j < max_n_components self \<longrightarrow>
               SelectorBIC_body ext self j = Inr (mj, sj) \<longrightarrow>
               \<not> fgt s sj \<and> (\<forall>b bj. s = Fin b \<longrightarrow> sj = Fin bj \<longrightarrow> b \<le> bj))"
    using k(1,2) by blast
next
  assume "min_n_components self \<le> k0 \<and> k0 < max_n_components self"
    "SelectorBIC_body ext self k0 = Inr (m0, s0)" "fgt PosInf s0"
  then show "SelectorBIC_select ext self \<noteq> None"
    using SelectorBIC_some [of self k0 ext m0 s0] by blast
qed


text \<open>
  BOOK with log-likelihood \<open>-10\<close> for every state count, two features and three
  segments: the candidate with 3 states has BIC \<open>20 + 20 * ln 3\<close>, and the model with
  2 states is returned, whose score is not above it.
\<close>

lemma flat_BIC_select:
  "SelectorBIC_select (demo_externals flat_scores) (book_selector 3 2 4) = Some (demo_model 2)"
  by (simp add: SelectorBIC_select_def SelectorBIC_step_def SelectorBIC_body_def base_model_def
      py_range_def np_log_def float_of_int_def demo_defs)

lemma flat_base_model3:
  "base_model (demo_externals flat_scores) (book_selector 3 2 4) 3 = Some (demo_model 3)"
  by (simp add: base_model_def demo_defs)

lemma flat_score3:
  "hmm_score (demo_externals flat_scores) (demo_model 3) (X (book_selector 3 2 4))
     (lengths (book_selector 3 2 4)) = Some (Fin (- 10))"
  by (simp add: demo_defs)

theorem SelectorBIC_minimum_witness:
  "SelectorBIC_body (demo_externals flat_scores) (book_selector 3 2 4) 3 =
     Inr (demo_model 3, Fin (20 + 20 * ln 3)) \<and>
   SelectorBIC_select (demo_externals flat_scores) (book_selector 3 2 4) = Some (demo_model 2) \<and>
   (\<exists>k s. 2 \<le> k \<and> k < 4 \<and>
       SelectorBIC_body (demo_externals flat_scores) (book_selector 3 2 4) k = Inr (demo_model 2, s) \<and>
       \<not> fgt s (Fin (20 + 20 * ln 3)))"
proof -
  note w = SelectorBIC_minimum [where ext = "demo_externals flat_scores" and self = "book_selector 3 2 4"
      and n = 3 and m = "demo_model 3" and l = "- 10" and m' = "demo_model 2"]
  have ne: "lengths (book_selector 3 2 4) \<noteq> []" by (simp add: book_selector_def)
  have b3: "SelectorBIC_body (demo_externals flat_scores) (book_selector 3 2 4) 3 =
     Inr (demo_model 3, Fin (20 + 20 * ln 3))"
    using w [THEN conjunct2, THEN conjunct1] flat_base_model3 flat_score3 ne
    by (simp add: demo_defs)
  have rng: "min_n_components (book_selector 3 2 4) = 2 \<and> max_n_components (book_selector 3 2 4) = 4"
    by (simp add: book_selector_def)
  obtain k s where k: "2 \<le> k \<and> k < 4"
    "SelectorBIC_body (demo_externals flat_scores) (book_selector 3 2 4) k = Inr (demo_model 2, s)"
    and opt: "\<forall>j mj sj. 2 \<le> j \<and> j < 4 \<longrightarrow>
        SelectorBIC_body (demo_externals flat_scores) (book_selector 3 2 4) j = Inr (mj, sj) \<longrightarrow>
        \<not> fgt s sj \<and> (\<forall>b bj. s = Fin b \<longrightarrow> sj = Fin bj \<longrightarrow> b \<le> bj)"
    using w [THEN conjunct2, THEN conjunct2, THEN conjunct1] flat_BIC_select rng by auto
  have "(2::int) \<le> 3 \<and> (3::int) < 4" by simp
  with opt b3 have "\<not> fgt s (Fin (20 + 20 * ln 3))" by blast
  then show ?thesis using b3 flat_BIC_select k by blast
qed

subsection \<open>C6: the DIC score and its maximum\<close>

text \<open>
  C6: for a candidate that was evaluated, the DIC selector computes
  \<open>logL - (1 / (M - 1)) * (sumOverAll - logL)\<close>, where \<open>logL\<close> is the candidate's
  log-likelihood on the target item's own flattened data, \<open>sumOverAll\<close> the sum of
  its scores over every vocabulary item of the corpus, the target included, and \<open>M\<close>
  the vocabulary size; \<^verbatim>\<open>select\<close> returns the candidate with the greatest DIC
  among those evaluated. The theorem gives the score as computed on floats, its value
  when the scores on all words are real numbers (the sum runs over all keys of the
  corpus), that the target word is one of these keys and is looked up to the very
  data \<open>logL\<close> is computed on when the instance comes from \<^verbatim>\<open>__init__\<close>, that the
  model returned is a candidate of the range which no evaluated candidate exceeds, and
  that a model is returned as soon as one candidate scores above the sentinel
  \<open>-inf\<close>. The vocabulary has more or fewer than one word there; a single word is C2.
\<close>

theorem SelectorDIC_maximum:
  "(base_model ext self n = Some m \<longrightarrow> hmm_score ext m (X self) (lengths self) = Some logL \<longrightarrow>
      score_words ext (hwords self) m (dict_keys (words self)) = Inr vs \<longrightarrow>
      length (dict_keys (words self)) \<noteq> 1 \<longrightarrow>
      SelectorDIC_body ext self n =
        Inr (m, fsub logL (fmul (Fin (1 / (real (length (dict_keys (words self))) - 1)))
                                (fsub (py_sum vs) logL)))) \<and>
   (base_model ext self n = Some m \<longrightarrow> hmm_score ext m (X self) (lengths self) = Some (Fin l) \<longrightarrow>
      (\<forall>w\<in>set (dict_keys (words self)).
          \<exists>x ls. map_of (hwords self) w = Some (x, ls) \<and> hmm_score ext m x ls = Some (Fin (ll w))) \<longrightarrow>
      length (dict_keys (words self)) \<noteq> 1 \<longrightarrow>
      SelectorDIC_body ext self n =
        Inr (m, Fin (l - 1 / (real (length (dict_keys (words self))) - 1) *
                          ((\<Sum>w\<leftarrow>dict_keys (words self). ll w) - l)))) \<and>
   (ModelSelector_init aws axl word nc lo hi seed verb = Inr self \<longrightarrow>
      this_word self \<in> set (dict_keys (words self)) \<and>
      map_of (hwords self) (this_word self) = Some (X self, lengths self)) \<and>
   (SelectorDIC_select ext self = Some m' \<longrightarrow>
      (\<exists>k s. min_n_components self \<le> k \<and> k < max_n_components self \<and>
           SelectorDIC_body ext self k = Inr (m', s) \<and>
           (\<forall>j mj sj. min_n_components self \<le> j \<and> j < max_n_components self \<longrightarrow>
               SelectorDIC_body ext self j = Inr (mj, sj) \<longrightarrow>
               \<not> fgt sj s \<and> (\<forall>b bj. s = Fin b \<longrightarrow> sj = Fin bj \<longrightarrow> bj \<le> b)))) \<and>
   (min_n_components self \<le> k0 \<and> k0 < max_n_components self \<longrightarrow>
      SelectorDIC_body ext self k0 = Inr (m0, s0) \<longrightarrow> fgt s0 NegInf \<longrightarrow>
      SelectorDIC_select ext self \<noteq> None)"
proof (intro conjI impI)
  assume "base_model ext self n = Some m" "hmm_score ext m (X self) (lengths self) = Some logL"
    "score_words ext (hwords self) m (dict_keys (words self)) = Inr vs"
    "length (dict_keys (words self)) \<noteq> 1"
  then show "SelectorDIC_body ext self n =
        Inr (m, fsub logL (fmul (Fin (1 / (real (length (dict_keys (words self))) - 1)))
                                (fsub (py_sum vs) logL)))"
    by (rule SelectorDIC_body_value)
next
  assume "base_model ext self n = Some m" "hmm_score ext m (X self) (lengths self) = Some (Fin l)"
    "\<forall>w\<in>set (dict_keys (words self)).
          \<exists>x ls. map_of (hwords self) w = Some (x, ls) \<and> hmm_score ext m x ls = Some (Fin (ll w))"
    "length (dict_keys (words self)) \<noteq> 1"
  then show "SelectorDIC_body ext self n =
        Inr (m, Fin (l - 1 / (real (length (dict_keys (words self))) - 1) *
                          ((\<Sum>w\<leftarrow>dict_keys (words self). ll w) - l)))"
    by (rule SelectorDIC_body_real)
next
  assume i: "ModelSelector_init aws axl word nc lo hi seed verb = Inr self"
  show "this_word self \<in> set (dict_keys (words self))"
    using ModelSelector_init_target [OF i] by simp
  show "map_of (hwords self) (this_word self) = Some (X self, lengths self)"
    using ModelSelector_init_target [OF i] by simp
next
  assume "SelectorDIC_select ext self = Some m'"
  from SelectorDIC_optimal [OF this]
  obtain k s where k: "min_n_components self \<le> k \<and> k < max_n_components self"
    "SelectorDIC_body ext self k = Inr (m', s)"
    "\<forall>j mj sj. min_n_components self \<le> j \<and> j < max_n_components self \<longrightarrow>
               SelectorDIC_body ext self j = Inr (mj, sj) \<longrightarrow> \<not> fgt sj s"
    by blast
  have "\<forall>j mj sj. min_n_components self \<le> j \<and> j < max_n_components self \<longrightarrow>
               SelectorDIC_body ext self j = Inr (mj, sj) \<longrightarrow>
               \<not> fgt sj s \<and> (\<forall>b bj. s = Fin b \<longrightarrow> sj = Fin bj \<longrightarrow> bj \<le> b)"
  proof (intro allI impI conjI)
    fix j mj sj b bj
    assume j: "min_n_components self \<le> j \<and> j < max_n_components self"
      "SelectorDIC_body ext self j = Inr (mj, sj)"
    then show n: "\<not> fgt sj s" using k(3) by blast
    assume "s = Fin b" "sj = Fin bj"
    then show "bj \<le> b" using n by simp
  qed
  then show "\<exists>k s. min_n_components self \<le> k \<and> k < max_n_components self \<and>
           SelectorDIC_body ext self k = Inr (m', s) \<and>
           (\<forall>j mj sj. min_n_components self \<le> j \<and> j < max_n_components self \<longrightarrow>
               SelectorDIC_body ext self j = Inr (mj, sj) \<longrightarrow>
               \<not> fgt sj s \<and> (\<forall>b bj. s = Fin b \<longrightarrow> sj = Fin bj \<longrightarrow> bj \<le> b))"
    using k(1,2) by blast
next
  assume "min_n_components self \<le> k0 \<and> k0 < max_n_components self"
    "SelectorDIC_body ext self k0 = Inr (m0, s0)" "fgt s0 NegInf"
  then show "SelectorDIC_select ext self \<noteq> None"
    using SelectorDIC_some [of self k0 ext m0 s0] by blast
qed


text \<open>
  BOOK in the corpus of two words, with scores that grow with the data: three states
  score \<open>-48\<close> on BOOK and \<open>-24\<close> on CHAIR, so the DIC is
  \<open>-48 - (-72 + 48) = -24\<close>; two states reach \<open>-30\<close>, and the model with three
  states is returned.
\<close>

lemma sized_base_model:
  "base_model (sized_externals rising_scores) (book_selector 3 2 4) 3 = Some (demo_model 3)"
  by (simp add: base_model_def demo_defs)

lemma sized_score:
  "hmm_score (sized_externals rising_scores) (demo_model 3) (X (book_selector 3 2 4))
     (lengths (book_selector 3 2 4)) = Some (Fin (- 48))"
  by (simp add: demo_defs)

lemma sized_words:
  "\<forall>w\<in>set (dict_keys (words (book_selector 3 2 4))).
     \<exists>x ls. map_of (hwords (book_selector 3 2 4)) w = Some (x, ls) \<and>
       hmm_score (sized_externals rising_scores) (demo_model 3) x ls =
         Some (Fin (if w = ''BOOK'' then - 48 else - 24))"
  by (simp add: dict_keys_def demo_defs)

lemma sized_body2:
  "SelectorDIC_body (sized_externals rising_scores) (book_selector 3 2 4) 2 = Inr (demo_model 2, Fin (- 30))"
  by (simp add: SelectorDIC_body_def base_model_def dict_keys_def py_sum_def fsub_def
      float_of_int_def demo_defs)

lemma sized_select:
  "SelectorDIC_select (sized_externals rising_scores) (book_selector 3 2 4) = Some (demo_model 3)"
  by (simp add: SelectorDIC_select_def SelectorDIC_step_def SelectorDIC_body_def base_model_def
      py_range_def dict_keys_def py_sum_def fsub_def flt_def float_of_int_def demo_defs)

lemma book_init:
  "ModelSelector_init demo_sequences demo_Xlengths ''BOOK'' 3 2 4 14 False = Inr (book_selector 3 2 4)"
  by (simp add: ModelSelector_init_def demo_defs)

theorem SelectorDIC_maximum_witness:
  "SelectorDIC_body (sized_externals rising_scores) (book_selector 3 2 4) 3 =
     Inr (demo_model 3, Fin (- 24)) \<and>
   this_word (book_selector 3 2 4) \<in> set (dict_keys (words (book_selector 3 2 4))) \<and>
   SelectorDIC_select (sized_externals rising_scores) (book_selector 3 2 4) = Some (demo_model 3) \<and>
   (\<exists>k s. 2 \<le> k \<and> k < 4 \<and>
       SelectorDIC_body (sized_externals rising_scores) (book_selector 3 2 4) k = Inr (demo_model 3, s) \<and>
       \<not> fgt (Fin (- 30)) s)"
proof -
  note w = SelectorDIC_maximum [where ext = "sized_externals rising_scores"
      and self = "book_selector 3 2 4" and n = 3 and m = "demo_model 3" and l = "- 48"
      and ll = "\<lambda>w. if w = ''BOOK'' then - 48 else - 24" and m' = "demo_model 3"
      and aws = demo_sequences and axl = demo_Xlengths and word = "''BOOK''" and nc = 3
      and lo = 2 and hi = 4 and seed = 14 and verb = False]
  have M: "length (dict_keys (words (book_selector 3 2 4))) \<noteq> 1"
    by (simp add: dict_keys_def demo_defs)
  have b3: "SelectorDIC_body (sized_externals rising_scores) (book_selector 3 2 4) 3 =
     Inr (demo_model 3, Fin (- 24))"
    using w [THEN conjunct2, THEN conjunct1] sized_base_model sized_score sized_words M
    by (simp add: dict_keys_def book_selector_def demo_sequences_def)
  have tw: "this_word (book_selector 3 2 4) \<in> set (dict_keys (words (book_selector 3 2 4)))"
    using w [THEN conjunct2, THEN conjunct2, THEN conjunct1] book_init by simp
  have rng: "min_n_components (book_selector 3 2 4) = 2 \<and> max_n_components (book_selector 3 2 4) = 4"
    by (simp add: book_selector_def)
  obtain k s where k: "2 \<le> k \<and> k < 4"
    "SelectorDIC_body (sized_externals rising_scores) (book_selector 3 2 4) k = Inr (demo_model 3, s)"
    and opt: "\<forall>j mj sj. 2 \<le> j \<and> j < 4 \<longrightarrow>
        SelectorDIC_body (sized_externals rising_scores) (book_selector 3 2 4) j = Inr (mj, sj) \<longrightarrow>
        \<not> fgt sj s \<and> (\<forall>b bj. s = Fin b \<longrightarrow> sj = Fin bj \<longrightarrow> bj \<le> b)"
    using w [THEN conjunct2, THEN conjunct2, THEN conjunct2, THEN conjunct1] sized_select rng by auto
  have "(2::int) \<le> 2 \<and> (2::int) < 4" by simp
  with opt sized_body2 have "\<not> fgt (Fin (- 30)) s" by blast
  then show ?thesis using b3 tw sized_select k by blast
qed

subsection \<open>C7: ties in the BIC and DIC selectors\<close>

text \<open>
  C7: in the BIC and DIC selectors a later candidate replaces the running best only on
  strict improvement, so of two candidates with identical scores the first met, the
  one with fewer states, is returned. The theorem has the step of each loop (the
  running best stays, or the candidate's score is strictly better and it takes over),
  and for two state counts \<open>n1 < n2\<close> of the range whose candidates tie at \<open>s\<close>:
  the model for \<open>n2\<close> is never the selection, and the model for \<open>n1\<close> is the
  selection whenever \<open>s\<close> beats the sentinel and every other candidate is strictly
  worse.
\<close>

theorem first_wins:
  "(SelectorBIC_step ext self best n = best \<or>
      (\<exists>m s'. SelectorBIC_body ext self n = Inr (m, s') \<and> fgt (snd best) s' \<and>
              SelectorBIC_step ext self best n = (Some m, s'))) \<and>
   (SelectorDIC_step ext self best n = best \<or>
      (\<exists>m s'. SelectorDIC_body ext self n = Inr (m, s') \<and> flt (snd best) s' \<and>
              SelectorDIC_step ext self best n = (Some m, s'))) \<and>
   (min_n_components self \<le> n1 \<and> n1 < n2 \<and> n2 < max_n_components self \<longrightarrow>
      SelectorBIC_body ext self n1 = Inr (m1, s) \<longrightarrow>
      SelectorBIC_body ext self n2 = Inr (m2, s) \<longrightarrow>
      SelectorBIC_select ext self \<noteq> Some m2 \<and>
      (fgt PosInf s \<longrightarrow>
       (\<forall>k m' s'. min_n_components self \<le> k \<and> k < max_n_components self \<and> k \<noteq> n1 \<and> k \<noteq> n2 \<longrightarrow>
            SelectorBIC_body ext self k = Inr (m', s') \<longrightarrow> fgt s' s) \<longrightarrow>
       SelectorBIC_select ext self = Some m1)) \<and>
   (min_n_components self \<le> n1 \<and> n1 < n2 \<and> n2 < max_n_components self \<longrightarrow>
      SelectorDIC_body ext self n1 = Inr (d1, t) \<longrightarrow>
      SelectorDIC_body ext self n2 = Inr (d2, t) \<longrightarrow>
      SelectorDIC_select ext self \<noteq> Some d2 \<and>
      (fgt t NegInf \<longrightarrow>
       (\<forall>k m' s'. min_n_components self \<le> k \<and> k < max_n_components self \<and> k \<noteq> n1 \<and> k \<noteq> n2 \<longrightarrow>
            SelectorDIC_body ext self k = Inr (m', s') \<longrightarrow> fgt t s') \<longrightarrow>
       SelectorDIC_select ext self = Some d1))"
proof (intro conjI impI)
  show "SelectorBIC_step ext self best n = best \<or>
      (\<exists>m s'. SelectorBIC_body ext self n = Inr (m, s') \<and> fgt (snd best) s' \<and>
              SelectorBIC_step ext self best n = (Some m, s'))"
    by (auto simp: SelectorBIC_step_def split: sum.splits)
  show "SelectorDIC_step ext self best n = best \<or>
      (\<exists>m s'. SelectorDIC_body ext self n = Inr (m, s') \<and> flt (snd best) s' \<and>
              SelectorDIC_step ext self best n = (Some m, s'))"
    by (auto simp: SelectorDIC_step_def split: sum.splits)
next
  assume n: "min_n_components self \<le> n1 \<and> n1 < n2 \<and> n2 < max_n_components self"
    and c1: "SelectorBIC_body ext self n1 = Inr (m1, s)"
    and c2: "SelectorBIC_body ext self n2 = Inr (m2, s)"
  show "SelectorBIC_select ext self \<noteq> Some m2"
    using n c1 c2 SelectorBIC_tie_excluded [of self n1 n2 ext m1 s m2] by blast
next
  assume n: "min_n_components self \<le> n1 \<and> n1 < n2 \<and> n2 < max_n_components self"
    and c1: "SelectorBIC_body ext self n1 = Inr (m1, s)"
    and c2: "SelectorBIC_body ext self n2 = Inr (m2, s)"
    and fin: "fgt PosInf s"
    and others: "\<forall>k m' s'. min_n_components self \<le> k \<and> k < max_n_components self \<and> k \<noteq> n1 \<and> k \<noteq> n2 \<longrightarrow>
            SelectorBIC_body ext self k = Inr (m', s') \<longrightarrow> fgt s' s"
  show "SelectorBIC_select ext self = Some m1"
  proof (rule SelectorBIC_first_best [OF _ _ c1 fin])
    show "min_n_components self \<le> n1" using n by simp
    show "n1 < max_n_components self" using n by simp
    show "\<forall>k m' s'. min_n_components self \<le> k \<and> k < n1 \<longrightarrow>
            SelectorBIC_body ext self k = Inr (m', s') \<longrightarrow> fgt s' s"
      using others n by (intro allI impI) (metis less_trans less_irrefl)
    show "\<forall>k m' s'. n1 < k \<and> k < max_n_components self \<longrightarrow>
            SelectorBIC_body ext self k = Inr (m', s') \<longrightarrow> fgt s' s \<or> s' = s"
    proof (intro allI impI)
      fix k m' s' assume k: "n1 < k \<and> k < max_n_components self"
        and b: "SelectorBIC_body ext self k = Inr (m', s')"
      show "fgt s' s \<or> s' = s"
      proof (cases "k = n2")
        case True
        then show ?thesis using b c2 by simp
      next
        case False
        then have "min_n_components self \<le> k \<and> k < max_n_components self \<and> k \<noteq> n1 \<and> k \<noteq> n2"
          using k n by simp
        then show ?thesis using others b by blast
      qed
    qed
  qed
next
  assume n: "min_n_components self \<le> n1 \<and> n1 < n2 \<and> n2 < max_n_components self"
    and c1: "SelectorDIC_body ext self n1 = Inr (d1, t)"
    and c2: "SelectorDIC_body ext self n2 = Inr (d2, t)"
  show "SelectorDIC_select ext self \<noteq> Some d2"
    using n c1 c2 SelectorDIC_tie_excluded [of self n1 n2 ext d1 t d2] by blast
next
  assume n: "min_n_components self \<le> n1 \<and> n1 < n2 \<and> n2 < max_n_components self"
    and c1: "SelectorDIC_body ext self n1 = Inr (d1, t)"
    and c2: "SelectorDIC_body ext self n2 = Inr (d2, t)"
    and fin: "fgt t NegInf"
    and others: "\<forall>k m' s'. min_n_components self \<le> k \<and> k < max_n_components self \<and> k \<noteq> n1 \<and> k \<noteq> n2 \<longrightarrow>
            SelectorDIC_body ext self k = Inr (m', s') \<longrightarrow> fgt t s'"
  show "SelectorDIC_select ext self = Some d1"
  proof (rule SelectorDIC_first_best [OF _ _ c1 fin])
    show "min_n_components self \<le> n1" using n by simp
    show "n1 < max_n_components self" using n by simp
    show "\<forall>k m' s'. min_n_components self \<le> k \<and> k < n1 \<longrightarrow>
            SelectorDIC_body ext self k = Inr (m', s') \<longrightarrow> fgt t s'"
      using others n by (intro allI impI) (metis less_trans less_irrefl)
    show "\<forall>k m' s'. n1 < k \<and> k < max_n_components self \<longrightarrow>
            SelectorDIC_body ext self k = Inr (m', s') \<longrightarrow> fgt t s' \<or> s' = t"
    proof (intro allI impI)
      fix k m' s' assume k: "n1 < k \<and> k < max_n_components self"
        and b: "SelectorDIC_body ext self k = Inr (m', s')"
      show "fgt t s' \<or> s' = t"
      proof (cases "k = n2")
        case True
        then show ?thesis using b c2 by simp
      next
        case False
        then have "min_n_components self \<le> k \<and> k < max_n_components self \<and> k \<noteq> n1 \<and> k \<noteq> n2"
          using k n by simp
        then show ?thesis using others b by blast
      qed
    qed
  qed
qed


text \<open>
  BOOK with the range from 2 to 4: under the BIC table both candidates score
  \<open>20 + 11 * ln 3\<close>, under the flat table both DIC scores are 0; each selector
  returns the model with 2 states.
\<close>

lemma bic_tie_body2:
  "SelectorBIC_body (demo_externals bic_tie_scores) (book_selector 3 2 4) 2 =
     Inr (demo_model 2, Fin (20 + 11 * ln 3))"
  by (simp add: SelectorBIC_body_def base_model_def np_log_def float_of_int_def demo_defs)

lemma bic_tie_body3:
  "SelectorBIC_body (demo_externals bic_tie_scores) (book_selector 3 2 4) 3 =
     Inr (demo_model 3, Fin (20 + 11 * ln 3))"
  by (simp add: SelectorBIC_body_def base_model_def np_log_def float_of_int_def demo_defs)

lemma flat_DIC_body2:
  "SelectorDIC_body (demo_externals flat_scores) (book_selector 3 2 4) 2 = Inr (demo_model 2, Fin 0)"
  by (simp add: SelectorDIC_body_def base_model_def dict_keys_def py_sum_def fsub_def
      float_of_int_def demo_defs)

lemma flat_DIC_body3:
  "SelectorDIC_body (demo_externals flat_scores) (book_selector 3 2 4) 3 = Inr (demo_model 3, Fin 0)"
  by (simp add: SelectorDIC_body_def base_model_def dict_keys_def py_sum_def fsub_def
      float_of_int_def demo_defs)

theorem first_wins_witness:
  "SelectorBIC_body (demo_externals bic_tie_scores) (book_selector 3 2 4) 2 =
     Inr (demo_model 2, Fin (20 + 11 * ln 3)) \<and>
   SelectorBIC_body (demo_externals bic_tie_scores) (book_selector 3 2 4) 3 =
     Inr (demo_model 3, Fin (20 + 11 * ln 3)) \<and>
   SelectorBIC_select (demo_externals bic_tie_scores) (book_selector 3 2 4) = Some (demo_model 2) \<and>
   SelectorDIC_body (demo_externals flat_scores) (book_selector 3 2 4) 2 = Inr (demo_model 2, Fin 0) \<and>
   SelectorDIC_body (demo_externals flat_scores) (book_selector 3 2 4) 3 = Inr (demo_model 3, Fin 0) \<and>
   SelectorDIC_select (demo_externals flat_scores) (book_selector 3 2 4) = Some (demo_model 2)"
proof -
  have rng: "min_n_components (book_selector 3 2 4) \<le> 2 \<and> (2::int) < 3 \<and>
             3 < max_n_components (book_selector 3 2 4)"
    by (simp add: book_selector_def)
  have noneb: "\<forall>k m' s'. min_n_components (book_selector 3 2 4) \<le> k \<and>
                k < max_n_components (book_selector 3 2 4) \<and> k \<noteq> 2 \<and> k \<noteq> 3 \<longrightarrow>
                SelectorBIC_body (demo_externals bic_tie_scores) (book_selector 3 2 4) k = Inr (m', s') \<longrightarrow>
                fgt s' (Fin (20 + 11 * ln 3))"
    by (auto simp: book_selector_def)
  have noned: "\<forall>k m' s'. min_n_components (book_selector 3 2 4) \<le> k \<and>
                k < max_n_components (book_selector 3 2 4) \<and> k \<noteq> 2 \<and> k \<noteq> 3 \<longrightarrow>
                SelectorDIC_body (demo_externals flat_scores) (book_selector 3 2 4) k = Inr (m', s') \<longrightarrow>
                fgt (Fin 0) s'"
    by (auto simp: book_selector_def)
  have bic: "SelectorBIC_select (demo_externals bic_tie_scores) (book_selector 3 2 4) = Some (demo_model 2)"
    using first_wins [where ext = "demo_externals bic_tie_scores" and self = "book_selector 3 2 4"
        and ?n1.0 = 2 and ?n2.0 = 3 and ?m1.0 = "demo_model 2" and ?m2.0 = "demo_model 3"
        and s = "Fin (20 + 11 * ln 3)", THEN conjunct2, THEN conjunct2, THEN conjunct1]
      rng bic_tie_body2 bic_tie_body3 noneb
    by simp
  have dic: "SelectorDIC_select (demo_externals flat_scores) (book_selector 3 2 4) = Some (demo_model 2)"
    using first_wins [where ext = "demo_externals flat_scores" and self = "book_selector 3 2 4"
        and ?n1.0 = 2 and ?n2.0 = 3 and ?d1.0 = "demo_model 2" and ?d2.0 = "demo_model 3"
        and t = "Fin 0", THEN conjunct2, THEN conjunct2, THEN conjunct2]
      rng flat_DIC_body2 flat_DIC_body3 noned
    by simp
  show ?thesis using bic dic bic_tie_body2 bic_tie_body3 flat_DIC_body2 flat_DIC_body3 by simp
qed

subsection \<open>C8: every candidate fails\<close>

text \<open>
  C8 says that each of the four strategies returns \<^verbatim>\<open>None\<close> when every candidate
  state count of the search range fails to fit or to score. For the constant selector
  this does not hold: it never looks at the search range. For BOOK with the range
  \<open>5..6\<close>, \<^verbatim>\<open>n_constant = 3\<close> and a fitter that succeeds at three states only, no
  state count of the range can be fitted and the BIC, DIC and cross-validated selectors
  return \<^verbatim>\<open>None\<close>, yet \<^verbatim>\<open>SelectorConstant.select\<close> returns the model with three
  states.
\<close>

theorem SelectorConstant_all_fail_counterexample:
  "min_n_components (book_selector 3 5 6) = 5 \<and> max_n_components (book_selector 3 5 6) = 6 \<and>
   base_model (demo_externals (only_at 3)) (book_selector 3 5 6) 5 = None \<and>
   base_model (demo_externals (only_at 3)) (book_selector 3 5 6) 6 = None \<and>
   SelectorBIC_select (demo_externals (only_at 3)) (book_selector 3 5 6) = None \<and>
   SelectorDIC_select (demo_externals (only_at 3)) (book_selector 3 5 6) = None \<and>
   fst (SelectorCV_select (demo_externals (only_at 3)) (book_selector 3 5 6)) = None \<and>
   SelectorConstant_select (demo_externals (only_at 3)) (book_selector 3 5 6) = Some (demo_model 3)"
  by (simp add: SelectorConstant_select_def SelectorBIC_select_def SelectorBIC_step_def
      SelectorBIC_body_def SelectorDIC_select_def SelectorDIC_step_def SelectorDIC_body_def
      SelectorCV_select_def SelectorCV_step_def SelectorCV_body_def SelectorCV_fold_def
      base_model_def py_range_def Let_def demo_defs)

text \<open>
  C8 as amended: the BIC and DIC selectors return \<^verbatim>\<open>None\<close> when for every state
  count \<open>min \<le> n < max\<close> the fit on \<^verbatim>\<open>self.X, self.lengths\<close> fails, or when for every
  such state count the score on that data fails; the cross-validated selector returns
  \<^verbatim>\<open>None\<close> when for every state count \<open>min \<le> n \<le> max\<close> every fit fails, or every
  score fails; the constant selector returns \<^verbatim>\<open>None\<close> when the fit of \<^verbatim>\<open>n_constant\<close>
  states on \<^verbatim>\<open>self.X, self.lengths\<close> fails, whatever the search range. A failing
  candidate is caught on the spot and does not end the search: a fit that fails makes
  the candidate's evaluation end in a caught exception, each searching selector returns
  \<^verbatim>\<open>None\<close> when every evaluation of its range ends that way, and in general it
  returns what the same loop returns on the candidates that did not fail.
\<close>

theorem select_all_fail:
  "(base_model ext self (n_constant self) = None \<longrightarrow> SelectorConstant_select ext self = None) \<and>
   ((\<forall>n. min_n_components self \<le> n \<and> n < max_n_components self \<longrightarrow>
         (\<exists>e. SelectorBIC_body ext self n = Inl e)) \<longrightarrow>
      SelectorBIC_select ext self = None) \<and>
   ((\<forall>n. min_n_components self \<le> n \<and> n < max_n_components self \<longrightarrow>
         (\<exists>e. SelectorDIC_body ext self n = Inl e)) \<longrightarrow>
      SelectorDIC_select ext self = None) \<and>
   ((\<forall>n. min_n_components self \<le> n \<and> n \<le> max_n_components self \<longrightarrow>
         (\<exists>e. fst (SelectorCV_body ext n (self, None)) = Inl e)) \<longrightarrow>
      fst (SelectorCV_select ext self) = None) \<and>
   (base_model ext self k = None \<longrightarrow>
      SelectorBIC_body ext self k = Inl AttributeError \<and>
      SelectorDIC_body ext self k = Inl AttributeError) \<and>
   ((\<forall>x l. hmm_fit ext k (random_state self) x l = None) \<longrightarrow>
      (\<exists>e. fst (SelectorCV_body ext k (self, None)) = Inl e)) \<and>
   SelectorBIC_select ext self =
     fst (foldl (SelectorBIC_step ext self) (None, PosInf)
           (filter (\<lambda>n. \<not> isl (SelectorBIC_body ext self n))
              (py_range (min_n_components self) (max_n_components self)))) \<and>
   SelectorDIC_select ext self =
     fst (foldl (SelectorDIC_step ext self) (None, NegInf)
           (filter (\<lambda>n. \<not> isl (SelectorDIC_body ext self n))
              (py_range (min_n_components self) (max_n_components self)))) \<and>
   fst (SelectorCV_select ext self) =
     fst (fst (foldl (SelectorCV_step ext) ((None, NegInf), (self, None))
           (filter (\<lambda>n. \<not> isl (fst (SelectorCV_body ext n (self, None))))
              (py_range (min_n_components self) (max_n_components self + 1))))) \<and>
   (hmm_fit ext (n_constant self) (random_state self) (X self) (lengths self) = None \<longrightarrow>
      SelectorConstant_select ext self = None) \<and>
   ((\<forall>n. min_n_components self \<le> n \<and> n < max_n_components self \<longrightarrow>
         hmm_fit ext n (random_state self) (X self) (lengths self) = None) \<longrightarrow>
      SelectorBIC_select ext self = None \<and> SelectorDIC_select ext self = None) \<and>
   ((\<forall>n x l. min_n_components self \<le> n \<and> n \<le> max_n_components self \<longrightarrow>
         hmm_fit ext n (random_state self) x l = None) \<longrightarrow>
      fst (SelectorCV_select ext self) = None) \<and>
   ((\<forall>n p. min_n_components self \<le> n \<and> n < max_n_components self \<longrightarrow>
         hmm_score ext \<lparr>n_components = n, fitted = p\<rparr> (X self) (lengths self) = None) \<longrightarrow>
      SelectorBIC_select ext self = None \<and> SelectorDIC_select ext self = None) \<and>
   ((\<forall>n p x l. min_n_components self \<le> n \<and> n \<le> max_n_components self \<longrightarrow>
         hmm_score ext \<lparr>n_components = n, fitted = p\<rparr> x l = None) \<longrightarrow>
      fst (SelectorCV_select ext self) = None)"
proof -
  note old = all_fail_bodies [of ext self k]
  have n1: "SelectorConstant_select ext self = None"
    if "hmm_fit ext (n_constant self) (random_state self) (X self) (lengths self) = None"
    using that by (simp add: SelectorConstant_select_def base_model_def Let_def)
  have n2: "SelectorBIC_select ext self = None \<and> SelectorDIC_select ext self = None"
    if h: "\<forall>n. min_n_components self \<le> n \<and> n < max_n_components self \<longrightarrow>
         hmm_fit ext n (random_state self) (X self) (lengths self) = None"
  proof -
    have "base_model ext self n = None"
      if "min_n_components self \<le> n \<and> n < max_n_components self" for n
      using h that by (simp add: base_model_def)
    then have "\<forall>n. min_n_components self \<le> n \<and> n < max_n_components self \<longrightarrow>
         (\<exists>e. SelectorBIC_body ext self n = Inl e)"
      and "\<forall>n. min_n_components self \<le> n \<and> n < max_n_components self \<longrightarrow>
         (\<exists>e. SelectorDIC_body ext self n = Inl e)"
      by (simp_all add: SelectorBIC_body_unfit SelectorDIC_body_unfit)
    then show ?thesis using old by blast
  qed
  have n3: "fst (SelectorCV_select ext self) = None"
    if h: "\<forall>n x l. min_n_components self \<le> n \<and> n \<le> max_n_components self \<longrightarrow>
         hmm_fit ext n (random_state self) x l = None"
  proof -
    have "\<exists>e. fst (SelectorCV_body ext n (self, None)) = Inl e"
      if r: "min_n_components self \<le> n \<and> n \<le> max_n_components self" for n
    proof -
      have "\<forall>x l. hmm_fit ext n (random_state self) x l = None" using h r by blast
      then have "isl (cv_cand ext self n)" by (rule cv_cand_unfit)
      then show ?thesis by (simp add: cv_cand_def isl_def)
    qed
    then show ?thesis using old by blast
  qed
  have n4: "SelectorBIC_select ext self = None \<and> SelectorDIC_select ext self = None"
    if h: "\<forall>n p. min_n_components self \<le> n \<and> n < max_n_components self \<longrightarrow>
         hmm_score ext \<lparr>n_components = n, fitted = p\<rparr> (X self) (lengths self) = None"
  proof -
    have "\<forall>n. min_n_components self \<le> n \<and> n < max_n_components self \<longrightarrow>
         (\<exists>e. SelectorBIC_body ext self n = Inl e)"
      using h SelectorBIC_body_unscored [of ext _ self] by blast
    moreover have "\<forall>n. min_n_components self \<le> n \<and> n < max_n_components self \<longrightarrow>
         (\<exists>e. SelectorDIC_body ext self n = Inl e)"
      using h SelectorDIC_body_unscored [of ext _ self] by blast
    ultimately show ?thesis using old by blast
  qed
  have n5: "fst (SelectorCV_select ext self) = None"
    if h: "\<forall>n p x l. min_n_components self \<le> n \<and> n \<le> max_n_components self \<longrightarrow>
         hmm_score ext \<lparr>n_components = n, fitted = p\<rparr> x l = None"
  proof -
    have "\<exists>e. fst (SelectorCV_body ext n (self, None)) = Inl e"
      if r: "min_n_components self \<le> n \<and> n \<le> max_n_components self" for n
    proof -
      have "\<forall>p x l. hmm_score ext \<lparr>n_components = n, fitted = p\<rparr> x l = None" using h r by blast
      then have "isl (cv_cand ext self n)" by (rule cv_cand_unscored)
      then show ?thesis by (simp add: cv_cand_def isl_def)
    qed
    then show ?thesis using old by blast
  qed
  show ?thesis using old n1 n2 n3 n4 n5 by blast
qed

text \<open>
  For BOOK with the range \<open>2..4\<close>: with a fitter that never succeeds all four selectors
  return \<^verbatim>\<open>None\<close>; with a fitter that succeeds at three states only, the failure at
  two states is caught and BIC goes on to return the model with three states; with one
  that succeeds at four states only, the cross-validated selector returns that model
  after two failures; with a fitter that always succeeds and a score that always
  raises, the three searching selectors return \<^verbatim>\<open>None\<close>.
\<close>

lemma no_scores_fit: "hmm_fit (demo_externals no_scores) n seed x l = None"
  by (simp add: demo_defs)

theorem select_all_fail_witness:
  "SelectorConstant_select (demo_externals no_scores) (book_selector 3 2 4) = None \<and>
   SelectorBIC_select (demo_externals no_scores) (book_selector 3 2 4) = None \<and>
   SelectorDIC_select (demo_externals no_scores) (book_selector 3 2 4) = None \<and>
   fst (SelectorCV_select (demo_externals no_scores) (book_selector 3 2 4)) = None \<and>
   SelectorBIC_body (demo_externals (only_at 3)) (book_selector 3 2 4) 2 = Inl AttributeError \<and>
   SelectorBIC_select (demo_externals (only_at 3)) (book_selector 3 2 4) = Some (demo_model 3) \<and>
   fst (SelectorCV_select (demo_externals (only_at 4)) (book_selector 3 2 4)) = Some (demo_model 4) \<and>
   base_model ((demo_externals flat_scores)\<lparr>hmm_score := (\<lambda>m x l. None)\<rparr>) (book_selector 3 2 4) 2 =
     Some (demo_model 2) \<and>
   SelectorBIC_select ((demo_externals flat_scores)\<lparr>hmm_score := (\<lambda>m x l. None)\<rparr>) (book_selector 3 2 4) = None \<and>
   SelectorDIC_select ((demo_externals flat_scores)\<lparr>hmm_score := (\<lambda>m x l. None)\<rparr>) (book_selector 3 2 4) = None \<and>
   fst (SelectorCV_select ((demo_externals flat_scores)\<lparr>hmm_score := (\<lambda>m x l. None)\<rparr>) (book_selector 3 2 4)) = None"
proof -
  note u = select_all_fail [where ext = "(demo_externals flat_scores)\<lparr>hmm_score := (\<lambda>m x l. None)\<rparr>"
      and self = "book_selector 3 2 4"]
  have us: "hmm_score ((demo_externals flat_scores)\<lparr>hmm_score := (\<lambda>m x l. None)\<rparr>) m x l = None" for m x l
    by simp
  have ub: "SelectorBIC_select ((demo_externals flat_scores)\<lparr>hmm_score := (\<lambda>m x l. None)\<rparr>) (book_selector 3 2 4) = None \<and>
            SelectorDIC_select ((demo_externals flat_scores)\<lparr>hmm_score := (\<lambda>m x l. None)\<rparr>) (book_selector 3 2 4) = None"
    using u us by blast
  have uv: "fst (SelectorCV_select ((demo_externals flat_scores)\<lparr>hmm_score := (\<lambda>m x l. None)\<rparr>) (book_selector 3 2 4)) = None"
    using u us by blast
  have uf: "base_model ((demo_externals flat_scores)\<lparr>hmm_score := (\<lambda>m x l. None)\<rparr>) (book_selector 3 2 4) 2 =
     Some (demo_model 2)"
    by (simp add: base_model_def demo_defs)
  note a = select_all_fail [where ext = "demo_externals no_scores" and self = "book_selector 3 2 4"]
  have c: "SelectorConstant_select (demo_externals no_scores) (book_selector 3 2 4) = None"
    using a no_scores_fit by blast
  have b: "SelectorBIC_select (demo_externals no_scores) (book_selector 3 2 4) = None \<and>
           SelectorDIC_select (demo_externals no_scores) (book_selector 3 2 4) = None"
    using a no_scores_fit by blast
  have v: "fst (SelectorCV_select (demo_externals no_scores) (book_selector 3 2 4)) = None"
    using a no_scores_fit by blast
  note g = select_all_fail [where ext = "demo_externals (only_at 3)" and self = "book_selector 3 2 4"
      and k = 2]
  have unfit: "base_model (demo_externals (only_at 3)) (book_selector 3 2 4) 2 = None"
    by (simp add: base_model_def demo_defs)
  have b2: "SelectorBIC_body (demo_externals (only_at 3)) (book_selector 3 2 4) 2 = Inl AttributeError"
    using g unfit by blast
  have "SelectorBIC_select (demo_externals (only_at 3)) (book_selector 3 2 4) =
     fst (foldl (SelectorBIC_step (demo_externals (only_at 3)) (book_selector 3 2 4)) (None, PosInf)
           (filter (\<lambda>n. \<not> isl (SelectorBIC_body (demo_externals (only_at 3)) (book_selector 3 2 4) n))
              (py_range (min_n_components (book_selector 3 2 4)) (max_n_components (book_selector 3 2 4)))))"
    using g by blast
  then have go: "SelectorBIC_select (demo_externals (only_at 3)) (book_selector 3 2 4) = Some (demo_model 3)"
    by (simp add: SelectorBIC_step_def SelectorBIC_body_def base_model_def
        py_range_def np_log_def float_of_int_def demo_defs)
  note h = select_all_fail [where ext = "demo_externals (only_at 4)" and self = "book_selector 3 2 4"]
  have "fst (SelectorCV_select (demo_externals (only_at 4)) (book_selector 3 2 4)) =
     fst (fst (foldl (SelectorCV_step (demo_externals (only_at 4))) ((None, NegInf), (book_selector 3 2 4, None))
           (filter (\<lambda>n. \<not> isl (fst (SelectorCV_body (demo_externals (only_at 4)) n (book_selector 3 2 4, None))))
              (py_range (min_n_components (book_selector 3 2 4)) (max_n_components (book_selector 3 2 4) + 1)))))"
    using h by blast
  then have gv: "fst (SelectorCV_select (demo_externals (only_at 4)) (book_selector 3 2 4)) = Some (demo_model 4)"
    by (simp add: SelectorCV_step_def SelectorCV_body_def SelectorCV_fold_def base_model_def
        py_range_def np_mean_def py_max_key_def Let_def demo_defs)
  show ?thesis using c b v b2 go gv ub uv uf by simp
qed

subsection \<open>C9: the cross-validated selector on an item with at most two sequences\<close>

text \<open>
  C9: when the item has two or fewer sequences, the cross-validated selector does no
  fold splitting for any state count: it fits the candidate on the item's own
  \<^verbatim>\<open>X\<close> and \<^verbatim>\<open>lengths\<close> and scores that same data, once per state count. The
  theorem gives the body of one iteration on the collaborators themselves: one call
  of the fitter, with \<open>n\<close> states, on \<^verbatim>\<open>self.X\<close> and \<^verbatim>\<open>self.lengths\<close>; when
  it fails the candidate ends in the caught exception, otherwise the fitted model is
  scored once, on \<^verbatim>\<open>self.X\<close> and \<^verbatim>\<open>self.lengths\<close> again, and the instance is
  unchanged. The whole selection is the loop over \<open>min \<le> n \<le> max\<close> of that single
  evaluation and leaves the instance as it was, and neither the splitter nor the
  concatenation has any influence.
\<close>

theorem SelectorCV_no_folds:
  assumes "length (sequences self) \<le> 2"
  shows "SelectorCV_body ext n (self, hv) =
     (case hmm_fit ext n (random_state self) (X self) (lengths self) of
        None \<Rightarrow> (Inl AttributeError, (self, Some None))
      | Some p \<Rightarrow>
          (case hmm_score ext \<lparr>n_components = n, fitted = p\<rparr> (X self) (lengths self) of
             None \<Rightarrow> (Inl LibraryError, (self, Some (Some \<lparr>n_components = n, fitted = p\<rparr>)))
           | Some sc \<Rightarrow>
               (Inr (Some \<lparr>n_components = n, fitted = p\<rparr>, sc),
                (self, Some (Some \<lparr>n_components = n, fitted = p\<rparr>))))) \<and>
   SelectorCV_select ext self =
     (fst (foldl (\<lambda>best n.
        case hmm_fit ext n (random_state self) (X self) (lengths self) of
          None \<Rightarrow> best
        | Some p \<Rightarrow>
            (case hmm_score ext \<lparr>n_components = n, fitted = p\<rparr> (X self) (lengths self) of
               None \<Rightarrow> best
             | Some sc \<Rightarrow>
                 if fgt sc (snd best) then (Some \<lparr>n_components = n, fitted = p\<rparr>, sc) else best))
        (None, NegInf) (py_range (min_n_components self) (max_n_components self + 1))),
      self) \<and>
   SelectorCV_select (ext\<lparr>kf_split := k, combine_sequences := c\<rparr>) self = SelectorCV_select ext self"
proof (intro conjI)
  show "SelectorCV_body ext n (self, hv) =
     (case hmm_fit ext n (random_state self) (X self) (lengths self) of
        None \<Rightarrow> (Inl AttributeError, (self, Some None))
      | Some p \<Rightarrow>
          (case hmm_score ext \<lparr>n_components = n, fitted = p\<rparr> (X self) (lengths self) of
             None \<Rightarrow> (Inl LibraryError, (self, Some (Some \<lparr>n_components = n, fitted = p\<rparr>)))
           | Some sc \<Rightarrow>
               (Inr (Some \<lparr>n_components = n, fitted = p\<rparr>, sc),
                (self, Some (Some \<lparr>n_components = n, fitted = p\<rparr>)))))"
    using assms by (rule SelectorCV_body_small_fit)
  show "SelectorCV_select ext self =
     (fst (foldl (\<lambda>best n.
        case hmm_fit ext n (random_state self) (X self) (lengths self) of
          None \<Rightarrow> best
        | Some p \<Rightarrow>
            (case hmm_score ext \<lparr>n_components = n, fitted = p\<rparr> (X self) (lengths self) of
               None \<Rightarrow> best
             | Some sc \<Rightarrow>
                 if fgt sc (snd best) then (Some \<lparr>n_components = n, fitted = p\<rparr>, sc) else best))
        (None, NegInf) (py_range (min_n_components self) (max_n_components self + 1))),
      self)"
    using assms by (rule SelectorCV_select_small_fit)
  show "SelectorCV_select (ext\<lparr>kf_split := k, combine_sequences := c\<rparr>) self = SelectorCV_select ext self"
    by (simp add: SelectorCV_select_small_fit [OF assms] cong: option.case_cong if_cong)
qed

text \<open>
  CHAIR has two sequences. The fitter returns the data it was given and the score
  counts the observations scored, 3 and 5 states train, and the range is from 2 to 4:
  the candidate for 3 states was fitted on all of CHAIR's data and scores \<open>-30\<close> on
  its three observations, the candidate for 2 states ends in the exception, and the
  model with 3 states is returned, also with a splitter and a concatenation that
  always raise.
\<close>

theorem SelectorCV_no_folds_witness:
  "length (sequences (chair_selector 3 2 4)) \<le> 2 \<and>
   SelectorCV_body (recording_externals (scores_at [3, 5])) 3 (chair_selector 3 2 4, None) =
     (Inr (Some \<lparr>n_components = 3, fitted = ([7, 8, 9], [1, 2])\<rparr>, Fin (- 30)),
      (chair_selector 3 2 4, Some (Some \<lparr>n_components = 3, fitted = ([7, 8, 9], [1, 2])\<rparr>))) \<and>
   SelectorCV_body (recording_externals (scores_at [3, 5])) 2 (chair_selector 3 2 4, None) =
     (Inl AttributeError, (chair_selector 3 2 4, Some None)) \<and>
   SelectorCV_select (recording_externals (scores_at [3, 5])) (chair_selector 3 2 4) =
     (Some \<lparr>n_components = 3, fitted = ([7, 8, 9], [1, 2])\<rparr>, chair_selector 3 2 4) \<and>
   SelectorCV_select ((recording_externals (scores_at [3, 5]))
       \<lparr>kf_split := (\<lambda>seqs. None), combine_sequences := (\<lambda>idx seqs. None)\<rparr>) (chair_selector 3 2 4) =
     (Some \<lparr>n_components = 3, fitted = ([7, 8, 9], [1, 2])\<rparr>, chair_selector 3 2 4)"
proof -
  have two: "length (sequences (chair_selector 3 2 4)) \<le> 2"
    by (simp add: chair_selector_def)
  note w = SelectorCV_no_folds [OF two, where ext = "recording_externals (scores_at [3, 5])"
      and hv = None and k = "\<lambda>seqs. None" and c = "\<lambda>idx seqs. None"]
  have b3: "SelectorCV_body (recording_externals (scores_at [3, 5])) 3 (chair_selector 3 2 4, None) =
     (Inr (Some \<lparr>n_components = 3, fitted = ([7, 8, 9], [1, 2])\<rparr>, Fin (- 30)),
      (chair_selector 3 2 4, Some (Some \<lparr>n_components = 3, fitted = ([7, 8, 9], [1, 2])\<rparr>)))"
    using w [where n = 3, THEN conjunct1] by (simp add: demo_defs)
  have b2: "SelectorCV_body (recording_externals (scores_at [3, 5])) 2 (chair_selector 3 2 4, None) =
     (Inl AttributeError, (chair_selector 3 2 4, Some None))"
    using w [where n = 2, THEN conjunct1] by (simp add: demo_defs)
  have s: "SelectorCV_select (recording_externals (scores_at [3, 5])) (chair_selector 3 2 4) =
     (Some \<lparr>n_components = 3, fitted = ([7, 8, 9], [1, 2])\<rparr>, chair_selector 3 2 4)"
    using w [where n = 3, THEN conjunct2, THEN conjunct1] by (simp add: py_range_def demo_defs)
  show ?thesis using two b3 b2 s w [where n = 3, THEN conjunct2, THEN conjunct2] by simp
qed

subsection \<open>C10: what the cross-validated selector leaves in the instance\<close>

text \<open>
  C10: after \<^verbatim>\<open>SelectorCV.select\<close> on an item with more than two sequences, where
  a fold iteration was run, the fields \<^verbatim>\<open>X\<close> and \<^verbatim>\<open>lengths\<close> of the instance
  hold the concatenation of the training indices of the fold processed last, not the
  entry of the flattened corpus that \<^verbatim>\<open>__init__\<close> put there; nothing restores
  them. In the theorem the splitter yields the folds \<open>fs\<close>, not empty, the
  concatenation of every training part succeeds and the range is not empty. The fold
  processed last is a fold \<open>f\<close> of the last state count, \<^verbatim>\<open>max_n_components\<close>: all
  folds before it ran through, and it is the last of the list or the one that raised.
  \<^verbatim>\<open>X\<close> and \<^verbatim>\<open>lengths\<close> are the concatenation of its training part; when every
  fold runs through, that of the last fold. No other field has changed.
\<close>

theorem SelectorCV_rebinding_stays:
  assumes big: "length (sequences self) > 2" and split: "kf_split ext (sequences self) = Some fs"
    and fs: "fs \<noteq> []"
    and comb: "\<forall>f\<in>set fs. combine_sequences ext (fst f) (sequences self) \<noteq> None"
    and rng: "min_n_components self \<le> max_n_components self"
  shows "(\<exists>pre f post. fs = pre @ f # post \<and>
      combine_sequences ext (fst f) (sequences self) =
        Some (X (snd (SelectorCV_select ext self)), lengths (snd (SelectorCV_select ext self))) \<and>
      (\<forall>g\<in>set pre. \<not> isl (fst (SelectorCV_fold ext (max_n_components self) g (self, None)))) \<and>
      (post = [] \<or> isl (fst (SelectorCV_fold ext (max_n_components self) f (self, None))))) \<and>
    ((\<forall>g\<in>set fs. \<not> isl (fst (SelectorCV_fold ext (max_n_components self) g (self, None)))) \<longrightarrow>
      combine_sequences ext (fst (last fs)) (sequences self) =
        Some (X (snd (SelectorCV_select ext self)), lengths (snd (SelectorCV_select ext self)))) \<and>
    (snd (SelectorCV_select ext self))\<lparr>X := X self, lengths := lengths self\<rparr> = self"
proof -
  obtain st where sr: "same_rest (fst st) self"
    and fin: "snd (SelectorCV_select ext self) =
        fst (fst (snd (SelectorCV_folds ext (max_n_components self) fs st [])))"
    using SelectorCV_select_state [OF big split rng] by blast
  from SelectorCV_folds_last [OF sr fs comb, of "max_n_components self" "[]"] fin
  obtain pre f post where p: "fs = pre @ f # post"
    "combine_sequences ext (fst f) (sequences self) =
        Some (X (snd (SelectorCV_select ext self)), lengths (snd (SelectorCV_select ext self)))"
    "\<forall>g\<in>set pre. \<not> isl (fst (SelectorCV_fold ext (max_n_components self) g (self, None)))"
    "post = [] \<or> isl (fst (SelectorCV_fold ext (max_n_components self) f (self, None)))"
    by auto
  have one: "\<exists>pre f post. fs = pre @ f # post \<and>
      combine_sequences ext (fst f) (sequences self) =
        Some (X (snd (SelectorCV_select ext self)), lengths (snd (SelectorCV_select ext self))) \<and>
      (\<forall>g\<in>set pre. \<not> isl (fst (SelectorCV_fold ext (max_n_components self) g (self, None)))) \<and>
      (post = [] \<or> isl (fst (SelectorCV_fold ext (max_n_components self) f (self, None))))"
    using p by blast
  have two: "combine_sequences ext (fst (last fs)) (sequences self) =
        Some (X (snd (SelectorCV_select ext self)), lengths (snd (SelectorCV_select ext self)))"
    if all: "\<forall>g\<in>set fs. \<not> isl (fst (SelectorCV_fold ext (max_n_components self) g (self, None)))"
  proof -
    have "f \<in> set fs" using p(1) by simp
    then have "post = []" using p(4) all by blast
    then have "last fs = f" using p(1) by simp
    then show ?thesis using p(2) by simp
  qed
  have "same_rest (fst (fst (snd (SelectorCV_folds ext (max_n_components self) fs st [])))) self"
    using sr by (rule SelectorCV_folds_frame)
  then have three: "(snd (SelectorCV_select ext self))\<lparr>X := X self, lengths := lengths self\<rparr> = self"
    using fin by (simp only: same_rest_def)
  show ?thesis using one two three by blast
qed


text \<open>
  BOOK with the range from 2 to 3: the instance starts with all six observations and
  the lengths 2, 1, 3, and ends with the training part of the third fold, the first
  two sequences.
\<close>

lemma book_folds:
  "kf_split (demo_externals flat_scores) (sequences (book_selector 3 2 3)) =
     Some [([1, 2], [0]), ([0, 2], [1]), ([0, 1], [2])]"
  by (simp add: demo_defs)

lemma book_combine:
  "\<forall>f\<in>set [([1, 2], [0]), ([0, 2], [1]), ([0, 1], [2::nat])].
     combine_sequences (demo_externals flat_scores) (fst f) (sequences (book_selector 3 2 3)) \<noteq> None"
  by (simp add: demo_defs)

lemma book_folds_complete:
  "\<forall>g\<in>set [([1, 2], [0]), ([0, 2], [1]), ([0, 1], [2::nat])].
     \<not> isl (fst (SelectorCV_fold (demo_externals flat_scores) (max_n_components (book_selector 3 2 3)) g
                  (book_selector 3 2 3, None)))"
  by (simp add: SelectorCV_fold_def base_model_def Let_def demo_defs)

lemma book_last_train:
  "combine_sequences (demo_externals flat_scores) (fst (last [([1, 2], [0]), ([0, 2], [1]), ([0, 1], [2::nat])]))
     (sequences (book_selector 3 2 3)) = Some ([1, 2, 3], [2, 1])"
  by (simp add: demo_defs)

theorem SelectorCV_rebinding_stays_witness:
  "length (sequences (book_selector 3 2 3)) > 2 \<and>
   X (snd (SelectorCV_select (demo_externals flat_scores) (book_selector 3 2 3))) = [1, 2, 3] \<and>
   lengths (snd (SelectorCV_select (demo_externals flat_scores) (book_selector 3 2 3))) = [2, 1] \<and>
   X (book_selector 3 2 3) = [1, 2, 3, 4, 5, 6] \<and>
   lengths (book_selector 3 2 3) = [2, 1, 3]"
proof -
  have big: "length (sequences (book_selector 3 2 3)) > 2" by (simp add: book_selector_def)
  have ne: "[([1, 2], [0]), ([0, 2], [1]), ([0, 1], [2::nat])] \<noteq> []" by simp
  have rng: "min_n_components (book_selector 3 2 3) \<le> max_n_components (book_selector 3 2 3)"
    by (simp add: book_selector_def)
  from SelectorCV_rebinding_stays [OF big book_folds ne book_combine rng] book_folds_complete
  have "combine_sequences (demo_externals flat_scores)
          (fst (last [([1, 2], [0]), ([0, 2], [1]), ([0, 1], [2::nat])]))
          (sequences (book_selector 3 2 3)) =
        Some (X (snd (SelectorCV_select (demo_externals flat_scores) (book_selector 3 2 3))),
              lengths (snd (SelectorCV_select (demo_externals flat_scores) (book_selector 3 2 3))))"
    by blast
  then have "X (snd (SelectorCV_select (demo_externals flat_scores) (book_selector 3 2 3))) = [1, 2, 3] \<and>
   lengths (snd (SelectorCV_select (demo_externals flat_scores) (book_selector 3 2 3))) = [2, 1]"
    using book_last_train by simp
  then show ?thesis using big by (simp add: book_selector_def)
qed

end
